theory Spec2Isabelle
  imports Complex_Main
begin

section \<open>Run-time failures\<close>

text \<open>
  The C code stops on a failed \<^verbatim>\<open>assert\<close> and has undefined behaviour when it
  dereferences a null pointer, reads outside a string or divides by zero. Each of these is
  a value of the model, so that a call that does not return normally is visible.
  Allocation is assumed to succeed (the code calls \<^verbatim>\<open>exit(1)\<close> otherwise), except for a
  request of negative size. Lengths are taken to fit in an \<^verbatim>\<open>int\<close>: the playlists arrive
  in buffers whose length is an \<^verbatim>\<open>int\<close>.
\<close>

datatype error = AssertFailed | NullDeref | OutOfBounds | DivByZero | AllocFailed | SignedOverflow

section \<open>C strings\<close>

text \<open>
  A C string is modelled by its contents before the terminating NUL. A pointer into a
  string is an offset; offset \<open>length s\<close> points at the terminator.
\<close>

fun is_prefix :: "string \<Rightarrow> string \<Rightarrow> bool" where
  "is_prefix [] ys = True"
| "is_prefix (x # xs) [] = False"
| "is_prefix (x # xs) (y # ys) = (x = y \<and> is_prefix xs ys)"

fun strstr :: "string \<Rightarrow> string \<Rightarrow> nat option" where
  "strstr [] needle = (if needle = [] then Some 0 else None)"
| "strstr (c # cs) needle =
     (if is_prefix needle (c # cs) then Some 0 else map_option Suc (strstr cs needle))"

fun strchr :: "string \<Rightarrow> char \<Rightarrow> nat option" where
  "strchr [] c = None"
| "strchr (x # xs) c = (if x = c then Some 0 else map_option Suc (strchr xs c))"

definition strstr_at :: "string \<Rightarrow> nat \<Rightarrow> string \<Rightarrow> nat option" where
  "strstr_at s p needle = map_option (\<lambda>k. p + k) (strstr (drop p s) needle)"

definition strchr_at :: "string \<Rightarrow> nat \<Rightarrow> char \<Rightarrow> nat option" where
  "strchr_at s p c = map_option (\<lambda>k. p + k) (strchr (drop p s) c)"

text \<open>\<^verbatim>\<open>strncmp(a, b, n) == 0\<close> on NUL-terminated strings.\<close>

definition strncmp_eq :: "string \<Rightarrow> string \<Rightarrow> nat \<Rightarrow> bool" where
  "strncmp_eq a b n = (take n a = take n b)"

text \<open>The conversion of a value to \<^verbatim>\<open>int\<close> (32 bits, two's complement).\<close>

definition to_int32 :: "int \<Rightarrow> int" where
  "to_int32 x = (x + 2147483648) mod 4294967296 - 2147483648"

definition INT_MAX :: int where
  "INT_MAX = 2147483647"

text \<open>
  \<^verbatim>\<open>strtol(s, &end, 10)\<close>: white space, an optional sign, decimal digits; the value is
  clamped to the range of \<^verbatim>\<open>long\<close> (64 bits).
\<close>

definition isspace :: "char \<Rightarrow> bool" where
  "isspace c = (c \<in> set [CHR '' '', CHR 0x09, CHR 0x0A, CHR 0x0B, CHR 0x0C, CHR 0x0D])"

definition isdigit :: "char \<Rightarrow> bool" where
  "isdigit c = (48 \<le> (of_char c :: nat) \<and> (of_char c :: nat) \<le> 57)"

definition digit_val :: "char \<Rightarrow> int" where
  "digit_val c = int (of_char c) - 48"

fun digits_val :: "int \<Rightarrow> string \<Rightarrow> int" where
  "digits_val acc [] = acc"
| "digits_val acc (c # cs) = (if isdigit c then digits_val (acc * 10 + digit_val c) cs else acc)"

definition strtol :: "string \<Rightarrow> int" where
  "strtol s =
     (let t = dropWhile isspace s;
          (neg, u) = (case t of
                        [] \<Rightarrow> (False, [])
                      | c # cs \<Rightarrow> if c = CHR ''-'' then (True, cs)
                                  else if c = CHR ''+'' then (False, cs) else (False, t));
          v = digits_val 0 u;
          w = (if neg then - v else v)
      in max (- 9223372036854775808) (min 9223372036854775807 w))"

section \<open>The session: airplay_video.c\<close>

datatype playlist_type_t = NONE | VOD | EVENT

text \<open>
  \<^verbatim>\<open>float\<close> values are modelled as reals: the code stores and compares them, and the
  order of finite floats is the order of the reals they denote.
\<close>

record media_item_t =
  uri :: string
  playlist :: "string option"
  num :: int
  count :: int
  duration :: real
  endlist :: bool
  playlist_type :: playlist_type_t
  hls_version :: int
  media_sequence :: int

record airplay_video_t =
  apple_session_id :: "string option"
  playback_uuid :: "string option"
  uri_prefix :: "string option"
  local_uri_prefix :: string
  playback_location :: "string option"
  language_name :: "string option"
  language_code :: "string option"
  lang :: "string option"
  next_uri :: int
  FCUP_RequestID :: int
  start_position_seconds :: real
  resume_position_seconds :: real
  master_playlist :: "string option"
  media_data_store :: "media_item_t list option"
  num_uri :: int

text \<open>\<^verbatim>\<open>snprintf(port, sizeof(port), "%u", http_port)\<close>: the decimal digits of the port.\<close>

fun decimal :: "nat \<Rightarrow> string" where
  "decimal n =
     (if n < 10 then [''0123456789'' ! n] else decimal (n div 10) @ [''0123456789'' ! (n mod 10)])"

declare decimal.simps [simp del]

definition airplay_video_init :: "nat \<Rightarrow> string option \<Rightarrow> airplay_video_t" where
  "airplay_video_init http_port lng =
     \<lparr> apple_session_id = None, playback_uuid = None, uri_prefix = None,
       local_uri_prefix = ''http://localhost:'' @ decimal http_port,
       playback_location = None, language_name = None, language_code = None,
       lang = lng, next_uri = 0, FCUP_RequestID = 0,
       start_position_seconds = 0, resume_position_seconds = 0,
       master_playlist = None, media_data_store = None, num_uri = 0 \<rparr>"

definition set_apple_session_id :: "airplay_video_t \<Rightarrow> string \<Rightarrow> nat \<Rightarrow> error + airplay_video_t" where
  "set_apple_session_id av s len =
     (if len = 36 then Inr (av\<lparr>apple_session_id := Some (take len s)\<rparr>) else Inl AssertFailed)"

definition set_playback_uuid :: "airplay_video_t \<Rightarrow> string \<Rightarrow> nat \<Rightarrow> error + airplay_video_t" where
  "set_playback_uuid av s len =
     (if len = 36 then Inr (av\<lparr>playback_uuid := Some (take len s)\<rparr>) else Inl AssertFailed)"

definition set_uri_prefix :: "airplay_video_t \<Rightarrow> string \<Rightarrow> nat \<Rightarrow> error + airplay_video_t" where
  "set_uri_prefix av s len =
     (if len \<noteq> 0 then Inr (av\<lparr>uri_prefix := Some (take len s)\<rparr>) else Inl AssertFailed)"

definition set_playback_location :: "airplay_video_t \<Rightarrow> string \<Rightarrow> nat \<Rightarrow> error + airplay_video_t" where
  "set_playback_location av s len =
     (if len \<noteq> 0 then Inr (av\<lparr>playback_location := Some (take len s)\<rparr>) else Inl AssertFailed)"

definition set_language_name :: "airplay_video_t \<Rightarrow> string \<Rightarrow> nat \<Rightarrow> error + airplay_video_t" where
  "set_language_name av s len =
     (if len \<noteq> 0 then Inr (av\<lparr>language_name := Some (take len s)\<rparr>) else Inl AssertFailed)"

definition set_language_code :: "airplay_video_t \<Rightarrow> string \<Rightarrow> nat \<Rightarrow> error + airplay_video_t" where
  "set_language_code av s len =
     (if len \<noteq> 0 then Inr (av\<lparr>language_code := Some (take len s)\<rparr>) else Inl AssertFailed)"

text \<open>
  \<^verbatim>\<open>get_duration\<close> takes a possibly null session. It reads the duration of the first
  element of the store; a store allocated with no element has no first element to read.
\<close>

definition get_duration :: "airplay_video_t option \<Rightarrow> error + real" where
  "get_duration a =
     (case a of
        None \<Rightarrow> Inr 0
      | Some av \<Rightarrow>
          (case media_data_store av of
             None \<Rightarrow> Inr 0
           | Some [] \<Rightarrow> Inl OutOfBounds
           | Some (item0 # rest) \<Rightarrow> if duration item0 = 0 then Inr 0 else Inr (duration item0)))"

definition get_start_position_seconds :: "airplay_video_t \<Rightarrow> real" where
  "get_start_position_seconds av = start_position_seconds av"

definition get_resume_position_seconds :: "airplay_video_t \<Rightarrow> real" where
  "get_resume_position_seconds av = resume_position_seconds av"

definition set_start_position_seconds :: "airplay_video_t \<Rightarrow> real \<Rightarrow> airplay_video_t" where
  "set_start_position_seconds av x = av\<lparr>start_position_seconds := x\<rparr>"

definition set_resume_position_seconds :: "airplay_video_t \<Rightarrow> real \<Rightarrow> airplay_video_t" where
  "set_resume_position_seconds av x = av\<lparr>resume_position_seconds := x\<rparr>"

definition get_playback_uuid :: "airplay_video_t option \<Rightarrow> string option" where
  "get_playback_uuid a = (case a of None \<Rightarrow> None | Some av \<Rightarrow> playback_uuid av)"

definition get_playback_location :: "airplay_video_t option \<Rightarrow> string option" where
  "get_playback_location a = (case a of None \<Rightarrow> None | Some av \<Rightarrow> playback_location av)"

definition get_uri_local_prefix :: "airplay_video_t \<Rightarrow> string" where
  "get_uri_local_prefix av = local_uri_prefix av"

text \<open>
  \<^verbatim>\<open>return ++(airplay_video->FCUP_RequestID);\<close> on an \<^verbatim>\<open>int\<close>: incrementing
  \<^verbatim>\<open>INT_MAX\<close> is undefined.
\<close>

definition get_next_FCUP_RequestID :: "airplay_video_t \<Rightarrow> error + (int \<times> airplay_video_t)" where
  "get_next_FCUP_RequestID av =
     (if FCUP_RequestID av < INT_MAX
      then Inr (FCUP_RequestID av + 1, av\<lparr>FCUP_RequestID := FCUP_RequestID av + 1\<rparr>)
      else Inl SignedOverflow)"

definition set_next_media_uri_id :: "airplay_video_t \<Rightarrow> int \<Rightarrow> airplay_video_t" where
  "set_next_media_uri_id av n = av\<lparr>next_uri := n\<rparr>"

subsection \<open>The media data store\<close>

text \<open>
  \<^verbatim>\<open>create_media_data_store\<close> allocates \<open>n\<close> items and reads \<open>uri_list[0..n-1]\<close>.
\<close>

definition new_media_item :: "string \<Rightarrow> nat \<Rightarrow> media_item_t" where
  "new_media_item u i =
     \<lparr> uri = u, playlist = None, num = int i, count = 0, duration = 0, endlist = False,
       playlist_type = NONE, hls_version = 0, media_sequence = 0 \<rparr>"

definition create_media_data_store ::
  "airplay_video_t \<Rightarrow> string list \<Rightarrow> nat \<Rightarrow> error + airplay_video_t" where
  "create_media_data_store av uri_list n =
     (if length uri_list < n then Inl OutOfBounds
      else Inr (av\<lparr>media_data_store := Some (map (\<lambda>i. new_media_item (uri_list ! i) i) [0..<n]),
                   num_uri := int n\<rparr>))"

text \<open>
  The loop of \<^verbatim>\<open>parse_media_playlist\<close>, from offset \<open>p\<close> of the playlist text \<open>s\<close>.
  It ends at the first \<^verbatim>\<open>#EXT\<close> tag that is \<^verbatim>\<open>#EXTINF:\<close>, or when no
  \<^verbatim>\<open>#EXT-X-\<close> tag is left.
\<close>

definition parse_header_step :: "string \<Rightarrow> nat \<Rightarrow> media_item_t \<Rightarrow> media_item_t" where
  "parse_header_step s q item =
     (let item1 = (case strstr_at s q ''PLAYLIST-TYPE:'' of
                     None \<Rightarrow> item
                   | Some r \<Rightarrow>
                       if is_prefix ''VOD'' (drop (r + 14) s) then item\<lparr>playlist_type := VOD\<rparr>
                       else if is_prefix ''EVENT'' (drop (r + 14) s) then item\<lparr>playlist_type := EVENT\<rparr>
                       else item);
          item2 = (case strstr_at s q ''VERSION:'' of
                     None \<Rightarrow> item1
                   | Some r \<Rightarrow> item1\<lparr>hls_version := to_int32 (strtol (drop (r + 8) s))\<rparr>)
      in (case strstr_at s q ''MEDIA-SEQUENCE:'' of
            None \<Rightarrow> item2
          | Some r \<Rightarrow> item2\<lparr>media_sequence := to_int32 (strtol (drop (r + 15) s))\<rparr>))"

lemma strstr_bounds:
  "needle \<noteq> [] \<Longrightarrow> strstr s needle = Some k \<Longrightarrow> k + length needle \<le> length s"
proof (induction s arbitrary: k)
  case Nil
  then show ?case by simp
next
  case (Cons c cs)
  have pre: "\<And>xs ys. is_prefix xs ys \<Longrightarrow> length xs \<le> length ys"
  proof -
    fix xs ys :: string
    show "is_prefix xs ys \<Longrightarrow> length xs \<le> length ys"
      by (induction xs ys rule: is_prefix.induct) auto
  qed
  show ?case
  proof (cases "is_prefix needle (c # cs)")
    case True
    with Cons.prems pre [of needle "c # cs"] show ?thesis by simp
  next
    case False
    with Cons.prems obtain j where "strstr cs needle = Some j" "k = Suc j" by auto
    with Cons.IH [OF Cons.prems(1)] show ?thesis by simp
  qed
qed

lemma strstr_at_bounds:
  assumes "needle \<noteq> []" and "strstr_at s p needle = Some q"
  shows "p \<le> q \<and> q + length needle \<le> length s"
proof -
  from assms(2) obtain k where k: "strstr (drop p s) needle = Some k" "q = p + k"
    by (auto simp: strstr_at_def)
  from strstr_bounds [OF assms(1) k(1)] have "k + length needle \<le> length s - p" by simp
  moreover from assms(1) have "0 < length needle" by simp
  ultimately show ?thesis using k(2) by arith
qed

function parse_media_loop :: "string \<Rightarrow> nat \<Rightarrow> media_item_t \<Rightarrow> media_item_t" where
  "parse_media_loop s p item =
     (case strstr_at s p ''#EXT'' of
        None \<Rightarrow> item
      | Some q0 \<Rightarrow>
          if is_prefix ''#EXTINF:'' (drop q0 s) then item
          else (case strstr_at s q0 ''#EXT-X-'' of
                  None \<Rightarrow> item
                | Some q \<Rightarrow> parse_media_loop s (q + 7) (parse_header_step s q item)))"
  by pat_completeness auto
termination
proof (relation "measure (\<lambda>(s, p, item). length s - p)", goal_cases)
  case 1
  show ?case by simp
next
  case (2 s p item q0 q)
  from 2(1) have a: "p \<le> q0"
    using strstr_at_bounds [of "''#EXT''" s p q0] by simp
  from 2(3) have b: "q0 \<le> q \<and> q + 7 \<le> length s"
    using strstr_at_bounds [of "''#EXT-X-''" s q0 q] by simp
  from a b show ?case by simp arith
qed

definition parse_media_playlist :: "media_item_t \<Rightarrow> error + (int \<times> media_item_t)" where
  "parse_media_playlist item =
     (case playlist item of
        None \<Rightarrow> Inl NullDeref
      | Some s \<Rightarrow>
          (case strstr s ''#EXTM3U'' of
             None \<Rightarrow> Inr (- 1, item)
           | Some p \<Rightarrow> Inr (0, parse_media_loop s (p + 1) item)))"

text \<open>The duplicate search of \<^verbatim>\<open>store_media_playlist\<close>: the first \<open>i\<close> of the list with the URI of item \<open>n\<close>.\<close>

fun find_same_uri :: "nat list \<Rightarrow> media_item_t list \<Rightarrow> nat \<Rightarrow> nat option" where
  "find_same_uri [] store n = None"
| "find_same_uri (i # rest) store n =
     (if uri (store ! i) = uri (store ! n) then Some i else find_same_uri rest store n)"

definition store_media_playlist ::
  "airplay_video_t \<Rightarrow> string \<Rightarrow> int \<Rightarrow> real \<Rightarrow> bool \<Rightarrow> int \<Rightarrow> error + (int \<times> airplay_video_t)" where
  "store_media_playlist av media_playlist cnt dur endl n =
     (if n < 0 \<or> n \<ge> num_uri av then Inr (- 1, av)
      else (case media_data_store av of
              None \<Rightarrow> Inl NullDeref
            | Some store \<Rightarrow>
                if length store \<le> nat n then Inl OutOfBounds
                else if playlist (store ! nat n) \<noteq> None then Inr (- 2, av)
                else (case find_same_uri [0..<nat n] store (nat n) of
                        Some i \<Rightarrow>
                          (case playlist (store ! i) of
                             None \<Rightarrow> Inl NullDeref
                           | Some old \<Rightarrow>
                               if old \<noteq> media_playlist then Inl AssertFailed
                               else Inr (1, av\<lparr>media_data_store :=
                                                Some (store[nat n := (store ! nat n)\<lparr>num := int i\<rparr>])\<rparr>))
                      | None \<Rightarrow>
                          (case parse_media_playlist
                                  ((store ! nat n)\<lparr>playlist := Some media_playlist, count := cnt,
                                                   duration := dur, endlist := endl\<rparr>) of
                             Inl e \<Rightarrow> Inl e
                           | Inr (rc, item) \<Rightarrow>
                               Inr (0, av\<lparr>media_data_store := Some (store[nat n := item])\<rparr>)))))"

text \<open>
  The store of a session has \<open>num_uri\<close> items: \<^verbatim>\<open>airplay_video_init\<close> and
  \<^verbatim>\<open>create_media_data_store\<close> establish it and no operation changes the size.
\<close>

definition store_ok :: "airplay_video_t \<Rightarrow> bool" where
  "store_ok av =
     (case media_data_store av of
        None \<Rightarrow> num_uri av = 0
      | Some store \<Rightarrow> int (length store) = num_uri av)"


text \<open>The conditions that \<^verbatim>\<open>store_media_playlist\<close> tells apart, in the words of the specification.\<close>

definition in_range :: "airplay_video_t \<Rightarrow> int \<Rightarrow> bool" where
  "in_range av n = (0 \<le> n \<and> n < num_uri av)"

definition the_store :: "airplay_video_t \<Rightarrow> media_item_t list" where
  "the_store av = (case media_data_store av of None \<Rightarrow> [] | Some st \<Rightarrow> st)"

definition slot_filled :: "airplay_video_t \<Rightarrow> int \<Rightarrow> bool" where
  "slot_filled av n = (playlist (the_store av ! nat n) \<noteq> None)"

definition prior_same_uri :: "airplay_video_t \<Rightarrow> int \<Rightarrow> nat \<Rightarrow> bool" where
  "prior_same_uri av n j =
     (j < nat n \<and> uri (the_store av ! j) = uri (the_store av ! nat n) \<and>
      (\<forall>i<j. uri (the_store av ! i) \<noteq> uri (the_store av ! nat n)))"

text \<open>A session with two media items of the same URI, the first one fetched.\<close>

definition same_uri_session :: airplay_video_t where
  "same_uri_session =
     (airplay_video_init 7100 None)
       \<lparr> media_data_store :=
           Some [(new_media_item ''u'' 0)\<lparr>playlist := Some ''#EXTM3U''\<rparr>, new_media_item ''u'' 1],
         num_uri := 2 \<rparr>"

section \<open>The registry and the handlers: http_handlers.h\<close>

definition MAX_AIRPLAY_VIDEO :: nat where
  "MAX_AIRPLAY_VIDEO = 10"

definition MIN_STORED_AIRPLAY_VIDEO_DURATION_SECONDS :: real where
  "MIN_STORED_AIRPLAY_VIDEO_DURATION_SECONDS = 90"

text \<open>
  The fields of \<^verbatim>\<open>struct raop_s\<close> that the handlers use: the slot array
  \<^verbatim>\<open>airplay_video[MAX_AIRPLAY_VIDEO]\<close>, \<^verbatim>\<open>current_video\<close>, \<^verbatim>\<open>port\<close> and
  \<^verbatim>\<open>lang\<close> (here \<open>raop_port\<close> and \<open>raop_lang\<close>).
\<close>

record raop_t =
  airplay_video :: "airplay_video_t option list"
  current_video :: int
  raop_port :: nat
  raop_lang :: "string option"

text \<open>
  The calls a handler makes on its collaborators, in order: \<^verbatim>\<open>fcup_request\<close> with the
  URL, the session ID and the request ID, and the callbacks \<^verbatim>\<open>on_video_play\<close>,
  \<^verbatim>\<open>conn_reset\<close> and \<^verbatim>\<open>on_video_playlist_remove\<close>.
\<close>

datatype event =
    Fcup_request string string int
  | On_video_play "string option" real
  | Conn_reset int
  | On_video_playlist_remove

text \<open>
  Modelled from the spec: the response object of the HTTP server (not in the sources), a
  status line, headers and the disconnect mark. \<^verbatim>\<open>http_response_init\<close> starts the
  response anew with a status line.
\<close>

record http_response_t =
  status_code :: int
  status_message :: string
  headers :: "(string \<times> string) list"
  disconnect :: bool

definition http_response_init :: "http_response_t \<Rightarrow> int \<Rightarrow> string \<Rightarrow> http_response_t" where
  "http_response_init response code message =
     response\<lparr>status_code := code, status_message := message, headers := []\<rparr>"

definition http_response_add_header :: "http_response_t \<Rightarrow> string \<Rightarrow> string \<Rightarrow> http_response_t" where
  "http_response_add_header response name val = response\<lparr>headers := headers response @ [(name, val)]\<rparr>"

definition http_response_set_disconnect :: "http_response_t \<Rightarrow> bool \<Rightarrow> http_response_t" where
  "http_response_set_disconnect response b = response\<lparr>disconnect := b\<rparr>"

text \<open>
  Modelled from the spec: the property-list tree that the codec (not in the sources)
  parses from the request body, and its typed accessors, which leave their output
  untouched (null) on a node of another type.
\<close>

datatype plist_t =
    PLIST_STRING string
  | PLIST_REAL real
  | PLIST_UINT nat
  | PLIST_DATA string
  | PLIST_DICT "(string \<times> plist_t) list"

definition plist_dict_get_item :: "plist_t option \<Rightarrow> string \<Rightarrow> plist_t option" where
  "plist_dict_get_item node key =
     (case node of Some (PLIST_DICT kvs) \<Rightarrow> map_of kvs key | _ \<Rightarrow> None)"

definition plist_get_string_val :: "plist_t \<Rightarrow> string option" where
  "plist_get_string_val node = (case node of PLIST_STRING s \<Rightarrow> Some s | _ \<Rightarrow> None)"

definition plist_get_real_val :: "plist_t \<Rightarrow> real \<Rightarrow> real" where
  "plist_get_real_val node old = (case node of PLIST_REAL x \<Rightarrow> x | _ \<Rightarrow> old)"

text \<open>
  The request as the handlers read it: the \<^verbatim>\<open>X-Apple-Session-ID\<close> header, the header
  string, the length of the body and the tree \<^verbatim>\<open>plist_from_bin\<close> makes of the body
  (none when the body is no property list).
\<close>

record http_request_t =
  header_X_Apple_Session_ID :: "string option"
  header_string :: string
  request_datalen :: int
  request_plist :: "plist_t option"

definition hls_get_current_video :: "raop_t \<Rightarrow> error + airplay_video_t option" where
  "hls_get_current_video raop =
     (if current_video raop < 0 then Inr None
      else if length (airplay_video raop) \<le> nat (current_video raop) then Inl OutOfBounds
      else (case airplay_video raop ! nat (current_video raop) of
              None \<Rightarrow> Inl AssertFailed
            | Some av \<Rightarrow> Inr (Some av)))"

text \<open>\<^verbatim>\<open>strcmp\<close> with the null UUID of a session dereferences a null pointer.\<close>

fun get_playlist_by_uuid_loop :: "nat list \<Rightarrow> raop_t \<Rightarrow> string \<Rightarrow> error + int" where
  "get_playlist_by_uuid_loop [] raop uuid = Inr (- 1)"
| "get_playlist_by_uuid_loop (i # rest) raop uuid =
     (case airplay_video raop ! i of
        None \<Rightarrow> get_playlist_by_uuid_loop rest raop uuid
      | Some av \<Rightarrow>
          (case get_playback_uuid (Some av) of
             None \<Rightarrow> Inl NullDeref
           | Some u \<Rightarrow> if uuid = u then Inr (int i) else get_playlist_by_uuid_loop rest raop uuid))"

definition get_playlist_by_uuid :: "raop_t \<Rightarrow> string \<Rightarrow> error + int" where
  "get_playlist_by_uuid raop uuid = get_playlist_by_uuid_loop [0..<MAX_AIRPLAY_VIDEO] raop uuid"

text \<open>
  Modelled from the spec: \<^verbatim>\<open>raop_destroy_airplay_video\<close> (declared in raop.h, defined
  outside the sources) is the registry's \<open>remove(index)\<close>: it destroys the session of
  the slot and empties the slot.
\<close>

definition raop_destroy_airplay_video :: "raop_t \<Rightarrow> nat \<Rightarrow> raop_t" where
  "raop_destroy_airplay_video raop i = raop\<lparr>airplay_video := (airplay_video raop)[i := None]\<rparr>"

text \<open>The first loop of the new-session path of \<^verbatim>\<open>http_handler_play\<close>, over the slots \<open>is\<close>.\<close>

fun prune_short_playlists :: "nat list \<Rightarrow> raop_t \<Rightarrow> int \<Rightarrow> error + (raop_t \<times> int)" where
  "prune_short_playlists [] raop cnt = Inr (raop, cnt)"
| "prune_short_playlists (i # rest) raop cnt =
     (case airplay_video raop ! i of
        None \<Rightarrow> prune_short_playlists rest raop cnt
      | Some av \<Rightarrow>
          (case get_duration (Some av) of
             Inl e \<Rightarrow> Inl e
           | Inr d \<Rightarrow>
               if d < MIN_STORED_AIRPLAY_VIDEO_DURATION_SECONDS
               then prune_short_playlists rest (raop_destroy_airplay_video raop i) cnt
               else prune_short_playlists rest raop (cnt + 1)))"

text \<open>The second loop: the first empty slot, or -1.\<close>

fun find_empty_slot :: "nat list \<Rightarrow> raop_t \<Rightarrow> int" where
  "find_empty_slot [] raop = - 1"
| "find_empty_slot (i # rest) raop =
     (if airplay_video raop ! i \<noteq> None then find_empty_slot rest raop else int i)"

definition set_slot :: "raop_t \<Rightarrow> nat \<Rightarrow> airplay_video_t \<Rightarrow> raop_t" where
  "set_slot raop i av = raop\<lparr>airplay_video := (airplay_video raop)[i := Some av]\<rparr>"

definition play_error ::
  "raop_t \<Rightarrow> http_response_t \<Rightarrow> error + (raop_t \<times> http_response_t \<times> event list)" where
  "play_error raop response =
     Inr (raop,
          http_response_set_disconnect (http_response_init response 400 ''Bad Request'') True,
          [Conn_reset 2])"

text \<open>Lines 787 to 802: the playback UUID is already stored in slot \<open>vid\<close>.\<close>

definition play_existing ::
  "raop_t \<Rightarrow> nat \<Rightarrow> string \<Rightarrow> http_response_t \<Rightarrow> error + (raop_t \<times> http_response_t \<times> event list)" where
  "play_existing raop vid sid response =
     (let raop1 = raop\<lparr>current_video := int vid\<rparr>
      in (case hls_get_current_video raop1 of
            Inl e \<Rightarrow> Inl e
          | Inr None \<Rightarrow> Inl AssertFailed
          | Inr (Some av) \<Rightarrow>
              (case set_apple_session_id av sid (length sid) of
                 Inl e \<Rightarrow> Inl e
               | Inr av1 \<Rightarrow>
                   (let resume_pos = get_resume_position_seconds av1;
                        start_pos = get_start_position_seconds av1
                    in Inr (set_slot raop1 vid av1, response,
                            [On_video_play (get_playback_location (Some av1))
                               (if resume_pos > start_pos then resume_pos else start_pos)])))))"

text \<open>
  Lines 804 to 852: prune the short playlists, take the first empty slot for the new
  session, and free the next slot when the table is full.
\<close>

definition play_insert_new :: "raop_t \<Rightarrow> string \<Rightarrow> string \<Rightarrow> error + (raop_t \<times> nat)" where
  "play_insert_new raop sid uuid =
     (case prune_short_playlists [0..<MAX_AIRPLAY_VIDEO] raop 0 of
        Inl e \<Rightarrow> Inl e
      | Inr (raop1, cnt) \<Rightarrow>
          if \<not> cnt < int MAX_AIRPLAY_VIDEO then Inl AssertFailed
          else (let vid = find_empty_slot [0..<MAX_AIRPLAY_VIDEO] raop1
                in if \<not> vid \<ge> 0 then Inl AssertFailed
                   else (let raop2 = set_slot (raop1\<lparr>current_video := vid\<rparr>) (nat vid)
                                       (airplay_video_init (raop_port raop1) (raop_lang raop1))
                         in (case hls_get_current_video raop2 of
                               Inl e \<Rightarrow> Inl e
                             | Inr None \<Rightarrow> Inl AssertFailed
                             | Inr (Some av) \<Rightarrow>
                                 (case set_apple_session_id av sid (length sid) of
                                    Inl e \<Rightarrow> Inl e
                                  | Inr av1 \<Rightarrow>
                                      (case set_playback_uuid av1 uuid (length uuid) of
                                         Inl e \<Rightarrow> Inl e
                                       | Inr av2 \<Rightarrow>
                                           (let raop3 = set_slot raop2 (nat vid) av2
                                            in if cnt + 1 = int MAX_AIRPLAY_VIDEO
                                               then Inr (raop3\<lparr>airplay_video :=
                                                           (airplay_video raop3)
                                                             [(nat vid + 1) mod MAX_AIRPLAY_VIDEO := None]\<rparr>,
                                                         nat vid)
                                               else Inr (raop3, nat vid))))))))"

text \<open>
  Lines 861 to 925: read the request's fields into the session of slot \<open>vid\<close> and ask for
  the master playlist. The cast of the start position from \<^verbatim>\<open>double\<close> to \<^verbatim>\<open>float\<close>
  is the identity on the reals of the model.
\<close>

definition play_start_fetch ::
  "raop_t \<Rightarrow> nat \<Rightarrow> airplay_video_t \<Rightarrow> http_request_t \<Rightarrow> http_response_t \<Rightarrow> string \<Rightarrow>
     error + (raop_t \<times> http_response_t \<times> event list)" where
  "play_start_fetch raop vid av request response sid =
     (case plist_dict_get_item (request_plist request) ''Content-Location'' of
        None \<Rightarrow> play_error raop response
      | Some req_content_location_node \<Rightarrow>
      (case plist_dict_get_item (request_plist request) ''clientProcName'' of
        None \<Rightarrow> play_error raop response
      | Some req_client_proc_name_node \<Rightarrow>
      (case plist_get_string_val req_client_proc_name_node of
        None \<Rightarrow> Inl NullDeref
      | Some client_proc_name \<Rightarrow>
      (let start_position =
             (case plist_dict_get_item (request_plist request) ''Start-Position-Seconds'' of
                None \<Rightarrow> 0
              | Some node \<Rightarrow> plist_get_real_val node 0);
           av1 = set_start_position_seconds av start_position;
           raop1 = set_slot raop vid av1
       in
      (case plist_get_string_val req_content_location_node of
        None \<Rightarrow> Inl NullDeref
      | Some location \<Rightarrow>
      (case strstr location ''/master.m3u8'' of
        None \<Rightarrow> play_error raop1 response
      | Some k \<Rightarrow>
      (let local_location = get_uri_local_prefix av1 @ drop k location
       in
      (case set_playback_location av1 local_location (length local_location) of
        Inl e \<Rightarrow> Inl e
      | Inr av2 \<Rightarrow>
      (case set_uri_prefix av2 (take k location) (length (take k location)) of
        Inl e \<Rightarrow> Inl e
      | Inr av3 \<Rightarrow>
      (case get_next_FCUP_RequestID (set_next_media_uri_id av3 0) of
        Inl e \<Rightarrow> Inl e
      | Inr (request_id, av4) \<Rightarrow>
          Inr (set_slot raop1 vid av4, response,
               [Fcup_request location sid request_id])))))))))))"

definition http_handler_play ::
  "raop_t \<Rightarrow> http_request_t \<Rightarrow> http_response_t \<Rightarrow> error + (raop_t \<times> http_response_t \<times> event list)" where
  "http_handler_play raop request response =
     (case header_X_Apple_Session_ID request of
        None \<Rightarrow> play_error raop response
      | Some sid \<Rightarrow>
          if \<not> (request_datalen request > 0 \<and>
                 strstr (header_string request) ''x-apple-binary-plist'' \<noteq> None)
          then play_error raop response
          else (case plist_dict_get_item (request_plist request) ''uuid'' of
                  None \<Rightarrow> play_error raop response
                | Some req_uuid_node \<Rightarrow>
                    (case plist_get_string_val req_uuid_node of
                       None \<Rightarrow> Inl NullDeref
                     | Some uuid \<Rightarrow>
                         (case get_playlist_by_uuid raop uuid of
                            Inl e \<Rightarrow> Inl e
                          | Inr vid \<Rightarrow>
                              if vid \<ge> 0 then play_existing raop (nat vid) sid response
                              else (case play_insert_new raop sid uuid of
                                      Inl e \<Rightarrow> Inl e
                                    | Inr (raop1, vid1) \<Rightarrow>
                                        (case airplay_video raop1 ! vid1 of
                                           None \<Rightarrow> Inl AssertFailed
                                         | Some av \<Rightarrow>
                                             play_start_fetch raop1 vid1 av request response sid))))))"

text \<open>
  Modelled from the spec: the HTTP server (not in the sources) tags each of its
  connections with a type; \<^verbatim>\<open>httpd_set_connection_type\<close> tags the handler's connection
  and \<^verbatim>\<open>httpd_count_connection_type\<close> counts the connections of a type.
\<close>

datatype connection_type_t =
    CONNECTION_TYPE_UNKNOWN
  | CONNECTION_TYPE_RAOP
  | CONNECTION_TYPE_AIRPLAY
  | CONNECTION_TYPE_PTTH
  | CONNECTION_TYPE_HLS

type_synonym httpd_t = "connection_type_t list"

definition httpd_set_connection_type :: "httpd_t \<Rightarrow> nat \<Rightarrow> connection_type_t \<Rightarrow> httpd_t" where
  "httpd_set_connection_type httpd conn t = httpd[conn := t]"

definition httpd_count_connection_type :: "httpd_t \<Rightarrow> connection_type_t \<Rightarrow> int" where
  "httpd_count_connection_type httpd t = int (length (filter (\<lambda>x. x = t) httpd))"

definition http_handler_reverse ::
  "httpd_t \<Rightarrow> nat \<Rightarrow> http_response_t \<Rightarrow> httpd_t \<times> http_response_t" where
  "http_handler_reverse httpd conn response =
     (let httpd1 = httpd_set_connection_type httpd conn CONNECTION_TYPE_PTTH;
          type_PTTH = httpd_count_connection_type httpd1 CONNECTION_TYPE_PTTH
      in if type_PTTH = 1
         then (httpd1,
               http_response_add_header
                 (http_response_add_header
                    (http_response_init response 101 ''Switching Protocols'')
                    ''Connection'' ''Upgrade'')
                 ''Upgrade'' ''PTTH/1.0'')
         else (httpd1, response))"

definition is_advertisement :: "airplay_video_t \<Rightarrow> bool" where
  "is_advertisement av =
     (case get_duration (Some av) of
        Inl e \<Rightarrow> False
      | Inr d \<Rightarrow> d < MIN_STORED_AIRPLAY_VIDEO_DURATION_SECONDS)"

definition pruned_slot :: "airplay_video_t option \<Rightarrow> airplay_video_t option" where
  "pruned_slot x = (case x of None \<Rightarrow> None | Some av \<Rightarrow> if is_advertisement av then None else Some av)"

definition occupied :: "raop_t \<Rightarrow> nat" where
  "occupied raop = length (filter (\<lambda>x. x \<noteq> None) (airplay_video raop))"

definition new_session :: "raop_t \<Rightarrow> string \<Rightarrow> string \<Rightarrow> airplay_video_t" where
  "new_session raop sid uuid =
     (airplay_video_init (raop_port raop) (raop_lang raop))
       \<lparr>apple_session_id := Some sid, playback_uuid := Some uuid\<rparr>"

definition example_sid :: string where
  "example_sid = ''11111111-2222-3333-4444-555555555555''"

definition example_uuid :: string where
  "example_uuid = ''AAAAAAAAAAAAAAAAAAAAAAAAAAAAAAAAAAAA''"

definition play_request :: "string \<Rightarrow> string \<Rightarrow> http_request_t" where
  "play_request uuid location =
     \<lparr> header_X_Apple_Session_ID = Some example_sid,
       header_string = ''Content-Type: application/x-apple-binary-plist'',
       request_datalen = 1,
       request_plist = Some (PLIST_DICT
         [(''uuid'', PLIST_STRING uuid),
          (''Content-Location'', PLIST_STRING location),
          (''clientProcName'', PLIST_STRING ''YouTube''),
          (''Start-Position-Seconds'', PLIST_REAL 12.5)]) \<rparr>"

definition empty_registry :: raop_t where
  "empty_registry =
     \<lparr> airplay_video = replicate 10 None, current_video = - 1, raop_port = 7100, raop_lang = None \<rparr>"

definition ok_response :: http_response_t where
  "ok_response = \<lparr> status_code = 200, status_message = ''OK'', headers = [], disconnect = False \<rparr>"

definition upgrade_response :: "http_response_t \<Rightarrow> http_response_t" where
  "upgrade_response response =
     \<lparr> status_code = 101, status_message = ''Switching Protocols'',
       headers = [(''Connection'', ''Upgrade''), (''Upgrade'', ''PTTH/1.0'')],
       disconnect = disconnect response \<rparr>"

definition unfetched_zero :: "airplay_video_t \<Rightarrow> bool" where
  "unfetched_zero av = (\<forall>item \<in> set (the_store av). playlist item = None \<longrightarrow> duration item = 0)"

definition first_media_playlist_missing :: "airplay_video_t \<Rightarrow> bool" where
  "first_media_playlist_missing av =
     (case media_data_store av of
        None \<Rightarrow> True
      | Some [] \<Rightarrow> False
      | Some (item0 # rest) \<Rightarrow> playlist item0 = None)"

definition other_uuid :: string where
  "other_uuid = ''BBBBBBBBBBBBBBBBBBBBBBBBBBBBBBBBBBBB''"

definition fetching_session :: airplay_video_t where
  "fetching_session =
     (airplay_video_init 7100 None)
       \<lparr> apple_session_id := Some example_sid,
         playback_uuid := Some example_uuid,
         uri_prefix := Some ''http://client:7000/x'',
         playback_location := Some ''http://localhost:7100/master.m3u8'',
         FCUP_RequestID := 1,
         start_position_seconds := 12.5,
         resume_position_seconds := 42 \<rparr>"

definition one_session_registry :: raop_t where
  "one_session_registry =
     empty_registry\<lparr>airplay_video := (airplay_video empty_registry)[0 := Some fetching_session],
                    current_video := 0\<rparr>"

definition long_session :: "char \<Rightarrow> airplay_video_t" where
  "long_session c =
     (airplay_video_init 7100 None)
       \<lparr> playback_uuid := Some (c # ''AAAAAAAAAAAAAAAAAAAAAAAAAAAAAAAAAAA''),
         media_data_store := Some [(new_media_item ''http://client:7000/x/a.m3u8'' 0)
                                     \<lparr>playlist := Some ''#EXTM3U'', duration := 100\<rparr>],
         num_uri := 1 \<rparr>"

definition nine_session_registry :: raop_t where
  "nine_session_registry =
     empty_registry\<lparr>airplay_video := map (\<lambda>c. Some (long_session c)) ''CDEFGHIJK'' @ [None],
                    current_video := 8\<rparr>"

text \<open>
  The counting loops \<^verbatim>\<open>ptr = strstr(s, needle); while (ptr) { n++; ptr = strstr(++ptr, needle); }\<close>:
  occurrences are counted from every offset, so overlapping ones count. With an empty needle
  the C loop walks past the terminator; the callers exclude it (the model gives 0).
\<close>

function count_occurrences :: "string \<Rightarrow> nat \<Rightarrow> string \<Rightarrow> nat" where
  "count_occurrences s p needle =
     (if needle = [] then 0
      else (case strstr_at s p needle of
              None \<Rightarrow> 0
            | Some q \<Rightarrow> Suc (count_occurrences s (Suc q) needle)))"
  by pat_completeness auto
termination
proof (relation "measure (\<lambda>(s, p, needle). length s - p)", goal_cases)
  case 1
  show ?case by simp
next
  case (2 s p needle q)
  from strstr_at_bounds [OF 2(1) 2(2)] have "p \<le> q \<and> q + length needle \<le> length s" .
  moreover from 2(1) have "0 < length needle" by simp
  ultimately have "p \<le> q \<and> q < length s" by arith
  then show ?case by simp arith
qed

declare count_occurrences.simps [simp del]

text \<open>
  \<^verbatim>\<open>memcpy(dst, s + p, k)\<close> from a C string: the bytes of the string and its terminator can
  be read.
\<close>

definition memcpy_from :: "string \<Rightarrow> nat \<Rightarrow> nat \<Rightarrow> error + string" where
  "memcpy_from s p k =
     (if p + k \<le> length s + 1 then Inr (take k (drop p (s @ [CHR 0x00]))) else Inl OutOfBounds)"

text \<open>
  The second loop of \<^verbatim>\<open>adjust_master_playlist\<close>, entered with \<open>last_p\<close> at an occurrence
  of the prefix: it returns the bytes written and \<^verbatim>\<open>byte_count\<close>. With an empty prefix
  the C loop does not advance; the caller excludes it.
\<close>

function master_replace_loop ::
  "string \<Rightarrow> int \<Rightarrow> string \<Rightarrow> string \<Rightarrow> nat \<Rightarrow> nat \<Rightarrow> string \<Rightarrow> int \<Rightarrow> error + (string \<times> int)" where
  "master_replace_loop s datalen pre loc first_p last_p out byte_count =
     (if pre = [] then Inl OutOfBounds
      else (case memcpy_from s first_p (last_p - first_p) of
              Inl e \<Rightarrow> Inl e
            | Inr piece \<Rightarrow>
                (let out1 = out @ piece @ loc;
                     byte_count1 = byte_count + int (last_p - first_p) + int (length loc);
                     first_p1 = last_p + length pre
                 in (case strstr_at s first_p1 pre of
                       Some last_p1 \<Rightarrow> master_replace_loop s datalen pre loc first_p1 last_p1 out1 byte_count1
                     | None \<Rightarrow>
                         if datalen < int first_p1 then Inl OutOfBounds
                         else (case memcpy_from s first_p1 (nat (datalen - int first_p1)) of
                                 Inl e \<Rightarrow> Inl e
                               | Inr rest \<Rightarrow>
                                   Inr (out1 @ rest, byte_count1 + (datalen - int first_p1)))))))"
  by pat_completeness auto
termination
proof (relation "measure (\<lambda>(s, datalen, pre, loc, first_p, last_p, out, bc). length s - last_p)", goal_cases)
  case 1
  show ?case by simp
next
  case (2 s datalen pre loc first_p last_p out byte_count piece out1 byte_count1 first_p1 last_p1)
  from strstr_at_bounds [OF 2(1) 2(6)] 2(5) have "last_p + length pre \<le> last_p1 \<and> last_p1 + length pre \<le> length s"
    by simp
  moreover from 2(1) have "0 < length pre" by simp
  ultimately have "last_p < last_p1 \<and> last_p1 < length s" by arith
  then show ?case by simp arith
qed

declare master_replace_loop.simps [simp del]

definition adjust_master_playlist :: "string \<Rightarrow> int \<Rightarrow> string \<Rightarrow> string \<Rightarrow> error + string" where
  "adjust_master_playlist fcup_response_data fcup_response_datalen pre uri_local_prefix =
     (if pre = [] then Inl OutOfBounds
      else (let counter = count_occurrences fcup_response_data 0 pre;
                new_len = (int (length uri_local_prefix) - int (length pre)) * int counter
                            + fcup_response_datalen
            in if new_len < 0 then Inl AllocFailed
               else (case (case strstr fcup_response_data pre of
                             None \<Rightarrow> Inr ([], 0)
                           | Some last_p \<Rightarrow>
                               master_replace_loop fcup_response_data fcup_response_datalen pre
                                 uri_local_prefix 0 last_p [] 0) of
                       Inl e \<Rightarrow> Inl e
                     | Inr (new_master, byte_count) \<Rightarrow>
                         if byte_count = new_len then Inr new_master else Inl AssertFailed)))"

definition master_without_prefix :: string where
  "master_without_prefix =
     ''#EXTM3U\<newline>#EXT-X-STREAM-INF:BANDWIDTH=1280000\<newline>video/index.m3u8\<newline>''"

definition master_with_prefix :: string where
  "master_with_prefix =
     ''#EXTM3U\<newline>#EXT-X-STREAM-INF:BANDWIDTH=1280000\<newline>http://client:7000/x/v/index.m3u8\<newline>''"

text \<open>In the example texts a double quote is written \<open>~\<close>.\<close>

definition dq :: char where
  "dq = CHR 0x22"

definition quotes :: "string \<Rightarrow> string" where
  "quotes s = map (\<lambda>c. if c = CHR ''~'' then dq else c) s"

text \<open>
  \<^verbatim>\<open>ptr = strstr(ptr, key); begin = strchr(ptr, '"'); begin++; ptr = strchr(begin, '"');\<close>
  gives the text between the quotes and the offset of the closing quote. A search that
  finds nothing gives a null pointer, which the code uses unchecked.
\<close>

definition quoted_value :: "string \<Rightarrow> nat \<Rightarrow> string \<Rightarrow> error + (string \<times> nat)" where
  "quoted_value s p key =
     (case strstr_at s p key of
        None \<Rightarrow> Inl NullDeref
      | Some k \<Rightarrow>
          (case strchr_at s k dq of
             None \<Rightarrow> Inl NullDeref
           | Some b \<Rightarrow>
               (case strchr_at s (b + 1) dq of
                  None \<Rightarrow> Inl NullDeref
                | Some e \<Rightarrow> Inr (take (e - (b + 1)) (drop (b + 1) s), e))))"

definition condensed_header :: "string \<Rightarrow> nat \<Rightarrow> error + (string \<times> string \<times> string)" where
  "condensed_header s p =
     (case quoted_value s p ''BASE-URI='' of
        Inl e \<Rightarrow> Inl e
      | Inr (base_uri, p1) \<Rightarrow>
          (case quoted_value s p1 ''PARAMS='' of
             Inl e \<Rightarrow> Inl e
           | Inr (params, p2) \<Rightarrow>
               (case quoted_value s p2 ''PREFIX='' of
                  Inl e \<Rightarrow> Inl e
                | Inr (pre, p3) \<Rightarrow> Inr (base_uri, params, pre))))"

lemma strchr_bound: "strchr s c = Some k \<Longrightarrow> k < length s"
  by (induction s arbitrary: k) (auto split: if_splits)

text \<open>The comma-separated tokens of a non-empty PARAMS value (\<open>params_start\<close>, \<open>params_size\<close>).\<close>

function params_tokens :: "string \<Rightarrow> string list" where
  "params_tokens s =
     (case strchr s (CHR '','') of
        None \<Rightarrow> [s]
      | Some k \<Rightarrow> take k s # params_tokens (drop (Suc k) s))"
  by pat_completeness auto
termination
  by (relation "measure length") (auto dest: strchr_bound)

declare params_tokens.simps [simp del]

text \<open>
  The inner loop of a chunk, over the parameters still to insert: \<open>/param/\<close> is written,
  then the text up to the next \<open>/\<close> (up to the next \<^verbatim>\<open>#EXT\<close> for the last parameter),
  and the \<open>/\<close> is skipped.
\<close>

fun insert_params ::
  "string \<Rightarrow> string list \<Rightarrow> nat \<Rightarrow> nat \<Rightarrow> string \<Rightarrow> int \<Rightarrow> error + (nat \<times> string \<times> int)" where
  "insert_params s [] end_p old_pos out byte_count = Inr (old_pos, out, byte_count)"
| "insert_params s (param # rest) end_p old_pos out byte_count =
     (case (if rest \<noteq> [] then strchr_at s end_p (CHR ''/'') else strstr_at s end_p ''#EXT'') of
        None \<Rightarrow> Inl NullDeref
      | Some e \<Rightarrow>
          if e < old_pos then Inl OutOfBounds
          else (case memcpy_from s old_pos (e - old_pos) of
                  Inl err \<Rightarrow> Inl err
                | Inr piece \<Rightarrow>
                    insert_params s rest (e + 1)
                      (old_pos + (e - old_pos) + (if rest \<noteq> [] then 1 else 0))
                      (out @ ''/'' @ param @ ''/'' @ piece)
                      (byte_count + 1 + int (length param) + 1 + int (e - old_pos))))"

text \<open>
  One pass of the \<^verbatim>\<open>while (ptr)\<close> loop: the chunk at \<open>ptr\<close>. It gives the next
  \<open>ptr\<close> (none: the loop ends), \<open>old_pos\<close>, the output so far and \<^verbatim>\<open>byte_count\<close>.
\<close>

definition expand_chunk ::
  "string \<Rightarrow> string \<Rightarrow> string list \<Rightarrow> string \<Rightarrow> nat \<Rightarrow> nat \<Rightarrow> string \<Rightarrow> int \<Rightarrow>
     error + (nat option \<times> nat \<times> string \<times> int)" where
  "expand_chunk s base_uri params pre ptr old_pos out byte_count =
     (case strstr_at s ptr pre of
        None \<Rightarrow> Inl NullDeref
      | Some start \<Rightarrow>
          (case memcpy_from s old_pos (start - ptr) of
             Inl e \<Rightarrow> Inl e
           | Inr piece \<Rightarrow>
               (let old_pos1 = old_pos + (start - ptr) + length pre
                in if length s < old_pos1 then Inl OutOfBounds
                   else (case insert_params s params old_pos1 old_pos1
                                 (out @ piece @ base_uri)
                                 (byte_count + int (start - ptr) + int (length base_uri)) of
                           Inl e \<Rightarrow> Inl e
                         | Inr (old_pos2, out2, byte_count2) \<Rightarrow>
                             Inr (strstr_at s old_pos1 ''#EXTINF:'', old_pos2, out2, byte_count2)))))"

text \<open>
  The \<^verbatim>\<open>while (ptr)\<close> loop. It need not end (with empty BASE-URI, PARAMS and PREFIX
  no pass changes anything), so it is a partial function: \<open>None\<close> is a run without end.
\<close>

partial_function (option) expand_chunks ::
  "string \<Rightarrow> string \<Rightarrow> string list \<Rightarrow> string \<Rightarrow> nat \<Rightarrow> nat \<Rightarrow> string \<Rightarrow> int \<Rightarrow>
     (error + (nat \<times> string \<times> int)) option" where
  "expand_chunks s base_uri params pre ptr old_pos out byte_count =
     (case expand_chunk s base_uri params pre ptr old_pos out byte_count of
        Inl e \<Rightarrow> Some (Inl e)
      | Inr (next_ptr, old_pos1, out1, byte_count1) \<Rightarrow>
          (case next_ptr of
             None \<Rightarrow> Some (Inr (old_pos1, out1, byte_count1))
           | Some ptr1 \<Rightarrow> expand_chunks s base_uri params pre ptr1 old_pos1 out1 byte_count1))"

definition adjust_yt_condensed_playlist :: "string \<Rightarrow> (error + string) option" where
  "adjust_yt_condensed_playlist media_playlist =
     (case strstr media_playlist ''#EXTM3U\<newline>'' of
        None \<Rightarrow> Some (Inl NullDeref)
      | Some q \<Rightarrow>
          if \<not> strncmp_eq (drop (q + 8) media_playlist) ''#YT-EXT-CONDENSED-URL'' 21
          then Some (Inr media_playlist)
          else (case condensed_header media_playlist (q + 8) of
                  Inl e \<Rightarrow> Some (Inl e)
                | Inr (base_uri, params, pre) \<Rightarrow>
                    (let tokens = (if params = [] then [] else params_tokens params);
                         cnt = count_occurrences media_playlist 0 ''#EXTINF'';
                         new_len = int (length media_playlist)
                                     + int cnt * (int (length base_uri) + int (length params))
                     in (case strstr media_playlist ''#EXTINF:'' of
                           None \<Rightarrow> Some (Inl NullDeref)
                         | Some ptr \<Rightarrow>
                             (case expand_chunks media_playlist base_uri tokens pre ptr ptr
                                     (take ptr media_playlist) (int ptr) of
                                None \<Rightarrow> None
                              | Some (Inl e) \<Rightarrow> Some (Inl e)
                              | Some (Inr (old_pos, out, byte_count)) \<Rightarrow>
                                  if length media_playlist < old_pos then Some (Inl OutOfBounds)
                                  else if byte_count + int (length media_playlist - old_pos) = new_len
                                       then Some (Inr (out @ drop old_pos media_playlist))
                                       else Some (Inl AssertFailed))))))"

definition condensed_playlist :: "string \<Rightarrow> string" where
  "condensed_playlist pre = quotes
     (''#EXTM3U\<newline>'' @
      ''#YT-EXT-CONDENSED-URL:BASE-URI=~http://h/v~,PARAMS=~sq,dur~,PREFIX=~'' @ pre @ ''~\<newline>'' @
      ''#EXT-X-VERSION:3\<newline>'' @
      ''#EXTINF:5.0,\<newline>'' @ pre @ ''1/5000\<newline>'' @
      ''#EXTINF:4.0,\<newline>'' @ pre @ ''2/4000\<newline>'' @
      ''#EXT-X-ENDLIST\<newline>'')"

definition plain_playlist :: string where
  "plain_playlist = ''#EXTM3U\<newline>#EXT-X-VERSION:3\<newline>#EXTINF:5.0,\<newline>seg1.ts\<newline>#EXT-X-ENDLIST\<newline>''"

subsection \<open>Language selection in the master playlist\<close>

text \<open>
  \<^verbatim>\<open>language_t\<close>: a slice of the master playlist (offset and length), with the fields of
  a language entry. The fields are \<^verbatim>\<open>start\<close>, \<^verbatim>\<open>len\<close>, \<^verbatim>\<open>is_default\<close>,
  \<^verbatim>\<open>code\<close> and \<^verbatim>\<open>name\<close> in the source.
\<close>

record language_t =
  lang_start :: nat
  lang_len :: nat
  is_default :: bool
  lang_code :: string
  lang_name :: "string option"

lemma strstr_prefix: "strstr s needle = Some k \<Longrightarrow> is_prefix needle (drop k s)"
proof (induction s arbitrary: k)
  case Nil
  then show ?case by (simp split: if_splits)
next
  case (Cons c cs)
  then show ?case by (cases "is_prefix needle (c # cs)") auto
qed

lemma triple_search_progress:
  assumes a: "strstr_at s p ''#EXT-X-MEDIA:URI='' = Some a"
    and b: "strstr_at s a ''LANGUAGE='' = Some b"
    and c: "strstr_at s b ''YT-EXT-AUDIO-CONTENT-ID='' = Some c"
  shows "p < c \<and> c < length s"
proof -
  from strstr_at_bounds [OF _ a] have pa: "p \<le> a" by simp
  from strstr_at_bounds [OF _ b] have ab: "a \<le> b" by simp
  from strstr_at_bounds [OF _ c] have bc: "b \<le> c" and cl: "c < length s" by simp_all
  have "a \<noteq> b"
  proof
    assume e: "a = b"
    from a obtain k where "strstr (drop p s) ''#EXT-X-MEDIA:URI='' = Some k" "a = p + k"
      by (auto simp: strstr_at_def)
    from strstr_prefix [OF this(1)] this(2)
    have 1: "is_prefix ''#EXT-X-MEDIA:URI='' (drop a s)" by (simp add: add.commute)
    from b obtain j where "strstr (drop a s) ''LANGUAGE='' = Some j" "b = a + j"
      by (auto simp: strstr_at_def)
    with e have "strstr (drop a s) ''LANGUAGE='' = Some 0" by simp
    from strstr_prefix [OF this] have 2: "is_prefix ''LANGUAGE='' (drop a s)" by simp
    from 1 2 show False by (cases "drop a s") auto
  qed
  with pa ab bc cl show ?thesis by simp
qed

text \<open>The first loop of \<^verbatim>\<open>master_playlist_process_language\<close>: the number of language entries.\<close>

function count_language_entries :: "string \<Rightarrow> nat \<Rightarrow> nat" where
  "count_language_entries s p =
     (case strstr_at s p ''#EXT-X-MEDIA:URI='' of
        None \<Rightarrow> 0
      | Some a \<Rightarrow>
          (case strstr_at s a ''LANGUAGE='' of
             None \<Rightarrow> 0
           | Some b \<Rightarrow>
               (case strstr_at s b ''YT-EXT-AUDIO-CONTENT-ID='' of
                  None \<Rightarrow> 0
                | Some c \<Rightarrow> Suc (count_language_entries s c))))"
  by pat_completeness auto
termination
proof (relation "measure (\<lambda>(s, p). length s - p)", goal_cases)
  case 1
  show ?case by simp
next
  case (2 s p a b c)
  from triple_search_progress [OF 2(1) 2(2) 2(3)] show ?case by simp arith
qed

declare count_language_entries.simps [simp del]

text \<open>
  One pass of the second loop, from \<open>ptr\<close>: the entry that starts at the next
  \<^verbatim>\<open>#EXT-X-MEDIA\<close>, and the offset of the newline that ends it. Every \<^verbatim>\<open>break\<close>
  of the loop leaves \<^verbatim>\<open>count1 < count\<close>, so the assertion after the loop fails. The
  code is copied into \<^verbatim>\<open>char code[6]\<close>.
\<close>

definition parse_language :: "string \<Rightarrow> nat \<Rightarrow> error + (language_t \<times> nat)" where
  "parse_language s ptr =
     (case strstr_at s ptr ''#EXT-X-MEDIA'' of
        None \<Rightarrow> Inl AssertFailed
      | Some st \<Rightarrow>
      (case strstr_at s st ''DEFAULT='' of
        None \<Rightarrow> Inl AssertFailed
      | Some d \<Rightarrow>
      (case strstr_at s (d + 8) ''NAME='' of
        None \<Rightarrow> Inl AssertFailed
      | Some n \<Rightarrow>
      if length s < n + 6 then Inl OutOfBounds
      else
      (case strchr_at s (n + 6) dq of
        None \<Rightarrow> Inl AssertFailed
      | Some name_end \<Rightarrow>
      (case strstr_at s (n + 6) ''LANGUAGE='' of
        None \<Rightarrow> Inl AssertFailed
      | Some l \<Rightarrow>
      (case strchr_at s l dq of
        None \<Rightarrow> Inl AssertFailed
      | Some q1 \<Rightarrow>
      (case strchr_at s (q1 + 1) dq of
        None \<Rightarrow> Inl AssertFailed
      | Some q2 \<Rightarrow>
      if 5 < q2 - (q1 + 1) then Inl OutOfBounds
      else
      (case strchr_at s (q1 + 1) (CHR 0x0A) of
        None \<Rightarrow> Inl AssertFailed
      | Some nl \<Rightarrow>
          Inr (\<lparr> lang_start = st, lang_len = nl + 1 - st,
                 is_default = strncmp_eq (drop (d + 8) s) ''YES'' 3,
                 lang_code = take (q2 - (q1 + 1)) (drop (q1 + 1) s),
                 lang_name = Some (take (name_end - (n + 6)) (drop (n + 6) s)) \<rparr>,
               nl)))))))))"

fun parse_languages :: "string \<Rightarrow> nat \<Rightarrow> nat \<Rightarrow> error + (language_t list \<times> nat)" where
  "parse_languages s 0 ptr = Inr ([], ptr)"
| "parse_languages s (Suc n) ptr =
     (case parse_language s ptr of
        Inl e \<Rightarrow> Inl e
      | Inr (l, ptr1) \<Rightarrow>
          (case parse_languages s n ptr1 of
             Inl e \<Rightarrow> Inl e
           | Inr (ls, ptr2) \<Rightarrow> Inr (l # ls, ptr2)))"

text \<open>
  The structure check at the end: entry \<open>i\<close> has the code of entry \<open>i - language_count\<close>.
\<close>

definition codes_repeat :: "language_t list \<Rightarrow> nat \<Rightarrow> nat \<Rightarrow> bool" where
  "codes_repeat languages cnt language_count =
     list_all (\<lambda>i. i \<le> language_count \<or>
                   lang_code (languages ! i) = lang_code (languages ! (i - language_count)))
       [1..<Suc cnt]"

text \<open>
  \<^verbatim>\<open>master_playlist_process_language\<close>: no entry gives the null pointer; otherwise the
  slices (slice 0 before the entries, then the entries, then the rest) and
  \<open>language_count\<close>. The division \<^verbatim>\<open>count/copies\<close> is by zero for a single entry.
\<close>

definition master_playlist_process_language ::
  "string \<Rightarrow> error + (language_t list \<times> nat) option" where
  "master_playlist_process_language s =
     (let cnt = count_language_entries s 0
      in if cnt = 0 then Inr None
         else (case parse_languages s cnt 0 of
                 Inl e \<Rightarrow> Inl e
               | Inr (entries, ptr) \<Rightarrow>
                   (let first_slice = \<lparr> lang_start = 0, lang_len = lang_start (hd entries),
                                        is_default = False, lang_code = [], lang_name = None \<rparr>;
                        last_slice = \<lparr> lang_start = ptr + 1, lang_len = length s - (ptr + 1),
                                       is_default = False, lang_code = [], lang_name = None \<rparr>;
                        languages = first_slice # entries @ [last_slice];
                        total = lang_len first_slice + sum_list (map lang_len entries)
                                  + lang_len last_slice;
                        copies = length (filter (\<lambda>i. lang_code (languages ! i) = lang_code (languages ! 1))
                                           [1..<cnt])
                    in if total \<noteq> length s then Inl AssertFailed
                       else if copies = 0 then Inl DivByZero
                       else if cnt \<noteq> (cnt div copies) * copies then Inl AssertFailed
                       else if \<not> codes_repeat languages cnt (cnt div copies) then Inl AssertFailed
                       else Inr (Some (languages, cnt div copies)))))"

text \<open>The loop that sets \<^verbatim>\<open>i_default\<close>, over the entries \<open>is\<close>.\<close>

fun default_loop :: "string option \<Rightarrow> language_t list \<Rightarrow> nat list \<Rightarrow> int \<Rightarrow> int" where
  "default_loop nm languages [] i_default = i_default"
| "default_loop nm languages (i # rest) i_default =
     default_loop nm languages rest
       (case nm of
          Some x \<Rightarrow> if lang_name (languages ! i) = Some x then int i else i_default
        | None \<Rightarrow> if is_default (languages ! i) then int i else i_default)"

text \<open>The inner loop of the preference search: the first entry whose code agrees with \<^verbatim>\<open>ptrc\<close> on two characters.\<close>

fun code_loop :: "string \<Rightarrow> language_t list \<Rightarrow> nat list \<Rightarrow> nat option" where
  "code_loop ptrc languages [] = None"
| "code_loop ptrc languages (i # rest) =
     (if strncmp_eq (lang_code (languages ! i)) ptrc 2 then Some i
      else code_loop ptrc languages rest)"

text \<open>The \<^verbatim>\<open>while (ptrc)\<close> loop over the preference list.\<close>

function preference_loop :: "string \<Rightarrow> language_t list \<Rightarrow> nat \<Rightarrow> nat option" where
  "preference_loop ptrc languages language_count =
     (case code_loop ptrc languages [1..<Suc language_count] of
        Some i \<Rightarrow> Some i
      | None \<Rightarrow>
          (case strchr ptrc (CHR '':'') of
             None \<Rightarrow> None
           | Some k \<Rightarrow>
               if length (drop (Suc k) ptrc) < 2 then None
               else preference_loop (drop (Suc k) ptrc) languages language_count))"
  by pat_completeness auto
termination
  by (relation "measure (\<lambda>(ptrc, languages, language_count). length ptrc)")
     (auto dest: strchr_bound)

declare preference_loop.simps [simp del]

text \<open>
  The choice of \<^verbatim>\<open>select_master_playlist_language\<close>: \<^verbatim>\<open>i_default\<close> is asserted
  first; then the preference list decides, and \<^verbatim>\<open>i_default\<close> only when it selects
  nothing.
\<close>

definition choose_language ::
  "string option \<Rightarrow> string option \<Rightarrow> language_t list \<Rightarrow> nat \<Rightarrow> error + nat" where
  "choose_language nm lg languages language_count =
     (let i_default = default_loop nm languages [1..<Suc language_count] (- 1)
      in if \<not> i_default \<ge> 0 then Inl AssertFailed
         else (case (case lg of
                       None \<Rightarrow> None
                     | Some ptrc \<Rightarrow> preference_loop ptrc languages language_count) of
                 Some i \<Rightarrow> Inr i
               | None \<Rightarrow> Inr (nat i_default)))"

text \<open>The new master playlist: the slices without a code and those of the chosen code.\<close>

definition emit_slices :: "string \<Rightarrow> language_t list \<Rightarrow> string \<Rightarrow> string" where
  "emit_slices s languages cd =
     concat (map (\<lambda>l. take (lang_len l) (drop (lang_start l) s))
               (filter (\<lambda>l. lang_code l = [] \<or> lang_code l = cd) languages))"

text \<open>
  \<^verbatim>\<open>name != language_name\<close> compares the address of a freshly allocated name with the
  stored one, so the stored name and code are always rewritten. The buffer for the new code
  has the size of the name.
\<close>

definition select_master_playlist_language ::
  "airplay_video_t \<Rightarrow> string \<Rightarrow> error + (string \<times> airplay_video_t)" where
  "select_master_playlist_language av s =
     (case master_playlist_process_language s of
        Inl e \<Rightarrow> Inl e
      | Inr None \<Rightarrow> Inr (s, av)
      | Inr (Some (languages, language_count)) \<Rightarrow>
          (case choose_language (language_name av) (lang av) languages language_count of
             Inl e \<Rightarrow> Inl e
           | Inr i \<Rightarrow>
               (case lang_name (languages ! i) of
                  None \<Rightarrow> Inl NullDeref
                | Some nm \<Rightarrow>
                    (let cd = lang_code (languages ! i)
                     in (case set_language_name av nm (length nm) of
                           Inl e \<Rightarrow> Inl e
                         | Inr av1 \<Rightarrow>
                             if length nm + 1 < length cd then Inl OutOfBounds
                             else (case set_language_code av1 cd (length cd) of
                                     Inl e \<Rightarrow> Inl e
                                   | Inr av2 \<Rightarrow> Inr (emit_slices s languages cd, av2)))))))"

definition two_language_master :: string where
  "two_language_master = quotes
     (''#EXTM3U\<newline>'' @
      ''#EXT-X-MEDIA:URI=~http://client:7000/x/en.m3u8~,DEFAULT=YES,NAME=~English~,LANGUAGE=~en~,YT-EXT-AUDIO-CONTENT-ID=~en.1~\<newline>'' @
      ''#EXT-X-MEDIA:URI=~http://client:7000/x/fr.m3u8~,DEFAULT=NO,NAME=~French~,LANGUAGE=~fr~,YT-EXT-AUDIO-CONTENT-ID=~fr.1~\<newline>'' @
      ''#EXT-X-STREAM-INF:BANDWIDTH=1280000\<newline>http://client:7000/x/v.m3u8\<newline>'')"

text \<open>
  The amended priority order, in the words of the specification. The preference list is
  read token by token: the text from the start and from after each colon, as long as two
  characters are left. A token selects the first language, in list order, whose code has
  the same first two characters.
\<close>

function preference_suffixes :: "string \<Rightarrow> string list" where
  "preference_suffixes l =
     l # (case strchr l (CHR '':'') of
            None \<Rightarrow> []
          | Some k \<Rightarrow>
              if length (drop (Suc k) l) < 2 then [] else preference_suffixes (drop (Suc k) l))"
  by pat_completeness auto
termination
  by (relation "measure length") (auto dest: strchr_bound)

declare preference_suffixes.simps [simp del]

definition language_like :: "string \<Rightarrow> language_t list \<Rightarrow> nat \<Rightarrow> nat option" where
  "language_like t languages n =
     List.find (\<lambda>i. take 2 (lang_code (languages ! i)) = take 2 t) [1..<Suc n]"

definition preferred_language :: "string \<Rightarrow> language_t list \<Rightarrow> nat \<Rightarrow> nat option" where
  "preferred_language l languages n =
     (case List.find (\<lambda>t. language_like t languages n \<noteq> None) (preference_suffixes l) of
        None \<Rightarrow> None
      | Some t \<Rightarrow> language_like t languages n)"

definition fallback_language :: "string option \<Rightarrow> language_t list \<Rightarrow> nat \<Rightarrow> nat option" where
  "fallback_language nm languages n =
     (case nm of
        Some x \<Rightarrow> List.find (\<lambda>i. lang_name (languages ! i) = Some x) (rev [1..<Suc n])
      | None \<Rightarrow> List.find (\<lambda>i. is_default (languages ! i)) (rev [1..<Suc n]))"

definition chosen_language ::
  "string option \<Rightarrow> string option \<Rightarrow> language_t list \<Rightarrow> nat \<Rightarrow> nat option" where
  "chosen_language nm lg languages n =
     (case (case lg of None \<Rightarrow> None | Some l \<Rightarrow> preferred_language l languages n) of
        Some i \<Rightarrow> Some i
      | None \<Rightarrow> fallback_language nm languages n)"

text \<open>The slices of \<open>two_language_master\<close>, and the playlist with its French entry only.\<close>

definition two_language_slices :: "language_t list" where
  "two_language_slices =
     [\<lparr>lang_start = 0, lang_len = 8, is_default = False, lang_code = [], lang_name = None\<rparr>,
      \<lparr>lang_start = 8, lang_len = 120, is_default = True, lang_code = ''en'',
         lang_name = Some ''English''\<rparr>,
      \<lparr>lang_start = 128, lang_len = 118, is_default = False, lang_code = ''fr'',
         lang_name = Some ''French''\<rparr>,
      \<lparr>lang_start = 246, lang_len = 64, is_default = False, lang_code = [], lang_name = None\<rparr>]"

definition french_master :: string where
  "french_master = quotes
     (''#EXTM3U\<newline>'' @
      ''#EXT-X-MEDIA:URI=~http://client:7000/x/fr.m3u8~,DEFAULT=NO,NAME=~French~,LANGUAGE=~fr~,YT-EXT-AUDIO-CONTENT-ID=~fr.1~\<newline>'' @
      ''#EXT-X-STREAM-INF:BANDWIDTH=1280000\<newline>http://client:7000/x/v.m3u8\<newline>'')"

subsection \<open>Advertisements in the table\<close>

text \<open>
  The duration of a session in the words of the specification: the duration stored with its
  first media playlist, 0 as long as the session has no store. An advertisement is a session
  of less than 90 seconds, and pruning empties the slots of the advertisements.
\<close>

definition stored_duration :: "airplay_video_t \<Rightarrow> real" where
  "stored_duration av =
     (case media_data_store av of
        None \<Rightarrow> 0
      | Some store \<Rightarrow> if store = [] then 0 else duration (store ! 0))"

definition advertisement :: "airplay_video_t \<Rightarrow> bool" where
  "advertisement av = (stored_duration av < 90)"

definition pruned_registry :: "airplay_video_t option list \<Rightarrow> airplay_video_t option list" where
  "pruned_registry slots =
     map (\<lambda>x. case x of None \<Rightarrow> None | Some av \<Rightarrow> if advertisement av then None else Some av) slots"

text \<open>No session of the table has a store allocated with no item.\<close>

definition stores_nonempty :: "raop_t \<Rightarrow> bool" where
  "stores_nonempty raop = list_all (\<lambda>x. case x of None \<Rightarrow> True | Some av \<Rightarrow> media_data_store av \<noteq> Some []) (airplay_video raop)"

text \<open>
  A table with nine sessions, the one of slot 1 still without a media playlist, and slot 9
  empty.
\<close>

definition advertisement_registry :: raop_t where
  "advertisement_registry =
     empty_registry\<lparr>airplay_video :=
                      Some (long_session (CHR ''C'')) # Some fetching_session #
                      map (\<lambda>c. Some (long_session c)) ''DEFGHIJ'' @ [None],
                    current_video := 1\<rparr>"

subsection \<open>The handler of POST /action\<close>

definition get_apple_session_id :: "airplay_video_t option \<Rightarrow> string option" where
  "get_apple_session_id a = (case a of None \<Rightarrow> None | Some av \<Rightarrow> apple_session_id av)"

definition get_uri_prefix :: "airplay_video_t \<Rightarrow> string option" where
  "get_uri_prefix av = uri_prefix av"

definition get_next_media_uri_id :: "airplay_video_t \<Rightarrow> int" where
  "get_next_media_uri_id av = next_uri av"

definition get_num_media_uri :: "airplay_video_t \<Rightarrow> int" where
  "get_num_media_uri av = num_uri av"

definition store_master_playlist :: "airplay_video_t \<Rightarrow> string \<Rightarrow> airplay_video_t" where
  "store_master_playlist av new_master = av\<lparr>master_playlist := Some new_master\<rparr>"

text \<open>\<^verbatim>\<open>get_media_uri_by_num\<close>: the URI of item \<open>n\<close>, null outside the table.\<close>

definition get_media_uri_by_num :: "airplay_video_t \<Rightarrow> int \<Rightarrow> error + string option" where
  "get_media_uri_by_num av n =
     (if n \<ge> 0 \<and> n < num_uri av
      then (case media_data_store av of
              None \<Rightarrow> Inl NullDeref
            | Some store \<Rightarrow>
                if length store \<le> nat n then Inl OutOfBounds else Inr (Some (uri (store ! nat n))))
      else Inr None)"

text \<open>
  \<^verbatim>\<open>analyze_media_playlist\<close>, from the tag \<^verbatim>\<open>#EXTINF:\<close> at offset \<open>ptr\<close>. The number
  after the tag is read by \<^verbatim>\<open>strtof\<close> of the C library, a parameter here: it gives the
  value and the number of characters read. The durations are added in the reals. The result
  is the count, the duration and the offset \<^verbatim>\<open>end\<close> after the last number.
\<close>

function analyze_loop ::
  "(string \<Rightarrow> real \<times> nat) \<Rightarrow> string \<Rightarrow> nat \<Rightarrow> int \<Rightarrow> real \<Rightarrow> int \<times> real \<times> nat" where
  "analyze_loop strtof s ptr cnt dur =
     (let (next_val, used) = strtof (drop (ptr + 8) s);
          end_p = ptr + 8 + min used (length s - (ptr + 8))
      in (case strstr_at s end_p ''#EXTINF:'' of
            None \<Rightarrow> (cnt + 1, dur + next_val, end_p)
          | Some ptr1 \<Rightarrow> analyze_loop strtof s ptr1 (cnt + 1) (dur + next_val)))"
  by pat_completeness auto
termination
proof (relation "measure (\<lambda>(strtof, s, ptr, cnt, dur). length s - ptr)", goal_cases)
  case 1
  show ?case by simp
next
  case (2 strtof s ptr cnt dur x next_val used end_p ptr1)
  from strstr_at_bounds [OF _ 2(4)] have "end_p \<le> ptr1 \<and> ptr1 + 8 \<le> length s" by simp
  with 2(3) have "ptr < ptr1 \<and> ptr1 < length s" by simp
  then show ?case by simp arith
qed

declare analyze_loop.simps [simp del]

definition analyze_media_playlist ::
  "(string \<Rightarrow> real \<times> nat) \<Rightarrow> string \<Rightarrow> int \<times> real \<times> bool" where
  "analyze_media_playlist strtof pl =
     (case strstr pl ''#EXTINF:'' of
        None \<Rightarrow> (0, 0, False)
      | Some ptr \<Rightarrow>
          (let (cnt, dur, end_p) = analyze_loop strtof pl ptr 0 0
           in (cnt, dur, strstr_at pl end_p ''#EXT-X-ENDLIST'' \<noteq> None)))"

text \<open>
  \<^verbatim>\<open>create_media_uri_table\<close>, from the occurrence of the prefix at offset \<open>ptr\<close>: the
  URIs from each occurrence to the end of the next \<^verbatim>\<open>m3u8\<close>. The code walks the
  occurrences twice, to count them and to copy them; it gives no table when an occurrence is
  followed by no \<^verbatim>\<open>m3u8\<close>. \<^verbatim>\<open>end += sizeof("m3u8")\<close> steps over the character after
  \<^verbatim>\<open>m3u8\<close>, past the terminator when the text ends with \<^verbatim>\<open>m3u8\<close>.
\<close>

function uri_table_loop :: "string \<Rightarrow> string \<Rightarrow> nat \<Rightarrow> error + string list option" where
  "uri_table_loop s pre ptr =
     (case strstr_at s ptr ''m3u8'' of
        None \<Rightarrow> Inr None
      | Some e \<Rightarrow>
          if length s < e + 5 then Inl OutOfBounds
          else (case strstr_at s (e + 5) pre of
                  None \<Rightarrow> Inr (Some [take (e + 4 - ptr) (drop ptr s)])
                | Some ptr1 \<Rightarrow>
                    (case uri_table_loop s pre ptr1 of
                       Inl err \<Rightarrow> Inl err
                     | Inr None \<Rightarrow> Inr None
                     | Inr (Some uris) \<Rightarrow> Inr (Some (take (e + 4 - ptr) (drop ptr s) # uris)))))"
  by pat_completeness auto
termination
proof (relation "measure (\<lambda>(s, pre, ptr). length s - ptr)", goal_cases)
  case 1
  show ?case by simp
next
  case (2 s pre ptr e ptr1)
  from strstr_at_bounds [OF _ 2(1)] have "ptr \<le> e \<and> e + 4 \<le> length s" by simp
  moreover from 2(3) have "e + 5 \<le> ptr1" by (auto simp: strstr_at_def)
  ultimately have "ptr < ptr1 \<and> ptr < length s" by simp
  then show ?case by simp arith
qed

declare uri_table_loop.simps [simp del]

text \<open>The table and \<^verbatim>\<open>num_uri\<close>, which stay null and 0 when the code returns early.\<close>

definition create_media_uri_table :: "string option \<Rightarrow> string \<Rightarrow> error + (string list \<times> nat)" where
  "create_media_uri_table url_prefix master_playlist_data =
     (case url_prefix of
        None \<Rightarrow> Inl NullDeref
      | Some pre \<Rightarrow>
          (case strstr master_playlist_data pre of
             None \<Rightarrow> Inr ([], 0)
           | Some ptr \<Rightarrow>
               (case uri_table_loop master_playlist_data pre ptr of
                  Inl err \<Rightarrow> Inl err
                | Inr None \<Rightarrow> Inr ([], 0)
                | Inr (Some uris) \<Rightarrow> Inr (uris, length uris))))"

text \<open>
  Modelled from the spec: the type tests and the data accessor of the property-list codec
  (not in the sources); the tests are false on a null node.
\<close>

definition PLIST_IS_STRING :: "plist_t option \<Rightarrow> bool" where
  "PLIST_IS_STRING node = (case node of Some (PLIST_STRING x) \<Rightarrow> True | _ \<Rightarrow> False)"

definition PLIST_IS_DICT :: "plist_t option \<Rightarrow> bool" where
  "PLIST_IS_DICT node = (case node of Some (PLIST_DICT kvs) \<Rightarrow> True | _ \<Rightarrow> False)"

definition PLIST_IS_DATA :: "plist_t option \<Rightarrow> bool" where
  "PLIST_IS_DATA node = (case node of Some (PLIST_DATA d) \<Rightarrow> True | _ \<Rightarrow> False)"

definition plist_get_data_val :: "plist_t \<Rightarrow> string option" where
  "plist_get_data_val node = (case node of PLIST_DATA d \<Rightarrow> Some d | _ \<Rightarrow> None)"

definition action_error ::
  "raop_t \<Rightarrow> http_response_t \<Rightarrow> error + (raop_t \<times> http_response_t \<times> event list)" where
  "action_error raop response = Inr (raop, http_response_init response 400 ''Bad Request'', [])"

text \<open>
  Lines 657 to 673: the response holds the master playlist. The language is selected, the
  table of media URIs is made, the prefixes are rewritten, and the session gets the new
  master playlist and a new store.
\<close>

definition action_master_playlist :: "airplay_video_t \<Rightarrow> string \<Rightarrow> error + airplay_video_t" where
  "action_master_playlist av pl =
     (let pre = get_uri_prefix av;
          uri_local_prefix = get_uri_local_prefix av
      in (case select_master_playlist_language av pl of
            Inl e \<Rightarrow> Inl e
          | Inr (pl1, av1) \<Rightarrow>
          (case create_media_uri_table pre pl1 of
            Inl e \<Rightarrow> Inl e
          | Inr (uri_list, n) \<Rightarrow>
          (case pre of
            None \<Rightarrow> Inl NullDeref
          | Some client_prefix \<Rightarrow>
          (case adjust_master_playlist pl1 (int (length pl1)) client_prefix uri_local_prefix of
            Inl e \<Rightarrow> Inl e
          | Inr new_master \<Rightarrow>
          (case create_media_data_store (store_master_playlist av1 new_master) uri_list n of
            Inl e \<Rightarrow> Inl e
          | Inr av2 \<Rightarrow> Inr (set_next_media_uri_id av2 0)))))))"

text \<open>Lines 674 to 689: the response holds the media playlist of item \<open>next_uri - 1\<close>.\<close>

definition action_media_playlist ::
  "(string \<Rightarrow> real \<times> nat) \<Rightarrow> airplay_video_t \<Rightarrow> string \<Rightarrow> error + airplay_video_t" where
  "action_media_playlist strtof av pl =
     (let (cnt, dur, endl) = analyze_media_playlist strtof pl;
          uri_num = get_next_media_uri_id av - 1
      in (case store_media_playlist av pl cnt dur endl uri_num of
            Inl e \<Rightarrow> Inl e
          | Inr (ret, av1) \<Rightarrow> Inr av1))"

text \<open>
  Lines 693 to 704: the next media playlist is requested with the next request ID, or, when
  all are there, the video is played. The URI handed to \<^verbatim>\<open>fcup_request\<close> is read as a
  string there.
\<close>

definition action_next_request ::
  "airplay_video_t \<Rightarrow> string \<Rightarrow> error + (airplay_video_t \<times> event list)" where
  "action_next_request av sid =
     (let n = get_num_media_uri av;
          uri_num = get_next_media_uri_id av
      in if uri_num < n
         then (case get_media_uri_by_num av uri_num of
                 Inl e \<Rightarrow> Inl e
               | Inr None \<Rightarrow> Inl NullDeref
               | Inr (Some media_uri) \<Rightarrow>
                   (case get_next_FCUP_RequestID av of
                      Inl e \<Rightarrow> Inl e
                    | Inr (request_id, av1) \<Rightarrow>
                        Inr (set_next_media_uri_id av1 (uri_num + 1),
                             [Fcup_request media_uri sid request_id])))
         else Inr (av, [On_video_play (get_playback_location (Some av))
                          (get_start_position_seconds av)]))"

text \<open>
  The action \<^verbatim>\<open>unhandledURLResponse\<close>, on the current session \<open>av\<close> of slot \<open>cur\<close>.
  The data are copied into a C string, which ends at the first null byte.
\<close>

definition action_unhandled_url_response ::
  "(string \<Rightarrow> real \<times> nat) \<Rightarrow> raop_t \<Rightarrow> nat \<Rightarrow> airplay_video_t \<Rightarrow> string \<Rightarrow>
     plist_t option \<Rightarrow> http_response_t \<Rightarrow> error + (raop_t \<times> http_response_t \<times> event list)" where
  "action_unhandled_url_response strtof raop cur av sid req_params_node response =
     (let url_node = plist_dict_get_item req_params_node ''FCUP_Response_URL''
      in if \<not> PLIST_IS_STRING url_node then action_error raop response
         else (case (case url_node of None \<Rightarrow> None | Some node \<Rightarrow> plist_get_string_val node) of
                 None \<Rightarrow> action_error raop response
               | Some fcup_response_url \<Rightarrow>
                   (let data_node = plist_dict_get_item req_params_node ''FCUP_Response_Data''
                    in if \<not> PLIST_IS_DATA data_node then action_error raop response
                       else (case (case data_node of None \<Rightarrow> None
                                   | Some node \<Rightarrow> plist_get_data_val node) of
                               None \<Rightarrow> action_error raop response
                             | Some fcup_response_data \<Rightarrow>
                                 (let pl = takeWhile (\<lambda>c. c \<noteq> CHR 0x00) fcup_response_data
                                  in (case (if strstr fcup_response_url ''/master.m3u8'' \<noteq> None
                                            then action_master_playlist av pl
                                            else action_media_playlist strtof av pl) of
                                        Inl e \<Rightarrow> Inl e
                                      | Inr av1 \<Rightarrow>
                                          (case action_next_request av1 sid of
                                             Inl e \<Rightarrow> Inl e
                                           | Inr (av2, evs) \<Rightarrow>
                                               Inr (set_slot raop cur av2, response, evs))))))))"

text \<open>
  The action \<^verbatim>\<open>playlistRemove\<close>; \<open>position\<close> is the value that the callback
  \<^verbatim>\<open>on_video_playlist_remove\<close> returns.
\<close>

definition action_playlist_remove ::
  "raop_t \<Rightarrow> nat \<Rightarrow> airplay_video_t \<Rightarrow> plist_t option \<Rightarrow> http_response_t \<Rightarrow> real \<Rightarrow>
     error + (raop_t \<times> http_response_t \<times> event list)" where
  "action_playlist_remove raop cur av req_params_node response position =
     (let item_node = plist_dict_get_item req_params_node ''item''
      in if \<not> PLIST_IS_DICT item_node then action_error raop response
         else (case (case plist_dict_get_item item_node ''uuid'' of
                       None \<Rightarrow> None
                     | Some node \<Rightarrow> plist_get_string_val node) of
                 None \<Rightarrow> Inl AssertFailed
               | Some remove_uuid \<Rightarrow>
                   (case get_playlist_by_uuid raop remove_uuid of
                      Inl e \<Rightarrow> Inl e
                    | Inr vid \<Rightarrow>
                        if vid = current_video raop
                        then Inr (set_slot (raop\<lparr>current_video := - 1\<rparr>) cur
                                    (set_resume_position_seconds av position),
                                  response, [On_video_playlist_remove])
                        else Inr (raop, response, []))))"

text \<open>The action \<^verbatim>\<open>playlistInsert\<close> looks the UUID up and changes nothing.\<close>

definition action_playlist_insert ::
  "raop_t \<Rightarrow> plist_t option \<Rightarrow> http_response_t \<Rightarrow>
     error + (raop_t \<times> http_response_t \<times> event list)" where
  "action_playlist_insert raop req_params_node response =
     (let item_node = plist_dict_get_item req_params_node ''item''
      in if \<not> PLIST_IS_DICT item_node then action_error raop response
         else (case (case plist_dict_get_item item_node ''uuid'' of
                       None \<Rightarrow> None
                     | Some node \<Rightarrow> plist_get_string_val node) of
                 None \<Rightarrow> Inr (raop, response, [])
               | Some remove_uuid \<Rightarrow>
                   (case get_playlist_by_uuid raop remove_uuid of
                      Inl e \<Rightarrow> Inl e
                    | Inr vid \<Rightarrow> Inr (raop, response, []))))"

text \<open>
  \<^verbatim>\<open>http_handler_action\<close>, lines 465 to 720. \<^verbatim>\<open>strcmp\<close> with the null session ID of
  the current session dereferences a null pointer. What the handler reads for the log only
  is left out.
\<close>

definition http_handler_action ::
  "(string \<Rightarrow> real \<times> nat) \<Rightarrow> raop_t \<Rightarrow> http_request_t \<Rightarrow> http_response_t \<Rightarrow> real \<Rightarrow>
     error + (raop_t \<times> http_response_t \<times> event list)" where
  "http_handler_action strtof raop request response position =
     (case hls_get_current_video raop of
        Inl e \<Rightarrow> Inl e
      | Inr None \<Rightarrow> Inl AssertFailed
      | Inr (Some av) \<Rightarrow>
      (case header_X_Apple_Session_ID request of
        None \<Rightarrow> action_error raop response
      | Some session_id \<Rightarrow>
      (case get_apple_session_id (Some av) of
        None \<Rightarrow> Inl NullDeref
      | Some sid \<Rightarrow>
          if session_id \<noteq> sid then action_error raop response
          else if strstr (header_string request) ''apple-binary-plist'' = None
          then action_error raop response
          else if request_datalen request = 0 then action_error raop response
          else (let req_root_node = request_plist request;
                    req_type_node = plist_dict_get_item req_root_node ''type''
                in if \<not> PLIST_IS_STRING req_type_node then action_error raop response
                   else (case (case req_type_node of None \<Rightarrow> None
                               | Some node \<Rightarrow> plist_get_string_val node) of
                           None \<Rightarrow> action_error raop response
                         | Some type \<Rightarrow>
                             (let req_params_node =
                                    (if PLIST_IS_DICT req_root_node
                                     then plist_dict_get_item req_root_node ''params'' else None);
                                  cur = nat (current_video raop)
                              in if \<not> PLIST_IS_DICT req_params_node then action_error raop response
                                 else if type = ''playlistRemove''
                                 then action_playlist_remove raop cur av req_params_node response position
                                 else if type = ''playlistInsert''
                                 then action_playlist_insert raop req_params_node response
                                 else if type = ''unhandledURLResponse''
                                 then action_unhandled_url_response strtof raop cur av sid
                                        req_params_node response
                                 else Inr (raop, response, [])))))))"

text \<open>A sequence of POST /action requests, each with its response object and callback value.\<close>

fun run_actions ::
  "(string \<Rightarrow> real \<times> nat) \<Rightarrow> raop_t \<Rightarrow> (http_request_t \<times> http_response_t \<times> real) list \<Rightarrow>
     error + (raop_t \<times> event list)" where
  "run_actions strtof raop [] = Inr (raop, [])"
| "run_actions strtof raop ((request, response, position) # rest) =
     (case http_handler_action strtof raop request response position of
        Inl e \<Rightarrow> Inl e
      | Inr (raop1, response1, evs) \<Rightarrow>
          (case run_actions strtof raop1 rest of
             Inl e \<Rightarrow> Inl e
           | Inr (raop2, evs2) \<Rightarrow> Inr (raop2, evs @ evs2)))"

text \<open>The request IDs of the FCUP requests among the calls made.\<close>

fun request_ids :: "event list \<Rightarrow> int list" where
  "request_ids [] = []"
| "request_ids (Fcup_request url sid request_id # evs) = request_id # request_ids evs"
| "request_ids (ev # evs) = request_ids evs"

text \<open>
  An instance of \<^verbatim>\<open>strtof\<close> for the examples: an unsigned decimal number with an
  optional fraction.
\<close>

definition strtof_decimal :: "string \<Rightarrow> real \<times> nat" where
  "strtof_decimal s =
     (let ds = takeWhile isdigit s;
          whole = real_of_int (digits_val 0 ds)
      in (case drop (length ds) s of
            [] \<Rightarrow> (whole, length ds)
          | c # cs \<Rightarrow>
              if c = CHR ''.''
              then (let fs = takeWhile isdigit cs
                    in (whole + real_of_int (digits_val 0 fs) / 10 ^ length fs,
                        length ds + 1 + length fs))
              else (whole, length ds)))"

text \<open>
  A POST /action request of type \<^verbatim>\<open>unhandledURLResponse\<close> of the client of the examples,
  a master playlist with two media playlists, and the session after the master playlist
  has been requested.
\<close>

definition action_request :: "string \<Rightarrow> string \<Rightarrow> http_request_t" where
  "action_request url data =
     \<lparr> header_X_Apple_Session_ID = Some example_sid,
       header_string = ''Content-Type: application/x-apple-binary-plist'',
       request_datalen = 1,
       request_plist = Some (PLIST_DICT
         [(''type'', PLIST_STRING ''unhandledURLResponse''),
          (''params'', PLIST_DICT
             [(''FCUP_Response_URL'', PLIST_STRING url),
              (''FCUP_Response_Data'', PLIST_DATA data)])]) \<rparr>"

definition two_media_master :: string where
  "two_media_master =
     ''#EXTM3U\<newline>'' @
     ''#EXT-X-STREAM-INF:BANDWIDTH=1280000\<newline>http://client:7000/x/v/index.m3u8\<newline>'' @
     ''#EXT-X-STREAM-INF:BANDWIDTH=640000\<newline>http://client:7000/x/w/index.m3u8\<newline>''"

definition master_requested_registry :: raop_t where
  "master_requested_registry =
     empty_registry
       \<lparr> airplay_video :=
           (airplay_video empty_registry)
             [0 := Some ((airplay_video_init 7100 None)
                \<lparr> apple_session_id := Some example_sid,
                  playback_uuid := Some example_uuid,
                  uri_prefix := Some ''http://client:7000/x'',
                  playback_location := Some ''http://localhost:7100/master.m3u8'',
                  FCUP_RequestID := 1,
                  start_position_seconds := 12.5 \<rparr>)],
         current_video := 0 \<rparr>"

definition playlist_responses :: "(http_request_t \<times> http_response_t \<times> real) list" where
  "playlist_responses =
     [(action_request ''http://client:7000/x/master.m3u8'' two_media_master, ok_response, 0),
      (action_request ''http://client:7000/x/v/index.m3u8'' plain_playlist, ok_response, 0)]"



section \<open>Verified properties\<close>

subsection \<open>The media data store\<close>

lemma find_same_uri_upt:
  "find_same_uri [k..<m] st n = Some j \<Longrightarrow>
     k \<le> j \<and> j < m \<and> uri (st ! j) = uri (st ! n) \<and> (\<forall>i. k \<le> i \<and> i < j \<longrightarrow> uri (st ! i) \<noteq> uri (st ! n))"
proof (induction "m - k" arbitrary: k)
  case 0
  then show ?case by simp
next
  case (Suc d)
  then have km: "k < m" by simp
  then have unf: "[k..<m] = k # [Suc k..<m]" by (simp add: upt_conv_Cons)
  show ?case
  proof (cases "uri (st ! k) = uri (st ! n)")
    case True
    with Suc.prems unf km show ?thesis by auto
  next
    case False
    with Suc.prems unf have r: "find_same_uri [Suc k..<m] st n = Some j" by simp
    from Suc.hyps(2) have "d = m - Suc k" by simp
    from Suc.hyps(1) [OF this r] False show ?thesis
      by (metis Suc_leD Suc_leI le_neq_implies_less)
  qed
qed

lemma find_same_uri_None:
  "find_same_uri is st n = None \<longleftrightarrow> (\<forall>i \<in> set is. uri (st ! i) \<noteq> uri (st ! n))"
  by (induction "is") auto

lemma find_same_uri_cong:
  "(\<And>i. uri (a ! i) = uri (b ! i)) \<Longrightarrow> find_same_uri is a n = find_same_uri is b n"
  by (induction "is") auto

lemma parse_header_step_fields:
  "uri (parse_header_step s q item) = uri item \<and>
   playlist (parse_header_step s q item) = playlist item \<and>
   num (parse_header_step s q item) = num item \<and>
   count (parse_header_step s q item) = count item \<and>
   duration (parse_header_step s q item) = duration item \<and>
   endlist (parse_header_step s q item) = endlist item"
  by (simp add: parse_header_step_def Let_def split: option.splits)

lemma parse_media_loop_fields:
  "uri (parse_media_loop s p item) = uri item \<and>
   playlist (parse_media_loop s p item) = playlist item \<and>
   num (parse_media_loop s p item) = num item \<and>
   count (parse_media_loop s p item) = count item \<and>
   duration (parse_media_loop s p item) = duration item \<and>
   endlist (parse_media_loop s p item) = endlist item"
proof (induction s p item rule: parse_media_loop.induct)
  case (1 s p item)
  show ?case
  proof (cases "strstr_at s p ''#EXT''")
    case None
    then show ?thesis by (subst parse_media_loop.simps) simp
  next
    case (Some q0)
    note q0 = this
    show ?thesis
    proof (cases "is_prefix ''#EXTINF:'' (drop q0 s)")
      case True
      with q0 show ?thesis by (subst parse_media_loop.simps) simp
    next
      case False
      note np = this
      show ?thesis
      proof (cases "strstr_at s q0 ''#EXT-X-''")
        case None
        with q0 np show ?thesis by (subst parse_media_loop.simps) simp
      next
        case (Some q)
        from "1.IH" [OF q0 np Some] parse_header_step_fields [of s q item]
        have "uri (parse_media_loop s (q + 7) (parse_header_step s q item)) = uri item \<and>
   playlist (parse_media_loop s (q + 7) (parse_header_step s q item)) = playlist item \<and>
   num (parse_media_loop s (q + 7) (parse_header_step s q item)) = num item \<and>
   count (parse_media_loop s (q + 7) (parse_header_step s q item)) = count item \<and>
   duration (parse_media_loop s (q + 7) (parse_header_step s q item)) = duration item \<and>
   endlist (parse_media_loop s (q + 7) (parse_header_step s q item)) = endlist item" by simp
        moreover have "parse_media_loop s p item = parse_media_loop s (q + 7) (parse_header_step s q item)"
          using q0 np Some by (subst parse_media_loop.simps) simp
        ultimately show ?thesis by simp
      qed
    qed
  qed
qed

lemma parse_media_playlist_Some:
  "playlist item = Some s \<Longrightarrow>
   \<exists>rc item'. parse_media_playlist item = Inr (rc, item') \<and> uri item' = uri item \<and>
      playlist item' = Some s \<and> num item' = num item \<and> count item' = count item \<and>
      duration item' = duration item \<and> endlist item' = endlist item"
  using parse_media_loop_fields
  by (auto simp: parse_media_playlist_def split: option.splits)

lemma store_out_of_range:
  "\<not> in_range av n \<Longrightarrow> store_media_playlist av pl c d e n = Inr (- 1, av)"
  by (auto simp: store_media_playlist_def in_range_def)

lemma store_ok_in_range:
  assumes "store_ok av" "in_range av n"
  shows "media_data_store av = Some (the_store av) \<and> nat n < length (the_store av)"
  using assms by (auto simp: store_ok_def in_range_def the_store_def split: option.splits)

lemma store_already:
  assumes "store_ok av" "in_range av n" "slot_filled av n"
  shows "store_media_playlist av pl c d e n = Inr (- 2, av)"
  using store_ok_in_range [OF assms(1,2)] assms(2,3)
  by (auto simp: store_media_playlist_def in_range_def slot_filled_def)

lemma prior_same_uri_find:
  "prior_same_uri av n j \<longleftrightarrow> find_same_uri [0..<nat n] (the_store av) (nat n) = Some j"
proof
  assume p: "prior_same_uri av n j"
  then have "find_same_uri [0..<nat n] (the_store av) (nat n) \<noteq> None"
    by (auto simp: find_same_uri_None prior_same_uri_def)
  then obtain k where k: "find_same_uri [0..<nat n] (the_store av) (nat n) = Some k" by auto
  from find_same_uri_upt [OF k] p have "k = j"
    unfolding prior_same_uri_def by (metis le0 linorder_neqE_nat)
  with k show "find_same_uri [0..<nat n] (the_store av) (nat n) = Some j" by simp
next
  assume "find_same_uri [0..<nat n] (the_store av) (nat n) = Some j"
  from find_same_uri_upt [OF this] show "prior_same_uri av n j"
    by (simp add: prior_same_uri_def)
qed

lemma no_prior_find:
  "(\<forall>j. \<not> prior_same_uri av n j) \<longleftrightarrow> find_same_uri [0..<nat n] (the_store av) (nat n) = None"
  using prior_same_uri_find [of av n] by (metis not_Some_eq)

lemma store_duplicate:
  assumes "store_ok av" "in_range av n" "\<not> slot_filled av n" "prior_same_uri av n j"
  shows "store_media_playlist av pl c d e n =
           (if playlist (the_store av ! j) = Some pl
            then Inr (1, av\<lparr>media_data_store :=
                           Some ((the_store av)[nat n := (the_store av ! nat n)\<lparr>num := int j\<rparr>])\<rparr>)
            else if playlist (the_store av ! j) = None then Inl NullDeref else Inl AssertFailed)"
  using store_ok_in_range [OF assms(1,2)] assms(2,3) assms(4) [unfolded prior_same_uri_find]
  by (auto simp: store_media_playlist_def in_range_def slot_filled_def)

lemma store_fresh:
  assumes "store_ok av" "in_range av n" "\<not> slot_filled av n" "\<forall>j. \<not> prior_same_uri av n j"
  shows "\<exists>item. store_media_playlist av pl c d e n =
            Inr (0, av\<lparr>media_data_store := Some ((the_store av)[nat n := item])\<rparr>) \<and>
          uri item = uri (the_store av ! nat n) \<and> num item = num (the_store av ! nat n) \<and>
          playlist item = Some pl \<and> count item = c \<and> duration item = d \<and> endlist item = e"
proof -
  let ?it = "(the_store av ! nat n)\<lparr>playlist := Some pl, count := c, duration := d, endlist := e\<rparr>"
  have "playlist ?it = Some pl" by simp
  from parse_media_playlist_Some [OF this] obtain rc item' where
    p: "parse_media_playlist ?it = Inr (rc, item')" "uri item' = uri ?it" "playlist item' = Some pl"
       "num item' = num ?it" "count item' = count ?it" "duration item' = duration ?it"
       "endlist item' = endlist ?it" by blast
  from assms(4) have f: "find_same_uri [0..<nat n] (the_store av) (nat n) = None"
    by (simp add: no_prior_find)
  have "store_media_playlist av pl c d e n =
            Inr (0, av\<lparr>media_data_store := Some ((the_store av)[nat n := item'])\<rparr>)"
    using store_ok_in_range [OF assms(1,2)] assms(2,3) f p(1)
    by (auto simp: store_media_playlist_def in_range_def slot_filled_def)
  with p show ?thesis by auto
qed


lemma store_duplicate_again:
  assumes ok: "store_ok av" and r: "in_range av n" and nf: "\<not> slot_filled av n"
    and pr: "prior_same_uri av n j" and pl: "playlist (the_store av ! j) = Some pl"
    and av': "av' = av\<lparr>media_data_store :=
                        Some ((the_store av)[nat n := (the_store av ! nat n)\<lparr>num := int j\<rparr>])\<rparr>"
  shows "store_media_playlist av' pl c d e n = Inr (1, av') \<and>
         map playlist (the_store av') = map playlist (the_store av)"
proof -
  let ?st = "the_store av"
  let ?st' = "?st[nat n := (?st ! nat n)\<lparr>num := int j\<rparr>]"
  from store_ok_in_range [OF ok r] have len: "nat n < length ?st" by simp
  have st': "the_store av' = ?st'" by (simp add: av' the_store_def)
  have uris: "\<And>i. uri (?st' ! i) = uri (?st ! i)"
    using len by (simp add: nth_list_update)
  have pls: "\<And>i. playlist (?st' ! i) = playlist (?st ! i)"
    using len by (simp add: nth_list_update)
  have ok': "store_ok av'" using ok len by (simp add: av' store_ok_def the_store_def split: option.splits)
  have r': "in_range av' n" using r by (simp add: av' in_range_def)
  have nf': "\<not> slot_filled av' n" using nf by (simp add: slot_filled_def st' pls)
  have pr': "prior_same_uri av' n j" using pr by (simp add: prior_same_uri_def st' uris)
  have pl': "playlist (the_store av' ! j) = Some pl" using pl by (simp add: st' pls)
  have idem: "?st'[nat n := (?st' ! nat n)\<lparr>num := int j\<rparr>] = ?st'"
    using len by simp
  have "av'\<lparr>media_data_store := Some ((the_store av')[nat n := (the_store av' ! nat n)\<lparr>num := int j\<rparr>])\<rparr> = av'"
    unfolding st' idem by (simp add: av')
  with store_duplicate [OF ok' r' nf' pr', of pl c d e] pl'
  have "store_media_playlist av' pl c d e n = Inr (1, av')" by simp
  moreover have "map playlist (the_store av') = map playlist ?st"
    unfolding st' using pls by (simp add: list_eq_iff_nth_eq)
  ultimately show ?thesis by simp
qed

text \<open>
  C4 (amended). On a session whose store has \<open>num_uri\<close> items, every call of
  \<^verbatim>\<open>store_media_playlist\<close> that returns is exactly one of: out of range (-1, state
  unchanged), already stored (-2, state unchanged), duplicate (1: the slot is empty and
  \<open>j\<close> is the first earlier item with an equal URI; \<open>num\<close> of the item becomes \<open>j\<close>, no
  stored playlist changes, and the same call again returns 1 and leaves the state as it
  is), or stored (0). The call does not return exactly when the index is in range, the slot
  is empty and the first earlier item with an equal URI does not hold the same playlist
  text: the equality assertion of the duplicate branch stops the program.
\<close>

theorem store_media_playlist_classifies:
  assumes ok: "store_ok av"
  shows "(case store_media_playlist av pl c d e n of
            Inr (rc, av') \<Rightarrow>
              (rc = - 1 \<and> \<not> in_range av n \<and> av' = av) \<or>
              (rc = - 2 \<and> in_range av n \<and> slot_filled av n \<and> av' = av) \<or>
              (rc = 1 \<and> in_range av n \<and> \<not> slot_filled av n \<and>
                 (\<exists>j. prior_same_uri av n j \<and> playlist (the_store av ! j) = Some pl \<and>
                      av' = av\<lparr>media_data_store :=
                               Some ((the_store av)[nat n := (the_store av ! nat n)\<lparr>num := int j\<rparr>])\<rparr> \<and>
                      map playlist (the_store av') = map playlist (the_store av) \<and>
                      store_media_playlist av' pl c d e n = Inr (1, av'))) \<or>
              (rc = 0 \<and> in_range av n \<and> \<not> slot_filled av n \<and> (\<forall>j. \<not> prior_same_uri av n j) \<and>
                 playlist (the_store av' ! nat n) = Some pl)
          | Inl err \<Rightarrow>
              in_range av n \<and> \<not> slot_filled av n \<and>
              (\<exists>j. prior_same_uri av n j \<and> playlist (the_store av ! j) \<noteq> Some pl))"
proof (cases "in_range av n")
  case False
  then show ?thesis by (simp add: store_out_of_range)
next
  case True
  note r = this
  show ?thesis
  proof (cases "slot_filled av n")
    case True
    with r show ?thesis by (simp add: store_already [OF ok])
  next
    case False
    note nf = this
    show ?thesis
    proof (cases "\<exists>j. prior_same_uri av n j")
      case True
      then obtain j where pr: "prior_same_uri av n j" ..
      show ?thesis
      proof (cases "playlist (the_store av ! j) = Some pl")
        case True
        from store_duplicate_again [OF ok r nf pr True refl, of c d e]
        show ?thesis
          using r nf pr True by (auto simp: store_duplicate [OF ok r nf pr])
      next
        case False
        then show ?thesis
          using r nf pr by (auto simp: store_duplicate [OF ok r nf pr])
      qed
    next
      case False
      then have np: "\<forall>j. \<not> prior_same_uri av n j" by simp
      from store_fresh [OF ok r nf np, of pl c d e] obtain item where
        it: "store_media_playlist av pl c d e n =
               Inr (0, av\<lparr>media_data_store := Some ((the_store av)[nat n := item])\<rparr>)"
            "playlist item = Some pl" by blast
      from store_ok_in_range [OF ok r] have "nat n < length (the_store av)" by simp
      then show ?thesis using it r nf np by (simp add: the_store_def)
    qed
  qed
qed

theorem store_media_playlist_classifies_witness:
  "store_ok same_uri_session \<and>
   store_media_playlist same_uri_session ''#EXTM3U'' 0 0 False 1 =
     Inr (1, same_uri_session
               \<lparr> media_data_store :=
                   Some [(new_media_item ''u'' 0)\<lparr>playlist := Some ''#EXTM3U''\<rparr>,
                         (new_media_item ''u'' 1)\<lparr>num := 0\<rparr>] \<rparr>)"
  using store_media_playlist_classifies
          [where av = same_uri_session and pl = "''#EXTM3U''" and c = 0 and d = 0 and e = False and n = 1]
  by (simp add: same_uri_session_def store_ok_def store_media_playlist_def new_media_item_def
      airplay_video_init_def)

text \<open>
  C4 as stated fails: a second body for the same URI that differs from the stored one is
  not classified; the assertion fails.
\<close>

theorem store_media_playlist_differing_body_aborts:
  "store_media_playlist same_uri_session ''#EXTM3U changed'' 0 0 False 1 = Inl AssertFailed"
  by (simp add: same_uri_session_def store_media_playlist_def new_media_item_def
      airplay_video_init_def)

lemma prune_short_playlists_spec:
  assumes "prune_short_playlists is raop cnt = Inr (raop1, cnt1)"
    and "distinct is" and "\<forall>i\<in>set is. i < length (airplay_video raop)"
  shows "length (airplay_video raop1) = length (airplay_video raop) \<and>
         current_video raop1 = current_video raop \<and>
         raop_port raop1 = raop_port raop \<and> raop_lang raop1 = raop_lang raop \<and>
         (\<forall>i < length (airplay_video raop).
            airplay_video raop1 ! i =
              (if i \<in> set is then pruned_slot (airplay_video raop ! i) else airplay_video raop ! i)) \<and>
         cnt1 = cnt + int (length (filter (\<lambda>i. pruned_slot (airplay_video raop ! i) \<noteq> None) is))"
  using assms
proof (induction "is" arbitrary: raop cnt)
  case Nil
  then show ?case by simp
next
  case (Cons i rest)
  from Cons.prems have i: "i < length (airplay_video raop)" and ni: "i \<notin> set rest"
    and dr: "distinct rest" and rl: "\<forall>k\<in>set rest. k < length (airplay_video raop)" by auto
  show ?case
  proof (cases "airplay_video raop ! i")
    case None
    with Cons.prems have "prune_short_playlists rest raop cnt = Inr (raop1, cnt1)" by simp
    from Cons.IH [OF this dr rl] None show ?thesis
      by (auto simp: pruned_slot_def)
  next
    case (Some av)
    with Cons.prems obtain d where d: "get_duration (Some av) = Inr d"
      by (cases "get_duration (Some av)") auto
    show ?thesis
    proof (cases "d < MIN_STORED_AIRPLAY_VIDEO_DURATION_SECONDS")
      case True
      let ?r = "raop_destroy_airplay_video raop i"
      from True Some d Cons.prems have run: "prune_short_playlists rest ?r cnt = Inr (raop1, cnt1)"
        by simp
      have rl': "\<forall>k\<in>set rest. k < length (airplay_video ?r)"
        using rl by (simp add: raop_destroy_airplay_video_def)
      have same: "\<And>k. k \<in> set rest \<Longrightarrow> airplay_video ?r ! k = airplay_video raop ! k"
      proof -
        fix k assume "k \<in> set rest"
        with ni have "k \<noteq> i" by auto
        then show "airplay_video ?r ! k = airplay_video raop ! k"
          by (simp add: raop_destroy_airplay_video_def)
      qed
      have ps: "pruned_slot (airplay_video raop ! i) = None"
        using Some d True by (simp add: pruned_slot_def is_advertisement_def)
      have flt: "filter (\<lambda>i. pruned_slot (airplay_video ?r ! i) \<noteq> None) rest =
                 filter (\<lambda>i. pruned_slot (airplay_video raop ! i) \<noteq> None) rest"
        by (rule filter_cong) (simp_all add: same)
      from Cons.IH [OF run dr rl'] have ih:
        "length (airplay_video raop1) = length (airplay_video ?r)"
        "current_video raop1 = current_video ?r" "raop_port raop1 = raop_port ?r"
        "raop_lang raop1 = raop_lang ?r"
        "\<forall>k < length (airplay_video ?r). airplay_video raop1 ! k =
              (if k \<in> set rest then pruned_slot (airplay_video ?r ! k) else airplay_video ?r ! k)"
        "cnt1 = cnt + int (length (filter (\<lambda>i. pruned_slot (airplay_video ?r ! i) \<noteq> None) rest))"
        by simp_all
      have slots: "\<forall>k < length (airplay_video raop). airplay_video raop1 ! k =
              (if k \<in> set (i # rest) then pruned_slot (airplay_video raop ! k) else airplay_video raop ! k)"
      proof (intro allI impI)
        fix k assume k: "k < length (airplay_video raop)"
        then have k': "k < length (airplay_video ?r)" by (simp add: raop_destroy_airplay_video_def)
        show "airplay_video raop1 ! k =
              (if k \<in> set (i # rest) then pruned_slot (airplay_video raop ! k) else airplay_video raop ! k)"
        proof (cases "k = i")
          case True
          with ih(5) k' ni i ps show ?thesis
            by (simp add: raop_destroy_airplay_video_def)
        next
          case False
          with ih(5) k' same [of k] show ?thesis
            by (auto simp: raop_destroy_airplay_video_def)
        qed
      qed
      from ih(1-4,6) slots ps flt show ?thesis
        by (simp add: raop_destroy_airplay_video_def)
    next
      case False
      from False Some d Cons.prems have run: "prune_short_playlists rest raop (cnt + 1) = Inr (raop1, cnt1)"
        by simp
      have ps: "pruned_slot (airplay_video raop ! i) = Some av"
        using Some d False by (simp add: pruned_slot_def is_advertisement_def)
      from Cons.IH [OF run dr rl] have ih:
        "length (airplay_video raop1) = length (airplay_video raop)"
        "current_video raop1 = current_video raop" "raop_port raop1 = raop_port raop"
        "raop_lang raop1 = raop_lang raop"
        "\<forall>k < length (airplay_video raop). airplay_video raop1 ! k =
              (if k \<in> set rest then pruned_slot (airplay_video raop ! k) else airplay_video raop ! k)"
        "cnt1 = cnt + 1 + int (length (filter (\<lambda>i. pruned_slot (airplay_video raop ! i) \<noteq> None) rest))"
        by simp_all
      have slots: "\<forall>k < length (airplay_video raop). airplay_video raop1 ! k =
              (if k \<in> set (i # rest) then pruned_slot (airplay_video raop ! k) else airplay_video raop ! k)"
        using ih(5) ps Some ni by auto
      from ih(1-4,6) slots ps show ?thesis by simp
    qed
  qed
qed

lemma find_empty_slot_upt:
  "find_empty_slot [k..<m] raop = r \<Longrightarrow>
     (r = - 1 \<and> (\<forall>i. k \<le> i \<and> i < m \<longrightarrow> airplay_video raop ! i \<noteq> None)) \<or>
     (\<exists>j. r = int j \<and> k \<le> j \<and> j < m \<and> airplay_video raop ! j = None \<and>
          (\<forall>i. k \<le> i \<and> i < j \<longrightarrow> airplay_video raop ! i \<noteq> None))"
proof (induction "m - k" arbitrary: k)
  case 0
  then show ?case by auto
next
  case (Suc d)
  then have km: "k < m" by simp
  then have unf: "[k..<m] = k # [Suc k..<m]" by (simp add: upt_conv_Cons)
  show ?case
  proof (cases "airplay_video raop ! k")
    case None
    with Suc.prems unf km show ?thesis by auto
  next
    case (Some av)
    with Suc.prems unf have r: "find_empty_slot [Suc k..<m] raop = r" by simp
    from Suc.hyps(2) have "d = m - Suc k" by simp
    from Suc.hyps(1) [OF this r] Some show ?thesis
      by (metis Suc_leD Suc_leI le_neq_implies_less option.distinct(1))
  qed
qed

lemma occupied_filter_upt:
  "length (filter (\<lambda>i. P (xs ! i)) [0..<length xs]) = length (filter P xs)"
proof -
  have "length (filter P (map ((!) xs) [0..<length xs])) = length (filter (\<lambda>i. P (xs ! i)) [0..<length xs])"
    by (simp add: length_filter_map comp_def)
  then show ?thesis by (simp add: map_nth)
qed

lemma length_filter_update:
  assumes "i < length xs"
  shows "length (filter P (xs[i := x])) + (if P (xs ! i) then 1 else 0) =
         length (filter P xs) + (if P x then 1 else 0)"
proof -
  have a: "xs[i := x] = take i xs @ x # drop (Suc i) xs"
    using assms by (simp add: upd_conv_take_nth_drop)
  have b: "xs = take i xs @ xs ! i # drop (Suc i) xs"
    using assms by (simp add: id_take_nth_drop)
  have "length (filter P xs) = length (filter P (take i xs)) + (if P (xs ! i) then 1 else 0) +
          length (filter P (drop (Suc i) xs))"
    by (subst b) simp
  moreover have "length (filter P (xs[i := x])) = length (filter P (take i xs)) + (if P x then 1 else 0) +
          length (filter P (drop (Suc i) xs))"
    by (subst a) simp
  ultimately show ?thesis by simp
qed

lemma prune_all_slots:
  assumes len: "length (airplay_video raop) = MAX_AIRPLAY_VIDEO"
    and pr: "prune_short_playlists [0..<MAX_AIRPLAY_VIDEO] raop 0 = Inr (raop1, cnt)"
  shows "airplay_video raop1 = map pruned_slot (airplay_video raop) \<and> cnt = int (occupied raop1) \<and>
         current_video raop1 = current_video raop \<and>
         raop_port raop1 = raop_port raop \<and> raop_lang raop1 = raop_lang raop"
proof -
  have d: "distinct [0..<MAX_AIRPLAY_VIDEO]" by simp
  have b: "\<forall>i\<in>set [0..<MAX_AIRPLAY_VIDEO]. i < length (airplay_video raop)" using len by simp
  note sp = prune_short_playlists_spec [OF pr d b]
  from sp have l1: "length (airplay_video raop1) = length (airplay_video raop)" by simp
  have slots: "airplay_video raop1 = map pruned_slot (airplay_video raop)"
  proof (rule nth_equalityI)
    show "length (airplay_video raop1) = length (map pruned_slot (airplay_video raop))"
      using l1 by simp
  next
    fix i assume "i < length (airplay_video raop1)"
    with l1 len sp show "airplay_video raop1 ! i = map pruned_slot (airplay_video raop) ! i"
      by simp
  qed
  from sp have "cnt = int (length (filter (\<lambda>i. pruned_slot (airplay_video raop ! i) \<noteq> None)
                                 [0..<length (airplay_video raop)]))"
    using len by simp
  also have "\<dots> = int (length (filter (\<lambda>x. pruned_slot x \<noteq> None) (airplay_video raop)))"
    by (simp only: occupied_filter_upt [of "\<lambda>x. pruned_slot x \<noteq> None"])
  also have "\<dots> = int (occupied raop1)"
    by (simp add: occupied_def slots length_filter_map comp_def)
  finally have "cnt = int (occupied raop1)" .
  with slots sp show ?thesis by simp
qed

lemma MAX_next_differs: "vid < MAX_AIRPLAY_VIDEO \<Longrightarrow> (vid + 1) mod MAX_AIRPLAY_VIDEO \<noteq> vid"
  unfolding MAX_AIRPLAY_VIDEO_def by presburger

lemma play_insert_new_spec:
  assumes len: "length (airplay_video raop) = MAX_AIRPLAY_VIDEO"
    and ins: "play_insert_new raop sid uuid = Inr (raop', vid)"
  shows "\<exists>raop1. prune_short_playlists [0..<MAX_AIRPLAY_VIDEO] raop 0 = Inr (raop1, int (occupied raop1)) \<and>
           airplay_video raop1 = map pruned_slot (airplay_video raop) \<and>
           vid < MAX_AIRPLAY_VIDEO \<and> airplay_video raop1 ! vid = None \<and>
           (\<forall>i<vid. airplay_video raop1 ! i \<noteq> None) \<and>
           airplay_video raop' =
             (if occupied raop1 + 1 = MAX_AIRPLAY_VIDEO
              then ((airplay_video raop1)[vid := Some (new_session raop sid uuid)])
                     [(vid + 1) mod MAX_AIRPLAY_VIDEO := None]
              else (airplay_video raop1)[vid := Some (new_session raop sid uuid)]) \<and>
           (vid + 1) mod MAX_AIRPLAY_VIDEO \<noteq> vid \<and>
           airplay_video raop' ! vid = Some (new_session raop sid uuid) \<and>
           current_video raop' = int vid \<and>
           length (airplay_video raop') = MAX_AIRPLAY_VIDEO \<and>
           occupied raop' < MAX_AIRPLAY_VIDEO"
proof -
  from ins obtain raop1 cnt where
    pr: "prune_short_playlists [0..<MAX_AIRPLAY_VIDEO] raop 0 = Inr (raop1, cnt)"
    by (cases "prune_short_playlists [0..<MAX_AIRPLAY_VIDEO] raop 0")
       (auto simp: play_insert_new_def)
  note pa = prune_all_slots [OF len pr]
  from pa have cnt: "cnt = int (occupied raop1)" by simp
  from pa len have len1: "length (airplay_video raop1) = MAX_AIRPLAY_VIDEO" by simp
  define r where "r = find_empty_slot [0..<MAX_AIRPLAY_VIDEO] raop1"
  from ins pr have lt: "cnt < int MAX_AIRPLAY_VIDEO"
    by (auto simp: play_insert_new_def split: if_splits)
  from ins pr lt have r0: "0 \<le> r"
    by (auto simp: play_insert_new_def Let_def r_def split: if_splits)
  from find_empty_slot_upt [of 0 MAX_AIRPLAY_VIDEO raop1 r] r0 obtain j where
    j: "r = int j" "j < MAX_AIRPLAY_VIDEO" "airplay_video raop1 ! j = None"
       "\<forall>i<j. airplay_video raop1 ! i \<noteq> None"
    by (auto simp: r_def)
  let ?av0 = "airplay_video_init (raop_port raop1) (raop_lang raop1)"
  let ?raop2 = "set_slot (raop1\<lparr>current_video := r\<rparr>) (nat r) ?av0"
  have cur: "hls_get_current_video ?raop2 = Inr (Some ?av0)"
    using j len1 by (simp add: hls_get_current_video_def set_slot_def)
  from ins pr lt r0 cur have ls: "length sid = 36" and lu: "length uuid = 36"
    by (auto simp: play_insert_new_def Let_def r_def [symmetric] set_apple_session_id_def
        set_playback_uuid_def split: if_splits)
  have av2: "new_session raop sid uuid =
        ?av0\<lparr>apple_session_id := Some (take (length sid) sid),
              playback_uuid := Some (take (length uuid) uuid)\<rparr>"
    using pa by (simp add: new_session_def)
  let ?raop3 = "set_slot ?raop2 (nat r) (new_session raop sid uuid)"
  from ins pr lt r0 cur ls lu av2 have res:
    "raop' = (if cnt + 1 = int MAX_AIRPLAY_VIDEO
              then ?raop3\<lparr>airplay_video := (airplay_video ?raop3)[(nat r + 1) mod MAX_AIRPLAY_VIDEO := None]\<rparr>
              else ?raop3)" and vid: "vid = nat r"
    by (auto simp: play_insert_new_def Let_def r_def [symmetric] set_apple_session_id_def
        set_playback_uuid_def split: if_splits)
  from vid j have vj: "vid = j" by simp
  have nd: "(vid + 1) mod MAX_AIRPLAY_VIDEO \<noteq> vid"
    using MAX_next_differs j(2) vj by simp
  have slots: "airplay_video raop' =
             (if occupied raop1 + 1 = MAX_AIRPLAY_VIDEO
              then ((airplay_video raop1)[vid := Some (new_session raop sid uuid)])
                     [(vid + 1) mod MAX_AIRPLAY_VIDEO := None]
              else (airplay_video raop1)[vid := Some (new_session raop sid uuid)])"
  proof -
    have "cnt + 1 = int MAX_AIRPLAY_VIDEO \<longleftrightarrow> occupied raop1 + 1 = MAX_AIRPLAY_VIDEO"
      using cnt by auto
    then show ?thesis using res vid by (simp add: set_slot_def)
  qed
  have at_vid: "airplay_video raop' ! vid = Some (new_session raop sid uuid)"
    using slots nd len1 j(2) vj by (simp add: nth_list_update)
  have cv: "current_video raop' = int vid"
    using res vid j by (simp add: set_slot_def)
  have len': "length (airplay_video raop') = MAX_AIRPLAY_VIDEO"
    using slots len1 by simp
  have occ: "occupied raop' < MAX_AIRPLAY_VIDEO"
  proof -
    let ?ins = "(airplay_video raop1)[vid := Some (new_session raop sid uuid)]"
    have "length (filter (\<lambda>x. x \<noteq> None) ?ins) + (if airplay_video raop1 ! vid \<noteq> None then 1 else 0) =
          length (filter (\<lambda>x. x \<noteq> None) (airplay_video raop1)) +
            (if Some (new_session raop sid uuid) \<noteq> None then 1 else 0)"
      using len1 j(2) vj by (intro length_filter_update) simp
    with j(3) vj have o1: "length (filter (\<lambda>x. x \<noteq> None) ?ins) = occupied raop1 + 1"
      by (simp add: occupied_def)
    show ?thesis
    proof (cases "occupied raop1 + 1 = MAX_AIRPLAY_VIDEO")
      case False
      moreover from lt cnt have "occupied raop1 < MAX_AIRPLAY_VIDEO" by simp
      ultimately show ?thesis using slots o1 by (simp add: occupied_def)
    next
      case True
      let ?w = "(vid + 1) mod MAX_AIRPLAY_VIDEO"
      have full: "length (filter (\<lambda>x. x \<noteq> None) ?ins) = length ?ins"
        using o1 True len1 by simp
      have w: "?w < length ?ins" using len1 by (simp add: MAX_AIRPLAY_VIDEO_def)
      have "length (filter (\<lambda>x. x \<noteq> None) (?ins[?w := None])) + (if ?ins ! ?w \<noteq> None then 1 else 0) =
            length (filter (\<lambda>x. x \<noteq> None) ?ins) + (if (None :: airplay_video_t option) \<noteq> None then 1 else 0)"
        using w by (intro length_filter_update) simp
      then have "length (filter (\<lambda>x. x \<noteq> None) (?ins[?w := None])) \<le> length (filter (\<lambda>x. x \<noteq> None) ?ins)"
        by (simp split: if_splits)
      moreover have "?ins ! ?w \<noteq> None"
      proof -
        from full have "\<forall>x \<in> set ?ins. x \<noteq> None"
          by (metis (mono_tags, lifting) filter_id_conv length_filter_less less_irrefl)
        with w show ?thesis by (metis nth_mem)
      qed
      ultimately have "length (filter (\<lambda>x. x \<noteq> None) (?ins[?w := None])) < length (filter (\<lambda>x. x \<noteq> None) ?ins)"
        using \<open>length (filter (\<lambda>x. x \<noteq> None) (?ins[?w := None])) + (if ?ins ! ?w \<noteq> None then 1 else 0) =
            length (filter (\<lambda>x. x \<noteq> None) ?ins) + (if (None :: airplay_video_t option) \<noteq> None then 1 else 0)\<close>
        by simp
      with full len1 slots True show ?thesis by (simp add: occupied_def)
    qed
  qed
  from pr cnt pa j vj slots nd at_vid cv len' occ show ?thesis by auto
qed

lemma get_playlist_by_uuid_loop_spec:
  "get_playlist_by_uuid_loop is raop uuid = Inr r \<Longrightarrow>
     (r = - 1 \<and> (\<forall>i\<in>set is. \<forall>av. airplay_video raop ! i = Some av \<longrightarrow> playback_uuid av \<noteq> Some uuid)) \<or>
     (\<exists>j\<in>set is. r = int j \<and> (\<exists>av. airplay_video raop ! j = Some av \<and> playback_uuid av = Some uuid))"
proof (induction "is")
  case Nil
  then show ?case by simp
next
  case (Cons i rest)
  show ?case
  proof (cases "airplay_video raop ! i")
    case None
    with Cons show ?thesis by auto
  next
    case (Some av)
    show ?thesis
    proof (cases "playback_uuid av")
      case None
      with Some Cons.prems show ?thesis by (simp add: get_playback_uuid_def)
    next
      case (Some u)
      note u = this
      show ?thesis
      proof (cases "uuid = u")
        case True
        with u \<open>airplay_video raop ! i = Some av\<close> Cons.prems show ?thesis
          by (auto simp: get_playback_uuid_def)
      next
        case False
        with u \<open>airplay_video raop ! i = Some av\<close> Cons.prems
        have "get_playlist_by_uuid_loop rest raop uuid = Inr r"
          by (simp add: get_playback_uuid_def)
        from Cons.IH [OF this] False u \<open>airplay_video raop ! i = Some av\<close> show ?thesis
          by auto
      qed
    qed
  qed
qed

lemma play_existing_result:
  assumes "vid < length (airplay_video raop)" "airplay_video raop ! vid = Some av" "length sid = 36"
  shows "play_existing raop vid sid response =
           Inr (raop\<lparr>current_video := int vid,
                     airplay_video := (airplay_video raop)[vid := Some (av\<lparr>apple_session_id := Some sid\<rparr>)]\<rparr>,
                response,
                [On_video_play (playback_location av)
                   (max (resume_position_seconds av) (start_position_seconds av))])"
  using assms
  by (simp add: play_existing_def hls_get_current_video_def set_apple_session_id_def Let_def
      set_slot_def get_resume_position_seconds_def get_start_position_seconds_def
      get_playback_location_def max_def)

text \<open>
  C6. A POST /play with a 36-byte session ID whose playback UUID is found in slot \<open>vid\<close>
  makes that slot current, replaces the Apple session ID of its session, and makes exactly
  one call, \<^verbatim>\<open>on_video_play\<close> with the playback location of the session and the
  larger of its resume and start positions: no FCUP request is issued, and the response is
  left as it was.
\<close>

theorem http_handler_play_existing_session:
  assumes len: "length (airplay_video raop) = MAX_AIRPLAY_VIDEO"
    and sid: "header_X_Apple_Session_ID request = Some sid" "length sid = 36"
    and bin: "request_datalen request > 0"
             "strstr (header_string request) ''x-apple-binary-plist'' \<noteq> None"
    and uuid: "plist_dict_get_item (request_plist request) ''uuid'' = Some (PLIST_STRING uuid)"
    and found: "get_playlist_by_uuid raop uuid = Inr (int vid)"
  shows "\<exists>av. airplay_video raop ! vid = Some av \<and> playback_uuid av = Some uuid \<and>
           http_handler_play raop request response =
             Inr (raop\<lparr>current_video := int vid,
                       airplay_video := (airplay_video raop)[vid := Some (av\<lparr>apple_session_id := Some sid\<rparr>)]\<rparr>,
                  response,
                  [On_video_play (playback_location av)
                     (max (resume_position_seconds av) (start_position_seconds av))])"
proof -
  from get_playlist_by_uuid_loop_spec [OF found [unfolded get_playlist_by_uuid_def]]
  obtain av where av: "vid < MAX_AIRPLAY_VIDEO" "airplay_video raop ! vid = Some av"
      "playback_uuid av = Some uuid"
    by auto
  from av(1) len have "vid < length (airplay_video raop)" by simp
  from play_existing_result [OF this av(2) sid(2), of response]
  have "http_handler_play raop request response =
             Inr (raop\<lparr>current_video := int vid,
                       airplay_video := (airplay_video raop)[vid := Some (av\<lparr>apple_session_id := Some sid\<rparr>)]\<rparr>,
                  response,
                  [On_video_play (playback_location av)
                     (max (resume_position_seconds av) (start_position_seconds av))])"
    using sid(1) bin uuid found
    by (simp add: http_handler_play_def plist_get_string_val_def)
  with av show ?thesis by blast
qed

lemma play_start_fetch_result:
  assumes "play_start_fetch raop vid av request response sid = Inr (raop', response', evs)"
  shows "\<exists>av'. (raop' = raop \<or> raop' = set_slot raop vid av') \<and>
           playback_uuid av' = playback_uuid av \<and>
           (\<forall>u s i. Fcup_request u s i \<in> set evs \<longrightarrow> i = FCUP_RequestID av + 1)"
proof (cases "plist_dict_get_item (request_plist request) ''Content-Location''")
  case None
  with assms show ?thesis by (auto simp: play_start_fetch_def play_error_def)
next
  case (Some cl)
  note cl = this
  show ?thesis
  proof (cases "plist_dict_get_item (request_plist request) ''clientProcName''")
    case None
    with assms cl show ?thesis by (auto simp: play_start_fetch_def play_error_def)
  next
    case (Some cpn)
    note cpn = this
    from assms cl cpn obtain name where name: "plist_get_string_val cpn = Some name"
      by (cases "plist_get_string_val cpn") (auto simp: play_start_fetch_def)
    from assms cl cpn name obtain location where loc: "plist_get_string_val cl = Some location"
      by (cases "plist_get_string_val cl") (auto simp: play_start_fetch_def Let_def)
    define av1 where "av1 = set_start_position_seconds av
        (case plist_dict_get_item (request_plist request) ''Start-Position-Seconds'' of
           None \<Rightarrow> 0 | Some node \<Rightarrow> plist_get_real_val node 0)"
    have u1: "playback_uuid av1 = playback_uuid av" "FCUP_RequestID av1 = FCUP_RequestID av"
      by (simp_all add: av1_def set_start_position_seconds_def)
    show ?thesis
    proof (cases "strstr location ''/master.m3u8''")
      case None
      with assms cl cpn name loc have "raop' = set_slot raop vid av1" "evs = [Conn_reset 2]"
        by (auto simp: play_start_fetch_def Let_def play_error_def av1_def)
      with u1 show ?thesis by auto
    next
      case (Some k)
      from assms cl cpn name loc Some
      have "\<exists>av4. raop' = set_slot (set_slot raop vid av1) vid av4 \<and>
              playback_uuid av4 = playback_uuid av1 \<and>
              evs = [Fcup_request location sid (FCUP_RequestID av1 + 1)]"
        by (auto simp: play_start_fetch_def Let_def av1_def [symmetric]
            set_playback_location_def set_uri_prefix_def set_next_media_uri_id_def
            get_next_FCUP_RequestID_def split: if_splits)
      then obtain av4 where a: "raop' = set_slot (set_slot raop vid av1) vid av4"
          "playback_uuid av4 = playback_uuid av1"
          "evs = [Fcup_request location sid (FCUP_RequestID av1 + 1)]" by blast
      have "set_slot (set_slot raop vid av1) vid av4 = set_slot raop vid av4"
        by (simp add: set_slot_def)
      with a u1 show ?thesis by auto
    qed
  qed
qed

lemma play_insert_new_session:
  assumes len: "length (airplay_video raop) = MAX_AIRPLAY_VIDEO"
    and ins: "play_insert_new raop sid uuid = Inr (raop', vid)"
  shows "vid < length (airplay_video raop')"
    and "airplay_video raop' ! vid = Some (new_session raop sid uuid)"
  using play_insert_new_spec [OF len ins] by auto

lemma http_handler_play_fcup_id:
  assumes len: "length (airplay_video raop) = MAX_AIRPLAY_VIDEO"
    and run: "http_handler_play raop request response = Inr (raop', response', evs)"
    and ev: "Fcup_request url s i \<in> set evs"
  shows "i = 1"
proof (cases "header_X_Apple_Session_ID request")
  case None
  with run ev show ?thesis by (auto simp: http_handler_play_def play_error_def)
next
  case (Some sid)
  note sid = this
  show ?thesis
  proof (cases "request_datalen request > 0 \<and>
                 strstr (header_string request) ''x-apple-binary-plist'' \<noteq> None")
    case False
    with run ev sid show ?thesis by (auto simp: http_handler_play_def play_error_def)
  next
    case True
    note bin = this
    show ?thesis
    proof (cases "plist_dict_get_item (request_plist request) ''uuid''")
      case None
      with run ev sid bin show ?thesis by (auto simp: http_handler_play_def play_error_def)
    next
      case (Some node)
      note node = this
      from run sid bin node obtain uuid where uuid: "plist_get_string_val node = Some uuid"
        by (cases "plist_get_string_val node") (auto simp: http_handler_play_def)
      from run sid bin node uuid obtain r where r: "get_playlist_by_uuid raop uuid = Inr r"
        by (cases "get_playlist_by_uuid raop uuid") (auto simp: http_handler_play_def)
      show ?thesis
      proof (cases "r \<ge> 0")
        case True
        with run sid bin node uuid r
        have "play_existing raop (nat r) sid response = Inr (raop', response', evs)"
          by (auto simp: http_handler_play_def)
        with ev show ?thesis
          by (auto simp: play_existing_def Let_def split: sum.splits option.splits)
      next
        case False
        with run sid bin node uuid r obtain raop1 vid1 where
          ins: "play_insert_new raop sid uuid = Inr (raop1, vid1)"
          by (cases "play_insert_new raop sid uuid") (auto simp: http_handler_play_def)
        note ns = play_insert_new_session [OF len ins]
        from run sid bin node uuid r False ins ns(2)
        have "play_start_fetch raop1 vid1 (new_session raop sid uuid) request response sid =
                Inr (raop', response', evs)"
          using bin by (auto simp: http_handler_play_def)
        from play_start_fetch_result [OF this] ev
        have "i = FCUP_RequestID (new_session raop sid uuid) + 1" by blast
        then show ?thesis by (simp add: new_session_def airplay_video_init_def)
      qed
    qed
  qed
qed

lemmas handler_defs =
  http_handler_play_def play_insert_new_def play_start_fetch_def play_existing_def play_error_def
  get_playlist_by_uuid_def hls_get_current_video_def set_slot_def raop_destroy_airplay_video_def
  plist_dict_get_item_def plist_get_string_val_def plist_get_real_val_def
  set_apple_session_id_def set_playback_uuid_def set_uri_prefix_def set_playback_location_def
  set_start_position_seconds_def set_next_media_uri_id_def get_next_FCUP_RequestID_def
  get_uri_local_prefix_def get_playback_uuid_def get_playback_location_def get_duration_def
  get_resume_position_seconds_def get_start_position_seconds_def
  http_response_init_def http_response_set_disconnect_def
  airplay_video_init_def MAX_AIRPLAY_VIDEO_def MIN_STORED_AIRPLAY_VIDEO_DURATION_SECONDS_def
  INT_MAX_def

lemma upt10: "[0..<10] = [0,1,2,3,4,5,6,7,8,9]"
  by (simp add: upt_rec)

lemma fresh_play_eval:
  "http_handler_play empty_registry (play_request example_uuid ''http://client:7000/x/master.m3u8'') ok_response =
     Inr (empty_registry
            \<lparr> airplay_video :=
                 (airplay_video empty_registry)
                   [0 := Some ((airplay_video_init 7100 None)
                      \<lparr> apple_session_id := Some example_sid,
                        playback_uuid := Some example_uuid,
                        uri_prefix := Some ''http://client:7000/x'',
                        playback_location := Some ''http://localhost:7100/master.m3u8'',
                        FCUP_RequestID := 1,
                        start_position_seconds := 12.5 \<rparr>)],
              current_video := 0 \<rparr>,
          ok_response,
          [Fcup_request ''http://client:7000/x/master.m3u8'' example_sid 1])"
  by (simp add: handler_defs decimal.simps upt10 empty_registry_def play_request_def example_sid_def
      example_uuid_def ok_response_def Let_def)

lemma no_master_play_eval:
  "http_handler_play empty_registry (play_request example_uuid ''http://client:7000/x/index.m3u8'') ok_response =
     Inr (empty_registry
            \<lparr> airplay_video :=
                 (airplay_video empty_registry)
                   [0 := Some ((airplay_video_init 7100 None)
                      \<lparr> apple_session_id := Some example_sid,
                        playback_uuid := Some example_uuid,
                        start_position_seconds := 12.5 \<rparr>)],
              current_video := 0 \<rparr>,
          \<lparr> status_code = 400, status_message = ''Bad Request'', headers = [], disconnect = True \<rparr>,
          [Conn_reset 2])"
  by (simp add: handler_defs decimal.simps upt10 empty_registry_def play_request_def example_sid_def
      example_uuid_def ok_response_def Let_def)

lemma reverse_general:
  "http_handler_reverse httpd conn response =
     (httpd[conn := CONNECTION_TYPE_PTTH],
      if length (filter (\<lambda>t. t = CONNECTION_TYPE_PTTH) (httpd[conn := CONNECTION_TYPE_PTTH])) = 1
      then \<lparr> status_code = 101, status_message = ''Switching Protocols'',
             headers = [(''Connection'', ''Upgrade''), (''Upgrade'', ''PTTH/1.0'')],
             disconnect = disconnect response \<rparr>
      else response)"
  by (simp add: http_handler_reverse_def httpd_set_connection_type_def
      httpd_count_connection_type_def http_response_init_def http_response_add_header_def Let_def)

lemma count_after_tag:
  assumes "conn < length httpd"
  shows "length (filter (\<lambda>t. t = CONNECTION_TYPE_PTTH) (httpd[conn := CONNECTION_TYPE_PTTH])) =
         length (filter (\<lambda>t. t = CONNECTION_TYPE_PTTH) httpd) +
           (if httpd ! conn = CONNECTION_TYPE_PTTH then 0 else 1)"
  using length_filter_update [OF assms, of "\<lambda>t. t = CONNECTION_TYPE_PTTH" CONNECTION_TYPE_PTTH]
  by (simp split: if_splits)

text \<open>
  C9 (amended). POST /reverse tags the connection as PTTH in every case. It answers 101
  Switching Protocols with the headers Connection: Upgrade and Upgrade: PTTH/1.0 when no
  connection of the server was PTTH before, and again, leaving the connection table as it
  is, when it is repeated on the only PTTH connection. When another connection is already
  PTTH the handler leaves the response as it received it.
\<close>

theorem http_handler_reverse_single_ptth:
  assumes "conn < length httpd"
  shows "fst (http_handler_reverse httpd conn response) = httpd[conn := CONNECTION_TYPE_PTTH] \<and>
         (CONNECTION_TYPE_PTTH \<notin> set httpd \<longrightarrow>
            snd (http_handler_reverse httpd conn response) = upgrade_response response) \<and>
         (httpd ! conn = CONNECTION_TYPE_PTTH \<and>
          httpd_count_connection_type httpd CONNECTION_TYPE_PTTH = 1 \<longrightarrow>
            http_handler_reverse httpd conn response = (httpd, upgrade_response response)) \<and>
         ((\<exists>other < length httpd. other \<noteq> conn \<and> httpd ! other = CONNECTION_TYPE_PTTH) \<longrightarrow>
            snd (http_handler_reverse httpd conn response) = response)"
proof -
  let ?P = "\<lambda>t. t = CONNECTION_TYPE_PTTH"
  note cnt = count_after_tag [OF assms]
  have a: "CONNECTION_TYPE_PTTH \<notin> set httpd \<Longrightarrow>
            snd (http_handler_reverse httpd conn response) = upgrade_response response"
  proof -
    assume n: "CONNECTION_TYPE_PTTH \<notin> set httpd"
    then have "filter ?P httpd = []" by (auto simp: filter_empty_conv)
    moreover from n assms have "httpd ! conn \<noteq> CONNECTION_TYPE_PTTH" by (metis nth_mem)
    ultimately show ?thesis using cnt by (simp add: reverse_general upgrade_response_def)
  qed
  have b: "httpd ! conn = CONNECTION_TYPE_PTTH \<and>
          httpd_count_connection_type httpd CONNECTION_TYPE_PTTH = 1 \<Longrightarrow>
            http_handler_reverse httpd conn response = (httpd, upgrade_response response)"
  proof -
    assume h: "httpd ! conn = CONNECTION_TYPE_PTTH \<and>
          httpd_count_connection_type httpd CONNECTION_TYPE_PTTH = 1"
    then have "httpd[conn := CONNECTION_TYPE_PTTH] = httpd" by (metis list_update_id)
    with h show ?thesis
      by (simp add: reverse_general upgrade_response_def httpd_count_connection_type_def)
  qed
  have c: "(\<exists>other < length httpd. other \<noteq> conn \<and> httpd ! other = CONNECTION_TYPE_PTTH) \<Longrightarrow>
            snd (http_handler_reverse httpd conn response) = response"
  proof -
    assume "\<exists>other < length httpd. other \<noteq> conn \<and> httpd ! other = CONNECTION_TYPE_PTTH"
    then obtain other where o: "other < length httpd" "other \<noteq> conn" "httpd ! other = CONNECTION_TYPE_PTTH"
      by blast
    let ?h = "httpd[conn := CONNECTION_TYPE_PTTH]"
    have "length (filter ?P ?h) \<ge> 2"
    proof -
      have d: "distinct [conn, other]" using o by simp
      have "\<forall>i \<in> set [conn, other]. i < length ?h \<and> ?P (?h ! i)" using o assms by simp
      have "card {i. i < length ?h \<and> ?P (?h ! i)} \<ge> card {conn, other}"
        by (rule card_mono) (use o assms in auto)
      then show ?thesis using o by (simp add: length_filter_conv_card)
    qed
    then show ?thesis by (simp add: reverse_general)
  qed
  have f: "fst (http_handler_reverse httpd conn response) = httpd[conn := CONNECTION_TYPE_PTTH]"
    by (simp add: reverse_general)
  from f a b c show ?thesis by blast
qed

lemma unfetched_zero_init: "unfetched_zero (airplay_video_init p l)"
  by (simp add: unfetched_zero_def the_store_def airplay_video_init_def)

lemma unfetched_zero_create:
  "create_media_data_store av uris n = Inr av' \<Longrightarrow> unfetched_zero av' \<and> store_ok av'"
  by (auto simp: create_media_data_store_def unfetched_zero_def the_store_def store_ok_def
      new_media_item_def split: if_splits)

lemma unfetched_zero_store:
  assumes ok: "store_ok av" and uz: "unfetched_zero av"
    and run: "store_media_playlist av pl c d e n = Inr (rc, av')"
  shows "unfetched_zero av' \<and> store_ok av'"
proof (cases "in_range av n")
  case False
  with run uz ok show ?thesis by (simp add: store_out_of_range)
next
  case True
  note r = this
  from store_ok_in_range [OF ok r] have st: "media_data_store av = Some (the_store av)"
    and len: "nat n < length (the_store av)" by simp_all
  show ?thesis
  proof (cases "slot_filled av n")
    case True
    with run uz ok r show ?thesis by (simp add: store_already [OF ok])
  next
    case False
    note nf = this
    show ?thesis
    proof (cases "\<exists>j. prior_same_uri av n j")
      case True
      then obtain j where pr: "prior_same_uri av n j" ..
      let ?x = "(the_store av ! nat n)\<lparr>num := int j\<rparr>"
      from run store_duplicate [OF ok r nf pr, of pl c d e]
      have av': "av' = av\<lparr>media_data_store := Some ((the_store av)[nat n := ?x])\<rparr>"
        by (auto split: if_splits)
      have "\<forall>item \<in> set ((the_store av)[nat n := ?x]). playlist item = None \<longrightarrow> duration item = 0"
      proof
        fix item assume "item \<in> set ((the_store av)[nat n := ?x])"
        then have "item = ?x \<or> item \<in> set (the_store av)"
          using set_update_subset_insert [of "the_store av" "nat n" ?x] by auto
        moreover have "the_store av ! nat n \<in> set (the_store av)" using len by simp
        ultimately show "playlist item = None \<longrightarrow> duration item = 0"
          using uz by (auto simp: unfetched_zero_def)
      qed
      moreover have "the_store av' = (the_store av)[nat n := ?x]" by (simp add: av' the_store_def)
      moreover have "store_ok av'" using ok len st by (simp add: av' store_ok_def)
      ultimately show ?thesis by (simp add: unfetched_zero_def)
    next
      case False
      then have np: "\<forall>j. \<not> prior_same_uri av n j" by simp
      from store_fresh [OF ok r nf np, of pl c d e] run obtain item where
        av': "av' = av\<lparr>media_data_store := Some ((the_store av)[nat n := item])\<rparr>"
        and it: "playlist item = Some pl" by auto
      have "\<forall>x \<in> set ((the_store av)[nat n := item]). playlist x = None \<longrightarrow> duration x = 0"
      proof
        fix x assume "x \<in> set ((the_store av)[nat n := item])"
        then have "x = item \<or> x \<in> set (the_store av)"
          using set_update_subset_insert [of "the_store av" "nat n" item] by auto
        then show "playlist x = None \<longrightarrow> duration x = 0"
          using uz it by (auto simp: unfetched_zero_def)
      qed
      moreover have "the_store av' = (the_store av)[nat n := item]" by (simp add: av' the_store_def)
      moreover have "store_ok av'" using ok len st by (simp add: av' store_ok_def)
      ultimately show ?thesis by (simp add: unfetched_zero_def)
    qed
  qed
qed

lemma get_duration_cases:
  "get_duration None = Inr 0 \<and>
   (\<forall>a. media_data_store a = None \<longrightarrow> get_duration (Some a) = Inr 0) \<and>
   (\<forall>a item0 rest. media_data_store a = Some (item0 # rest) \<longrightarrow>
        get_duration (Some a) = Inr (duration item0))"
  by (simp add: get_duration_def)

lemma missing_first_is_advertisement:
  assumes "unfetched_zero av" "first_media_playlist_missing av"
  shows "get_duration (Some av) = Inr 0 \<and> is_advertisement av"
  using assms
  by (auto simp: unfetched_zero_def first_media_playlist_missing_def the_store_def get_duration_def
      is_advertisement_def MIN_STORED_AIRPLAY_VIDEO_DURATION_SECONDS_def
      split: option.splits list.splits)

lemma http_handler_play_new_path:
  assumes run: "http_handler_play raop request response = Inr (raop', response', evs)"
    and sid: "header_X_Apple_Session_ID request = Some sid"
    and bin: "request_datalen request > 0"
             "strstr (header_string request) ''x-apple-binary-plist'' \<noteq> None"
    and uuid: "plist_dict_get_item (request_plist request) ''uuid'' = Some (PLIST_STRING uuid)"
    and nf: "get_playlist_by_uuid raop uuid = Inr (- 1)"
    and len: "length (airplay_video raop) = MAX_AIRPLAY_VIDEO"
  shows "\<exists>raop1 vid. play_insert_new raop sid uuid = Inr (raop1, vid) \<and>
           play_start_fetch raop1 vid (new_session raop sid uuid) request response sid =
             Inr (raop', response', evs)"
proof -
  from run sid bin uuid nf obtain raop1 vid where
    ins: "play_insert_new raop sid uuid = Inr (raop1, vid)"
    by (cases "play_insert_new raop sid uuid")
       (auto simp: http_handler_play_def plist_get_string_val_def)
  note ns = play_insert_new_session [OF len ins]
  from run sid bin uuid nf ins ns(2)
  have "play_start_fetch raop1 vid (new_session raop sid uuid) request response sid =
          Inr (raop', response', evs)"
    by (auto simp: http_handler_play_def plist_get_string_val_def)
  with ins show ?thesis by blast
qed

lemma pruned_slot_not_advertisement:
  "is_advertisement av \<Longrightarrow> Some av \<notin> set (map pruned_slot xs)"
  by (auto simp: pruned_slot_def split: option.splits if_splits)

text \<open>
  C10. \<^verbatim>\<open>get_duration\<close> is 0 for a null session and for a session without a store, and
  otherwise the duration of item 0 alone. A stored session whose first media playlist has
  not arrived has duration 0, counts as an advertisement, and is emptied from its slot by
  the pruning pass of the next POST /play of an unknown playback UUID: it is in no slot
  afterwards.
\<close>

theorem unfetched_session_is_pruned:
  assumes len: "length (airplay_video raop) = MAX_AIRPLAY_VIDEO"
    and slot: "i < MAX_AIRPLAY_VIDEO" "airplay_video raop ! i = Some av"
    and uz: "unfetched_zero av" and miss: "first_media_playlist_missing av"
    and sid: "header_X_Apple_Session_ID request = Some sid"
    and bin: "request_datalen request > 0"
             "strstr (header_string request) ''x-apple-binary-plist'' \<noteq> None"
    and uuid: "plist_dict_get_item (request_plist request) ''uuid'' = Some (PLIST_STRING uuid)"
    and nf: "get_playlist_by_uuid raop uuid = Inr (- 1)"
    and run: "http_handler_play raop request response = Inr (raop', response', evs)"
  shows "get_duration None = Inr 0 \<and>
         (\<forall>a. media_data_store a = None \<longrightarrow> get_duration (Some a) = Inr 0) \<and>
         (\<forall>a item0 rest. media_data_store a = Some (item0 # rest) \<longrightarrow>
              get_duration (Some a) = Inr (duration item0)) \<and>
         get_duration (Some av) = Inr 0 \<and> is_advertisement av \<and>
         (\<exists>raop1 cnt. prune_short_playlists [0..<MAX_AIRPLAY_VIDEO] raop 0 = Inr (raop1, cnt) \<and>
                      airplay_video raop1 ! i = None) \<and>
         Some av \<notin> set (airplay_video raop')"
proof -
  note adv = missing_first_is_advertisement [OF uz miss]
  from http_handler_play_new_path [OF run sid bin uuid nf len] obtain raop2 vid where
    ins: "play_insert_new raop sid uuid = Inr (raop2, vid)" and
    fetch: "play_start_fetch raop2 vid (new_session raop sid uuid) request response sid =
              Inr (raop', response', evs)" by blast
  from play_insert_new_spec [OF len ins] obtain raop1 where
    pr: "prune_short_playlists [0..<MAX_AIRPLAY_VIDEO] raop 0 = Inr (raop1, int (occupied raop1))"
    and slots1: "airplay_video raop1 = map pruned_slot (airplay_video raop)"
    and slots2: "airplay_video raop2 =
             (if occupied raop1 + 1 = MAX_AIRPLAY_VIDEO
              then ((airplay_video raop1)[vid := Some (new_session raop sid uuid)])
                     [(vid + 1) mod MAX_AIRPLAY_VIDEO := None]
              else (airplay_video raop1)[vid := Some (new_session raop sid uuid)])"
    by blast
  have gone1: "airplay_video raop1 ! i = None"
    using slots1 slot len adv by (simp add: pruned_slot_def)
  from get_playlist_by_uuid_loop_spec [OF nf [unfolded get_playlist_by_uuid_def]] slot
  have other_uuid: "playback_uuid av \<noteq> Some uuid" by auto
  have not1: "Some av \<notin> set (airplay_video raop1)"
    using pruned_slot_not_advertisement adv slots1 by simp
  have new_ne: "Some (new_session raop sid uuid) \<noteq> Some av"
    using other_uuid by (auto simp: new_session_def)
  have sub2: "set (airplay_video raop2) \<subseteq>
                insert None (insert (Some (new_session raop sid uuid)) (set (airplay_video raop1)))"
  proof (cases "occupied raop1 + 1 = MAX_AIRPLAY_VIDEO")
    case True
    have "set (((airplay_video raop1)[vid := Some (new_session raop sid uuid)])
                     [(vid + 1) mod MAX_AIRPLAY_VIDEO := None]) \<subseteq>
          insert None (set ((airplay_video raop1)[vid := Some (new_session raop sid uuid)]))"
      by (rule set_update_subset_insert)
    also have "\<dots> \<subseteq> insert None (insert (Some (new_session raop sid uuid)) (set (airplay_video raop1)))"
      using set_update_subset_insert [of "airplay_video raop1" vid] by auto
    finally show ?thesis using True slots2 by simp
  next
    case False
    then show ?thesis
      using slots2 set_update_subset_insert [of "airplay_video raop1" vid] by auto
  qed
  have not2: "Some av \<notin> set (airplay_video raop2)"
    using sub2 not1 new_ne by auto
  from play_start_fetch_result [OF fetch] obtain av' where
    r: "raop' = raop2 \<or> raop' = set_slot raop2 vid av'"
    and u: "playback_uuid av' = playback_uuid (new_session raop sid uuid)" by blast
  have u': "Some av' \<noteq> Some av" using u other_uuid by (auto simp: new_session_def)
  have "Some av \<notin> set (airplay_video raop')"
  proof (cases "raop' = raop2")
    case True
    with not2 show ?thesis by simp
  next
    case False
    with r have "airplay_video raop' = (airplay_video raop2)[vid := Some av']"
      by (simp add: set_slot_def)
    then have "set (airplay_video raop') \<subseteq> insert (Some av') (set (airplay_video raop2))"
      by (simp add: set_update_subset_insert)
    with not2 u' show ?thesis by auto
  qed
  with get_duration_cases adv pr gone1 show ?thesis by blast
qed

lemmas example_defs =
  empty_registry_def play_request_def example_sid_def example_uuid_def other_uuid_def
  ok_response_def fetching_session_def one_session_registry_def long_session_def
  nine_session_registry_def new_media_item_def

lemma nine_session_play_eval:
  "http_handler_play nine_session_registry (play_request other_uuid ''http://client:7000/y/master.m3u8'') ok_response =
     Inr (nine_session_registry
            \<lparr> airplay_video :=
                 (airplay_video nine_session_registry)
                   [9 := Some ((airplay_video_init 7100 None)
                      \<lparr> apple_session_id := Some example_sid,
                        playback_uuid := Some other_uuid,
                        uri_prefix := Some ''http://client:7000/y'',
                        playback_location := Some ''http://localhost:7100/master.m3u8'',
                        FCUP_RequestID := 1,
                        start_position_seconds := 12.5 \<rparr>),
                    0 := None],
              current_video := 9 \<rparr>,
          ok_response,
          [Fcup_request ''http://client:7000/y/master.m3u8'' example_sid 1])"
  by (simp add: handler_defs decimal.simps upt10 example_defs Let_def)

theorem http_handler_play_existing_session_witness:
  "length (airplay_video one_session_registry) = MAX_AIRPLAY_VIDEO \<and>
   get_playlist_by_uuid one_session_registry example_uuid = Inr 0 \<and>
   http_handler_play one_session_registry
     ((play_request example_uuid ''http://client:7000/x/master.m3u8'')
        \<lparr>header_X_Apple_Session_ID := Some ''99999999-8888-7777-6666-555555555555''\<rparr>)
     ok_response =
     Inr (one_session_registry
            \<lparr>airplay_video := (airplay_video one_session_registry)
               [0 := Some (fetching_session
                      \<lparr>apple_session_id := Some ''99999999-8888-7777-6666-555555555555''\<rparr>)]\<rparr>,
          ok_response,
          [On_video_play (Some ''http://localhost:7100/master.m3u8'') 42])"
proof -
  let ?rq = "(play_request example_uuid ''http://client:7000/x/master.m3u8'')
        \<lparr>header_X_Apple_Session_ID := Some ''99999999-8888-7777-6666-555555555555''\<rparr>"
  have len: "length (airplay_video one_session_registry) = MAX_AIRPLAY_VIDEO"
    by (simp add: example_defs MAX_AIRPLAY_VIDEO_def)
  have sid: "header_X_Apple_Session_ID ?rq = Some ''99999999-8888-7777-6666-555555555555''"
    "length ''99999999-8888-7777-6666-555555555555'' = 36"
    by (simp_all add: play_request_def)
  have bin: "request_datalen ?rq > 0" "strstr (header_string ?rq) ''x-apple-binary-plist'' \<noteq> None"
    by (simp_all add: play_request_def)
  have uuid: "plist_dict_get_item (request_plist ?rq) ''uuid'' = Some (PLIST_STRING example_uuid)"
    by (simp add: play_request_def plist_dict_get_item_def)
  have found: "get_playlist_by_uuid one_session_registry example_uuid = Inr (int 0)"
    by (simp add: handler_defs upt10 example_defs)
  from http_handler_play_existing_session [OF len sid bin uuid found, of ok_response]
  have "http_handler_play one_session_registry ?rq ok_response =
     Inr (one_session_registry
            \<lparr>current_video := int 0,
             airplay_video := (airplay_video one_session_registry)
               [0 := Some (fetching_session
                      \<lparr>apple_session_id := Some ''99999999-8888-7777-6666-555555555555''\<rparr>)]\<rparr>,
          ok_response,
          [On_video_play (playback_location fetching_session)
             (max (resume_position_seconds fetching_session) (start_position_seconds fetching_session))])"
    by (simp add: one_session_registry_def empty_registry_def)
  with len found show ?thesis
    by (simp add: one_session_registry_def empty_registry_def fetching_session_def
        airplay_video_init_def)
qed

text \<open>
  C8 (the code at the failing input). A Content-Location that contains
  \<^verbatim>\<open>/master.m3u8\<close> but does not end with it is accepted: the handler issues the FCUP
  request and answers neither 400 nor with a disconnect. The URI prefix is cut at the first
  occurrence and what follows it is kept in the playback location.
\<close>

theorem http_handler_play_accepts_inner_master_m3u8:
  "http_handler_play empty_registry
     (play_request example_uuid ''http://client:7000/x/master.m3u8?a=1'') ok_response =
     Inr (empty_registry
            \<lparr> airplay_video :=
                 (airplay_video empty_registry)
                   [0 := Some ((airplay_video_init 7100 None)
                      \<lparr> apple_session_id := Some example_sid,
                        playback_uuid := Some example_uuid,
                        uri_prefix := Some ''http://client:7000/x'',
                        playback_location := Some ''http://localhost:7100/master.m3u8?a=1'',
                        FCUP_RequestID := 1,
                        start_position_seconds := 12.5 \<rparr>)],
              current_video := 0 \<rparr>,
          ok_response,
          [Fcup_request ''http://client:7000/x/master.m3u8?a=1'' example_sid 1])"
  by (simp add: handler_defs decimal.simps upt10 empty_registry_def play_request_def example_sid_def
      example_uuid_def ok_response_def Let_def)

theorem http_handler_reverse_single_ptth_witness:
  "http_handler_reverse [CONNECTION_TYPE_AIRPLAY] 0 ok_response =
     ([CONNECTION_TYPE_PTTH], upgrade_response ok_response) \<and>
   http_handler_reverse [CONNECTION_TYPE_PTTH] 0 ok_response =
     ([CONNECTION_TYPE_PTTH], upgrade_response ok_response) \<and>
   http_handler_reverse [CONNECTION_TYPE_AIRPLAY, CONNECTION_TYPE_PTTH] 0 ok_response =
     ([CONNECTION_TYPE_PTTH, CONNECTION_TYPE_PTTH], ok_response)"
proof -
  have a: "0 < length [CONNECTION_TYPE_AIRPLAY]" by simp
  have b: "0 < length [CONNECTION_TYPE_PTTH]" by simp
  have c: "0 < length [CONNECTION_TYPE_AIRPLAY, CONNECTION_TYPE_PTTH]" by simp
  have c': "\<exists>other < length [CONNECTION_TYPE_AIRPLAY, CONNECTION_TYPE_PTTH]. other \<noteq> 0 \<and>
              [CONNECTION_TYPE_AIRPLAY, CONNECTION_TYPE_PTTH] ! other = CONNECTION_TYPE_PTTH"
    by (rule exI [of _ 1]) simp
  have b': "[CONNECTION_TYPE_PTTH] ! 0 = CONNECTION_TYPE_PTTH \<and>
            httpd_count_connection_type [CONNECTION_TYPE_PTTH] CONNECTION_TYPE_PTTH = 1"
    by (simp add: httpd_count_connection_type_def)
  from http_handler_reverse_single_ptth [OF a, of ok_response]
  have 1: "http_handler_reverse [CONNECTION_TYPE_AIRPLAY] 0 ok_response =
     ([CONNECTION_TYPE_PTTH], upgrade_response ok_response)"
    by (simp add: prod_eq_iff)
  from http_handler_reverse_single_ptth [OF b, of ok_response] b'
  have 2: "http_handler_reverse [CONNECTION_TYPE_PTTH] 0 ok_response =
     ([CONNECTION_TYPE_PTTH], upgrade_response ok_response)"
    by blast
  from http_handler_reverse_single_ptth [OF c, of ok_response] c'
  have 3: "http_handler_reverse [CONNECTION_TYPE_AIRPLAY, CONNECTION_TYPE_PTTH] 0 ok_response =
     ([CONNECTION_TYPE_PTTH, CONNECTION_TYPE_PTTH], ok_response)"
    by (simp add: prod_eq_iff)
  from 1 2 3 show ?thesis by simp
qed

text \<open>
  C9 as stated fails: a second POST /reverse on the upgraded connection is answered 101
  again; and when another connection is PTTH the handler sets no error status (a response
  that came in as 200 OK goes out as 200 OK) and still changes the tag of the connection.
\<close>

theorem second_reverse_on_upgraded_connection_gets_101:
  "status_code (snd (http_handler_reverse
      (fst (http_handler_reverse [CONNECTION_TYPE_AIRPLAY] 0 ok_response)) 0 ok_response)) = 101 \<and>
   status_code (snd (http_handler_reverse
      [CONNECTION_TYPE_AIRPLAY, CONNECTION_TYPE_PTTH] 0 ok_response)) = 200 \<and>
   fst (http_handler_reverse [CONNECTION_TYPE_AIRPLAY, CONNECTION_TYPE_PTTH] 0 ok_response) \<noteq>
     [CONNECTION_TYPE_AIRPLAY, CONNECTION_TYPE_PTTH]"
  by (simp add: http_handler_reverse_def httpd_set_connection_type_def
      httpd_count_connection_type_def http_response_init_def http_response_add_header_def
      ok_response_def Let_def)

theorem unfetched_session_is_pruned_witness:
  "length (airplay_video one_session_registry) = MAX_AIRPLAY_VIDEO \<and>
   airplay_video one_session_registry ! 0 = Some fetching_session \<and>
   unfetched_zero fetching_session \<and> first_media_playlist_missing fetching_session \<and>
   get_playlist_by_uuid one_session_registry other_uuid = Inr (- 1) \<and>
   (\<exists>raop' evs. http_handler_play one_session_registry
        (play_request other_uuid ''http://client:7000/y/master.m3u8'') ok_response =
        Inr (raop', ok_response, evs) \<and>
      Some fetching_session \<notin> set (airplay_video raop')) \<and>
   is_advertisement fetching_session"
proof -
  let ?rq = "play_request other_uuid ''http://client:7000/y/master.m3u8''"
  have len: "length (airplay_video one_session_registry) = MAX_AIRPLAY_VIDEO"
    by (simp add: example_defs MAX_AIRPLAY_VIDEO_def)
  have slot: "0 < MAX_AIRPLAY_VIDEO" "airplay_video one_session_registry ! 0 = Some fetching_session"
    by (simp_all add: one_session_registry_def empty_registry_def MAX_AIRPLAY_VIDEO_def)
  have uz: "unfetched_zero fetching_session"
    by (simp add: unfetched_zero_def the_store_def fetching_session_def airplay_video_init_def)
  have miss: "first_media_playlist_missing fetching_session"
    by (simp add: first_media_playlist_missing_def fetching_session_def airplay_video_init_def)
  have sid: "header_X_Apple_Session_ID ?rq = Some example_sid" by (simp add: play_request_def)
  have bin: "request_datalen ?rq > 0" "strstr (header_string ?rq) ''x-apple-binary-plist'' \<noteq> None"
    by (simp_all add: play_request_def)
  have uuid: "plist_dict_get_item (request_plist ?rq) ''uuid'' = Some (PLIST_STRING other_uuid)"
    by (simp add: play_request_def plist_dict_get_item_def)
  have nf: "get_playlist_by_uuid one_session_registry other_uuid = Inr (- 1)"
    by (simp add: handler_defs upt10 example_defs)
  have run: "http_handler_play one_session_registry ?rq ok_response =
     Inr (one_session_registry
            \<lparr> airplay_video :=
                 (airplay_video empty_registry)
                   [0 := Some ((airplay_video_init 7100 None)
                      \<lparr> apple_session_id := Some example_sid,
                        playback_uuid := Some other_uuid,
                        uri_prefix := Some ''http://client:7000/y'',
                        playback_location := Some ''http://localhost:7100/master.m3u8'',
                        FCUP_RequestID := 1,
                        start_position_seconds := 12.5 \<rparr>)],
              current_video := 0 \<rparr>,
          ok_response,
          [Fcup_request ''http://client:7000/y/master.m3u8'' example_sid 1])"
    by (simp add: handler_defs decimal.simps upt10 example_defs Let_def)
  from unfetched_session_is_pruned [OF len slot uz miss sid bin uuid nf run]
  have "is_advertisement fetching_session \<and>
        Some fetching_session \<notin> set (airplay_video (one_session_registry
            \<lparr> airplay_video :=
                 (airplay_video empty_registry)
                   [0 := Some ((airplay_video_init 7100 None)
                      \<lparr> apple_session_id := Some example_sid,
                        playback_uuid := Some other_uuid,
                        uri_prefix := Some ''http://client:7000/y'',
                        playback_location := Some ''http://localhost:7100/master.m3u8'',
                        FCUP_RequestID := 1,
                        start_position_seconds := 12.5 \<rparr>)],
              current_video := 0 \<rparr>))" by blast
  with len slot uz miss nf run show ?thesis by blast
qed

text \<open>
  C2 (the code at the failing input). A master playlist in which the client prefix does not
  occur: the count is 0, the rewriting loop is not entered, so nothing is copied, not even
  the text itself, and the byte-count assertion fails instead of the input being returned
  (claimed length: that of the input).
\<close>

theorem adjust_master_playlist_no_occurrence_aborts:
  "strstr master_without_prefix ''http://client:7000/x'' = None \<and>
   adjust_master_playlist master_without_prefix (int (length master_without_prefix))
     ''http://client:7000/x'' ''http://localhost:7100'' = Inl AssertFailed"
  by (simp add: adjust_master_playlist_def master_without_prefix_def count_occurrences.simps
      strstr_at_def Let_def)

lemma adjust_master_playlist_example:
  "adjust_master_playlist master_with_prefix (int (length master_with_prefix))
     ''http://client:7000/x'' ''http://localhost:7100'' =
   Inr ''#EXTM3U\<newline>#EXT-X-STREAM-INF:BANDWIDTH=1280000\<newline>http://localhost:7100/v/index.m3u8\<newline>''"
  by (simp add: adjust_master_playlist_def master_with_prefix_def count_occurrences.simps
      master_replace_loop.simps memcpy_from_def strstr_at_def Let_def)

lemma adjust_master_playlist_overlap_aborts:
  "adjust_master_playlist ''aaa'' 3 ''aa'' ''http://localhost:7100'' = Inl AssertFailed"
  by (simp add: adjust_master_playlist_def count_occurrences.simps
      master_replace_loop.simps memcpy_from_def strstr_at_def Let_def)

lemma memcpy_from_length: "memcpy_from s p k = Inr piece \<Longrightarrow> length piece = k"
  by (auto simp: memcpy_from_def split: if_splits)

lemma master_replace_loop_count:
  "master_replace_loop s datalen pre loc first_p last_p out bc = Inr (out', bc') \<Longrightarrow>
   first_p \<le> last_p \<Longrightarrow> int (length out) = bc \<Longrightarrow> int (length out') = bc'"
proof (induction s datalen pre loc first_p last_p out bc rule: master_replace_loop.induct)
  case (1 s datalen pre loc first_p last_p out byte_count)
  from "1.prems"(1) have ne: "pre \<noteq> []"
    by (subst (asm) master_replace_loop.simps) (auto split: if_splits)
  from "1.prems"(1) ne obtain piece where piece: "memcpy_from s first_p (last_p - first_p) = Inr piece"
    by (subst (asm) master_replace_loop.simps) (auto split: sum.splits)
  note lp = memcpy_from_length [OF piece]
  let ?out1 = "out @ piece @ loc"
  let ?bc1 = "byte_count + int (last_p - first_p) + int (length loc)"
  let ?f1 = "last_p + length pre"
  have inv1: "int (length ?out1) = ?bc1" using lp "1.prems"(3) by simp
  show ?case
  proof (cases "strstr_at s ?f1 pre")
    case (Some last_p1)
    with "1.prems"(1) ne piece
    have run: "master_replace_loop s datalen pre loc ?f1 last_p1 ?out1 ?bc1 = Inr (out', bc')"
      by (subst (asm) master_replace_loop.simps) (simp add: Let_def)
    from strstr_at_bounds [OF ne Some] have le: "?f1 \<le> last_p1" by simp
    from "1.IH" [OF ne piece refl refl refl Some run le inv1] show ?thesis .
  next
    case None
    with "1.prems"(1) ne piece obtain rest where
      r: "memcpy_from s ?f1 (nat (datalen - int ?f1)) = Inr rest" "\<not> datalen < int ?f1"
         "out' = ?out1 @ rest" "bc' = ?bc1 + (datalen - int ?f1)"
      by (subst (asm) master_replace_loop.simps) (auto simp: Let_def split: if_splits sum.splits)
    from memcpy_from_length [OF r(1)] r(2) have "int (length rest) = datalen - int ?f1" by simp
    with inv1 r(3,4) show ?thesis by simp
  qed
qed

lemma adjust_master_playlist_length:
  assumes "adjust_master_playlist d datalen pre loc = Inr out"
  shows "int (length out) =
           datalen + int (count_occurrences d 0 pre) * (int (length loc) - int (length pre))"
proof -
  from assms have ne: "pre \<noteq> []" by (auto simp: adjust_master_playlist_def split: if_splits)
  let ?new_len = "(int (length loc) - int (length pre)) * int (count_occurrences d 0 pre) + datalen"
  show ?thesis
  proof (cases "strstr d pre")
    case None
    with assms ne have "out = []" "0 = ?new_len"
      by (auto simp: adjust_master_playlist_def Let_def split: if_splits)
    then show ?thesis by (simp add: mult.commute)
  next
    case (Some last_p)
    with assms ne obtain bc where
      run: "master_replace_loop d datalen pre loc 0 last_p [] 0 = Inr (out, bc)" and "bc = ?new_len"
      by (auto simp: adjust_master_playlist_def Let_def split: if_splits sum.splits)
    from master_replace_loop_count [OF run] \<open>bc = ?new_len\<close> show ?thesis
      by (simp add: mult.commute)
  qed
qed

lemmas condensed_defs =
  adjust_yt_condensed_playlist_def condensed_header_def quoted_value_def expand_chunk_def
  expand_chunks.simps params_tokens.simps count_occurrences.simps memcpy_from_def
  strstr_at_def strchr_at_def strncmp_eq_def condensed_playlist_def quotes_def dq_def Let_def

lemma insert_params_count:
  "insert_params s ps end_p old_pos out bc = Inr (old_pos', out', bc') \<Longrightarrow>
   int (length out) = bc \<Longrightarrow> int (length out') = bc'"
proof (induction ps arbitrary: end_p old_pos out bc)
  case Nil
  then show ?case by simp
next
  case (Cons param rest)
  from Cons.prems(1) obtain e where
    e: "(if rest \<noteq> [] then strchr_at s end_p (CHR ''/'') else strstr_at s end_p ''#EXT'') = Some e"
    by (cases "if rest \<noteq> [] then strchr_at s end_p (CHR ''/'') else strstr_at s end_p ''#EXT''") auto
  from Cons.prems(1) e have ge: "\<not> e < old_pos" by (auto split: if_splits)
  from Cons.prems(1) e ge obtain piece where
    piece: "memcpy_from s old_pos (e - old_pos) = Inr piece"
    by (cases "memcpy_from s old_pos (e - old_pos)") auto
  from Cons.prems(1) e ge piece have run:
    "insert_params s rest (e + 1) (old_pos + (e - old_pos) + (if rest \<noteq> [] then 1 else 0))
        (out @ ''/'' @ param @ ''/'' @ piece)
        (bc + 1 + int (length param) + 1 + int (e - old_pos)) = Inr (old_pos', out', bc')"
    by simp
  have "int (length (out @ ''/'' @ param @ ''/'' @ piece)) =
          bc + 1 + int (length param) + 1 + int (e - old_pos)"
    using memcpy_from_length [OF piece] Cons.prems(2) by simp
  from Cons.IH [OF run this] show ?case .
qed

lemma expand_chunk_count:
  assumes "expand_chunk s base_uri ps pre ptr old_pos out bc = Inr (next_ptr, old_pos', out', bc')"
    and "int (length out) = bc"
  shows "int (length out') = bc'"
proof -
  from assms(1) obtain start where start: "strstr_at s ptr pre = Some start"
    by (cases "strstr_at s ptr pre") (auto simp: expand_chunk_def)
  from assms(1) start obtain piece where piece: "memcpy_from s old_pos (start - ptr) = Inr piece"
    by (cases "memcpy_from s old_pos (start - ptr)") (auto simp: expand_chunk_def)
  let ?o1 = "old_pos + (start - ptr) + length pre"
  from assms(1) start piece have run:
    "insert_params s ps ?o1 ?o1 (out @ piece @ base_uri)
        (bc + int (start - ptr) + int (length base_uri)) = Inr (old_pos', out', bc')"
    by (auto simp: expand_chunk_def Let_def split: if_splits sum.splits)
  have "int (length (out @ piece @ base_uri)) = bc + int (start - ptr) + int (length base_uri)"
    using memcpy_from_length [OF piece] assms(2) by simp
  from insert_params_count [OF run this] show ?thesis .
qed

lemma expand_chunks_count_aux:
  assumes "expand_chunks s base_uri ps pre ptr old_pos out bc = Some r"
  shows "\<forall>old_pos' out' bc'. r = Inr (old_pos', out', bc') \<longrightarrow> int (length out) = bc \<longrightarrow>
           int (length out') = bc'"
proof (rule expand_chunks.raw_induct
    [where P = "\<lambda>s base_uri ps pre ptr old_pos out bc r.
       \<forall>old_pos' out' bc'. r = Inr (old_pos', out', bc') \<longrightarrow> int (length out) = bc \<longrightarrow>
           int (length out') = bc'", OF _ assms], goal_cases)
  case (1 f s base_uri ps pre ptr old_pos out bc r)
  show ?case
  proof (intro allI impI)
    fix old_pos' out' bc'
    assume r: "r = Inr (old_pos', out', bc')" and inv: "int (length out) = bc"
    from 1(2) r obtain next_ptr o1 out1 bc1 where
      ch: "expand_chunk s base_uri ps pre ptr old_pos out bc = Inr (next_ptr, o1, out1, bc1)"
      by (cases "expand_chunk s base_uri ps pre ptr old_pos out bc") auto
    note inv1 = expand_chunk_count [OF ch inv]
    show "int (length out') = bc'"
    proof (cases next_ptr)
      case None
      with 1(2) r ch inv1 show ?thesis by simp
    next
      case (Some ptr1)
      with 1(2) ch have "f s base_uri ps pre ptr1 o1 out1 bc1 = Some r" by simp
      from 1(1) [OF this] r inv1 show ?thesis by blast
    qed
  qed
qed

lemma expand_chunks_count:
  "expand_chunks s base_uri ps pre ptr old_pos out bc = Some (Inr (old_pos', out', bc')) \<Longrightarrow>
   int (length out) = bc \<Longrightarrow> int (length out') = bc'"
  using expand_chunks_count_aux by blast

text \<open>
  The output is as long as the bytes counted: a run of the expansion that passes the
  byte-count assertion has \<open>input_len + chunks * (len(BASE-URI) + len(PARAMS))\<close> bytes,
  \<open>chunks\<close> being the number of occurrences of \<^verbatim>\<open>#EXTINF\<close>. A playlist that
  contains \<^verbatim>\<open>#EXTM3U\<close> and a newline not followed by the condensed header is returned
  as a copy equal to its input.
\<close>

lemma adjust_yt_condensed_playlist_length:
  "(\<forall>q base_uri params pre out.
       strstr s ''#EXTM3U\<newline>'' = Some q \<and>
       strncmp_eq (drop (q + 8) s) ''#YT-EXT-CONDENSED-URL'' 21 \<and>
       condensed_header s (q + 8) = Inr (base_uri, params, pre) \<and>
       adjust_yt_condensed_playlist s = Some (Inr out) \<longrightarrow>
       length out =
         length s + count_occurrences s 0 ''#EXTINF'' * (length base_uri + length params)) \<and>
   (\<forall>q. strstr s ''#EXTM3U\<newline>'' = Some q \<and>
        \<not> strncmp_eq (drop (q + 8) s) ''#YT-EXT-CONDENSED-URL'' 21 \<longrightarrow>
        adjust_yt_condensed_playlist s = Some (Inr s))"
proof (intro conjI allI impI)
  fix q base_uri params pre out
  assume a: "strstr s ''#EXTM3U\<newline>'' = Some q \<and>
       strncmp_eq (drop (q + 8) s) ''#YT-EXT-CONDENSED-URL'' 21 \<and>
       condensed_header s (q + 8) = Inr (base_uri, params, pre) \<and>
       adjust_yt_condensed_playlist s = Some (Inr out)"
  let ?tokens = "if params = [] then [] else params_tokens params"
  let ?new_len = "int (length s) +
        int (count_occurrences s 0 ''#EXTINF'') * (int (length base_uri) + int (length params))"
  from a obtain ptr where ptr: "strstr s ''#EXTINF:'' = Some ptr"
    by (cases "strstr s ''#EXTINF:''") (auto simp: adjust_yt_condensed_playlist_def Let_def)
  from a ptr obtain r where r: "expand_chunks s base_uri ?tokens pre ptr ptr (take ptr s) (int ptr) = Some r"
    by (cases "expand_chunks s base_uri ?tokens pre ptr ptr (take ptr s) (int ptr)")
       (auto simp: adjust_yt_condensed_playlist_def Let_def)
  from a ptr r obtain old_pos out1 bc where r': "r = Inr (old_pos, out1, bc)"
    by (cases r) (auto simp: adjust_yt_condensed_playlist_def Let_def)
  from a ptr r r' have fin: "\<not> length s < old_pos" "bc + int (length s - old_pos) = ?new_len"
      "out = out1 @ drop old_pos s"
    by (auto simp: adjust_yt_condensed_playlist_def Let_def split: if_splits)
  from strstr_bounds [OF _ ptr] have "ptr \<le> length s" by simp
  then have "int (length (take ptr s)) = int ptr" by simp
  from expand_chunks_count [OF r [unfolded r'] this] have "int (length out1) = bc" .
  with fin have "int (length out) = ?new_len" by simp
  then have "int (length out) =
     int (length s + count_occurrences s 0 ''#EXTINF'' * (length base_uri + length params))"
    by simp
  then show "length out =
         length s + count_occurrences s 0 ''#EXTINF'' * (length base_uri + length params)"
    by (simp only: int_int_eq)
next
  fix q
  assume "strstr s ''#EXTM3U\<newline>'' = Some q \<and>
        \<not> strncmp_eq (drop (q + 8) s) ''#YT-EXT-CONDENSED-URL'' 21"
  then show "adjust_yt_condensed_playlist s = Some (Inr s)"
    by (simp add: adjust_yt_condensed_playlist_def)
qed

lemma condensed_playlist_expanded:
  "adjust_yt_condensed_playlist (condensed_playlist ''a/'') = Some (Inr
   (quotes (''#EXTM3U\<newline>'' @
      ''#YT-EXT-CONDENSED-URL:BASE-URI=~http://h/v~,PARAMS=~sq,dur~,PREFIX=~a/~\<newline>'' @
      ''#EXT-X-VERSION:3\<newline>'' @
      ''#EXTINF:5.0,\<newline>http://h/v/sq/1/dur/5000\<newline>'' @
      ''#EXTINF:4.0,\<newline>http://h/v/sq/2/dur/4000\<newline>'' @
      ''#EXT-X-ENDLIST\<newline>'')))"
  by (simp add: condensed_defs)

lemma adjust_yt_condensed_playlist_length_example:
  "strstr (condensed_playlist ''a/'') ''#EXTM3U\<newline>'' = Some 0 \<and>
   strncmp_eq (drop (0 + 8) (condensed_playlist ''a/'')) ''#YT-EXT-CONDENSED-URL'' 21 \<and>
   condensed_header (condensed_playlist ''a/'') (0 + 8) = Inr (''http://h/v'', ''sq,dur'', ''a/'') \<and>
   count_occurrences (condensed_playlist ''a/'') 0 ''#EXTINF'' = 2 \<and>
   (\<exists>out. adjust_yt_condensed_playlist (condensed_playlist ''a/'') = Some (Inr out) \<and>
          length out = length (condensed_playlist ''a/'') + 2 * (10 + 6)) \<and>
   strstr plain_playlist ''#EXTM3U\<newline>'' = Some 0 \<and>
   adjust_yt_condensed_playlist plain_playlist = Some (Inr plain_playlist)"
proof -
  have h1: "strstr (condensed_playlist ''a/'') ''#EXTM3U\<newline>'' = Some 0"
    by (simp add: condensed_playlist_def quotes_def)
  have h2: "strncmp_eq (drop (0 + 8) (condensed_playlist ''a/'')) ''#YT-EXT-CONDENSED-URL'' 21"
    by (simp add: condensed_playlist_def quotes_def strncmp_eq_def)
  have h3: "condensed_header (condensed_playlist ''a/'') (0 + 8) = Inr (''http://h/v'', ''sq,dur'', ''a/'')"
    by (simp add: condensed_defs)
  have h4: "count_occurrences (condensed_playlist ''a/'') 0 ''#EXTINF'' = 2"
    by (simp add: condensed_defs)
  from condensed_playlist_expanded obtain out where
    out: "adjust_yt_condensed_playlist (condensed_playlist ''a/'') = Some (Inr out)" by blast
  have p1: "strstr plain_playlist ''#EXTM3U\<newline>'' = Some 0"
    by (simp add: plain_playlist_def)
  have p2: "\<not> strncmp_eq (drop (0 + 8) plain_playlist) ''#YT-EXT-CONDENSED-URL'' 21"
    by (simp add: plain_playlist_def strncmp_eq_def)
  from adjust_yt_condensed_playlist_length [of "condensed_playlist ''a/''"] h1 h2 h3 out
  have "length out = length (condensed_playlist ''a/'') +
          count_occurrences (condensed_playlist ''a/'') 0 ''#EXTINF'' *
            (length ''http://h/v'' + length ''sq,dur'')" by blast
  with h4 have len: "length out = length (condensed_playlist ''a/'') + 2 * (10 + 6)" by simp
  from adjust_yt_condensed_playlist_length [of plain_playlist] p1 p2
  have "adjust_yt_condensed_playlist plain_playlist = Some (Inr plain_playlist)" by blast
  with h1 h2 h3 h4 out len p1 show ?thesis by blast
qed

text \<open>
  C3 (the code at the failing input). A well-formed condensed playlist with the header
  values BASE-URI \<open>http://h/v\<close>, PARAMS \<open>sq,dur\<close> and PREFIX \<open>seg/\<close> and two chunks: the
  expansion stops at the assertion \<^verbatim>\<open>byte_count == (int) new_len\<close> instead of returning
  the expanded playlist. The copy loop replaces the PREFIX by the BASE-URI, so each chunk
  grows by \<open>len(BASE-URI) + len(PARAMS) + 2 - len(PREFIX)\<close> bytes, while \<^verbatim>\<open>new_len\<close> is
  computed without \<^verbatim>\<open>prefix_len\<close>.
\<close>

theorem adjust_yt_condensed_playlist_prefix_length_aborts:
  "strstr (condensed_playlist ''seg/'') ''#EXTM3U\<newline>'' = Some 0 \<and>
   strncmp_eq (drop (0 + 8) (condensed_playlist ''seg/'')) ''#YT-EXT-CONDENSED-URL'' 21 \<and>
   condensed_header (condensed_playlist ''seg/'') (0 + 8) =
     Inr (''http://h/v'', ''sq,dur'', ''seg/'') \<and>
   count_occurrences (condensed_playlist ''seg/'') 0 ''#EXTINF'' = 2 \<and>
   adjust_yt_condensed_playlist (condensed_playlist ''seg/'') = Some (Inl AssertFailed)"
  by (simp add: condensed_defs)

lemma code_loop_find:
  "code_loop t languages is =
     List.find (\<lambda>i. take 2 (lang_code (languages ! i)) = take 2 t) is"
  by (induction "is") (auto simp: strncmp_eq_def)

lemma preference_loop_preferred:
  "preference_loop l languages n = preferred_language l languages n"
proof (induction l languages n rule: preference_loop.induct)
  case (1 ptrc languages language_count)
  show ?case
  proof (cases "language_like ptrc languages language_count")
    case (Some i)
    then show ?thesis
      by (subst preference_loop.simps)
         (simp add: preferred_language_def preference_suffixes.simps [of ptrc] code_loop_find
            language_like_def)
  next
    case None
    note nomatch = this
    then have cl: "code_loop ptrc languages [1..<Suc language_count] = None"
      by (simp add: code_loop_find language_like_def)
    show ?thesis
    proof (cases "strchr ptrc (CHR '':'')")
      case None
      with nomatch cl show ?thesis
        by (subst preference_loop.simps)
           (simp add: preferred_language_def preference_suffixes.simps [of ptrc])
    next
      case (Some k)
      show ?thesis
      proof (cases "length (drop (Suc k) ptrc) < 2")
        case True
        with nomatch cl Some show ?thesis
          by (subst preference_loop.simps)
             (simp add: preferred_language_def preference_suffixes.simps [of ptrc])
      next
        case False
        from "1.IH" [OF cl Some False]
        have ih: "preference_loop (drop (Suc k) ptrc) languages language_count =
                  preferred_language (drop (Suc k) ptrc) languages language_count" .
        have "preference_loop ptrc languages language_count =
              preference_loop (drop (Suc k) ptrc) languages language_count"
          using cl Some False by (subst preference_loop.simps) simp
        moreover have "preferred_language ptrc languages language_count =
              preferred_language (drop (Suc k) ptrc) languages language_count"
          using nomatch Some False
          by (simp add: preferred_language_def preference_suffixes.simps [of ptrc])
        ultimately show ?thesis using ih by simp
      qed
    qed
  qed
qed

lemma find_snoc:
  "List.find P (xs @ [x]) =
     (case List.find P xs of Some y \<Rightarrow> Some y | None \<Rightarrow> if P x then Some x else None)"
  by (induction xs) auto

lemma default_loop_find:
  "default_loop nm languages is d =
     (case List.find (\<lambda>i. case nm of Some x \<Rightarrow> lang_name (languages ! i) = Some x
                                   | None \<Rightarrow> is_default (languages ! i)) (rev is) of
        Some i \<Rightarrow> int i
      | None \<Rightarrow> d)"
proof (induction "is" arbitrary: d)
  case Nil
  then show ?case by simp
next
  case (Cons i rest)
  show ?case
    by (simp add: Cons.IH find_snoc split: option.splits)
qed

lemma find_in_range:
  "List.find P [1..<Suc n] = Some i \<Longrightarrow> 1 \<le> i \<and> i \<le> n"
  "List.find P (rev [1..<Suc n]) = Some i \<Longrightarrow> 1 \<le> i \<and> i \<le> n"
proof -
  assume "List.find P [1..<Suc n] = Some i"
  then have "i \<in> set [1..<Suc n]" by (auto simp: find_Some_iff simp del: upt_Suc)
  then show "1 \<le> i \<and> i \<le> n" by auto
next
  assume "List.find P (rev [1..<Suc n]) = Some i"
  then have "i \<in> set (rev [1..<Suc n])"
    by (metis find_Some_iff nth_mem)
  then show "1 \<le> i \<and> i \<le> n" by auto
qed

lemma choose_language_spec:
  "choose_language nm lg languages n =
     (case fallback_language nm languages n of
        None \<Rightarrow> Inl AssertFailed
      | Some d \<Rightarrow> (case chosen_language nm lg languages n of
                     Some i \<Rightarrow> Inr i
                   | None \<Rightarrow> Inl AssertFailed))"
proof -
  have d: "default_loop nm languages [1..<Suc n] (- 1) =
             (case fallback_language nm languages n of Some i \<Rightarrow> int i | None \<Rightarrow> - 1)"
    by (cases nm) (simp_all add: default_loop_find fallback_language_def del: upt_Suc)
  show ?thesis
    unfolding choose_language_def d chosen_language_def preference_loop_preferred Let_def
    by (cases "fallback_language nm languages n"; cases lg) (simp_all split: option.splits)
qed

lemma language_like_range:
  "language_like t languages n = Some i \<Longrightarrow> 1 \<le> i \<and> i \<le> n"
  unfolding language_like_def by (rule find_in_range(1))

lemma preferred_language_range:
  "preferred_language l languages n = Some i \<Longrightarrow> 1 \<le> i \<and> i \<le> n"
  unfolding preferred_language_def
  by (auto split: option.splits dest: language_like_range)

lemma fallback_language_range:
  "fallback_language nm languages n = Some i \<Longrightarrow> 1 \<le> i \<and> i \<le> n"
  unfolding fallback_language_def
  by (cases nm; simp only: option.case; erule find_in_range(2))

lemma chosen_language_range:
  "chosen_language nm lg languages n = Some i \<Longrightarrow> 1 \<le> i \<and> i \<le> n"
  unfolding chosen_language_def
  by (auto split: option.splits dest: preferred_language_range fallback_language_range)

lemma two_language_master_slices:
  "master_playlist_process_language two_language_master = Inr (Some (two_language_slices, 2))"
  by code_simp

lemma two_language_master_french:
  "emit_slices two_language_master two_language_slices ''fr'' = french_master"
  by code_simp

lemma two_language_slices_2:
  "two_language_slices ! 2 =
     \<lparr>lang_start = 128, lang_len = 118, is_default = False, lang_code = ''fr'',
        lang_name = Some ''French''\<rparr>"
  by (simp add: two_language_slices_def)

lemma two_language_choice:
  "choose_language None (Some ''de:fr'') two_language_slices 2 = Inr 2"
  "choose_language (Some ''English'') (Some ''fr'') two_language_slices 2 = Inr 2"
  by code_simp+

lemmas two_language_eval =
  select_master_playlist_language_def two_language_master_slices two_language_master_french
  two_language_choice two_language_slices_2 set_language_name_def set_language_code_def
  airplay_video_init_def Let_def

text \<open>
  C1 (amended). Whenever \<^verbatim>\<open>select_master_playlist_language\<close> returns on a master playlist
  with language entries, the language it emits and stores is the one of this priority order:
  first the operator preference list, read token by token, a token selecting the first
  language in list order whose code has the same first two characters; only when no token
  selects a language, the last language whose NAME equals the stored \<open>language_name\<close>, or,
  with no stored name, the last language marked DEFAULT. That fallback language must exist
  in every case, the preference list being consulted after the assertion on it. The output
  is made of the slices without a code and of those with the code of the chosen language.
\<close>

theorem select_master_playlist_language_priority:
  assumes parsed: "master_playlist_process_language s = Inr (Some (languages, language_count))"
    and sel: "select_master_playlist_language av s = Inr (out, av')"
  shows "\<exists>i nm. chosen_language (language_name av) (lang av) languages language_count = Some i
           \<and> fallback_language (language_name av) languages language_count \<noteq> None
           \<and> 1 \<le> i \<and> i \<le> language_count
           \<and> lang_name (languages ! i) = Some nm
           \<and> av' = av\<lparr>language_name := Some nm, language_code := Some (lang_code (languages ! i))\<rparr>
           \<and> out = emit_slices s languages (lang_code (languages ! i))"
proof -
  from sel parsed obtain i where
    ch: "choose_language (language_name av) (lang av) languages language_count = Inr i"
    by (auto simp: select_master_playlist_language_def split: sum.splits)
  from ch have fb: "fallback_language (language_name av) languages language_count \<noteq> None"
    and ci: "chosen_language (language_name av) (lang av) languages language_count = Some i"
    by (auto simp: choose_language_spec split: option.splits)
  from sel parsed ch obtain nm where nm: "lang_name (languages ! i) = Some nm"
    by (auto simp: select_master_playlist_language_def split: option.splits)
  from sel parsed ch nm
  have "av' = av\<lparr>language_name := Some nm, language_code := Some (lang_code (languages ! i))\<rparr>"
    and "out = emit_slices s languages (lang_code (languages ! i))"
    by (auto simp: select_master_playlist_language_def set_language_name_def
          set_language_code_def Let_def split: if_splits sum.splits)
  with ci fb nm chosen_language_range [OF ci] show ?thesis by blast
qed

text \<open>
  An instance: no stored name, preference list \<open>de:fr\<close>, a playlist in English (the default)
  and French. The second token selects French.
\<close>

theorem select_master_playlist_language_priority_witness:
  "master_playlist_process_language two_language_master = Inr (Some (two_language_slices, 2))
   \<and> select_master_playlist_language (airplay_video_init 7100 (Some ''de:fr'')) two_language_master
       = Inr (french_master,
              (airplay_video_init 7100 (Some ''de:fr''))
                \<lparr>language_name := Some ''French'', language_code := Some ''fr''\<rparr>)
   \<and> chosen_language None (Some ''de:fr'') two_language_slices 2 = Some 2"
proof -
  have sel: "select_master_playlist_language (airplay_video_init 7100 (Some ''de:fr''))
        two_language_master
       = Inr (french_master,
              (airplay_video_init 7100 (Some ''de:fr''))
                \<lparr>language_name := Some ''French'', language_code := Some ''fr''\<rparr>)"
    by (simp add: two_language_eval)
  from select_master_playlist_language_priority [OF two_language_master_slices sel]
  obtain i nm where
    "chosen_language (language_name (airplay_video_init 7100 (Some ''de:fr'')))
       (lang (airplay_video_init 7100 (Some ''de:fr''))) two_language_slices 2 = Some i"
    and "lang_name (two_language_slices ! i) = Some nm"
    and "(airplay_video_init 7100 (Some ''de:fr''))
           \<lparr>language_name := Some ''French'', language_code := Some ''fr''\<rparr>
         = (airplay_video_init 7100 (Some ''de:fr''))
           \<lparr>language_name := Some nm, language_code := Some (lang_code (two_language_slices ! i))\<rparr>"
    and "1 \<le> i" and "i \<le> 2"
    by blast
  hence "chosen_language None (Some ''de:fr'') two_language_slices 2 = Some 2"
    by (auto simp: airplay_video_init_def two_language_slices_def nth_Cons' le_Suc_eq
          split: if_splits)
  with sel two_language_master_slices show ?thesis by simp
qed

text \<open>
  C1 as stated fails: the session has the stored name \<open>English\<close>, which is the NAME of the
  first language entry, and the preference list \<open>fr\<close>. The output holds the French entry
  only, and the stored name and code become \<open>French\<close> and \<open>fr\<close>.
\<close>

theorem stored_language_name_overridden_by_preference:
  "select_master_playlist_language
     ((airplay_video_init 7100 (Some ''fr''))\<lparr>language_name := Some ''English''\<rparr>)
     two_language_master
   = Inr (french_master,
          (airplay_video_init 7100 (Some ''fr''))
            \<lparr>language_name := Some ''French'', language_code := Some ''fr''\<rparr>)"
  by (simp add: two_language_eval)

lemma is_advertisement_spec:
  "media_data_store av \<noteq> Some [] \<Longrightarrow> is_advertisement av = advertisement av"
  by (auto simp: is_advertisement_def advertisement_def stored_duration_def get_duration_def
      MIN_STORED_AIRPLAY_VIDEO_DURATION_SECONDS_def split: option.splits list.splits)

lemma pruned_slot_spec:
  assumes "stores_nonempty raop"
  shows "map pruned_slot (airplay_video raop) = pruned_registry (airplay_video raop)"
  unfolding pruned_registry_def
proof (rule map_cong [OF refl])
  fix x assume "x \<in> set (airplay_video raop)"
  with assms show "pruned_slot x = (case x of None \<Rightarrow> None | Some av \<Rightarrow> if advertisement av then None else Some av)"
    by (cases x) (auto simp: stores_nonempty_def list_all_iff pruned_slot_def is_advertisement_spec)
qed

lemma get_duration_total:
  "media_data_store av \<noteq> Some [] \<Longrightarrow> \<exists>d. get_duration (Some av) = Inr d"
  by (auto simp: get_duration_def split: option.splits list.splits)

lemma prune_short_playlists_total:
  assumes "stores_nonempty raop" and "\<forall>i\<in>set is. i < length (airplay_video raop)"
  shows "\<exists>raop1 cnt1. prune_short_playlists is raop cnt = Inr (raop1, cnt1)"
  using assms
proof (induction "is" arbitrary: raop cnt)
  case Nil
  then show ?case by simp
next
  case (Cons i rest)
  from Cons.prems(2) have i: "i < length (airplay_video raop)"
    and rest: "\<forall>k\<in>set rest. k < length (airplay_video raop)" by simp_all
  show ?case
  proof (cases "airplay_video raop ! i")
    case None
    with Cons.IH [OF Cons.prems(1) rest] show ?thesis by simp
  next
    case (Some av)
    have kept: "stores_nonempty (raop_destroy_airplay_video raop i)"
      using Cons.prems(1) set_update_subset_insert [of "airplay_video raop" i None]
      by (auto simp: stores_nonempty_def list_all_iff raop_destroy_airplay_video_def)
    have rest': "\<forall>k\<in>set rest. k < length (airplay_video (raop_destroy_airplay_video raop i))"
      using rest by (simp add: raop_destroy_airplay_video_def)
    from Some i have "Some av \<in> set (airplay_video raop)" by (metis nth_mem)
    with Cons.prems(1) have "media_data_store av \<noteq> Some []"
      by (auto simp: stores_nonempty_def list_all_iff)
    from get_duration_total [OF this] obtain d where d: "get_duration (Some av) = Inr d" ..
    with Some Cons.IH [OF Cons.prems(1) rest, of "cnt + 1"] Cons.IH [OF kept rest', of cnt]
    show ?thesis by simp
  qed
qed

lemma occupied_pruned_le:
  "length (filter (\<lambda>x. x \<noteq> None) (pruned_registry slots)) \<le> length (filter (\<lambda>x. x \<noteq> None) slots)"
proof (induction slots)
  case Nil
  then show ?case by (simp add: pruned_registry_def)
next
  case (Cons x xs)
  then show ?case by (cases x) (auto simp: pruned_registry_def)
qed

lemma play_insert_new_total:
  assumes len: "length (airplay_video raop) = MAX_AIRPLAY_VIDEO"
    and inv: "occupied raop < MAX_AIRPLAY_VIDEO"
    and wf: "stores_nonempty raop"
    and sid: "length sid = 36" and uuid: "length uuid = 36"
  shows "\<exists>raop2 vid. play_insert_new raop sid uuid = Inr (raop2, vid)"
proof -
  have b: "\<forall>i\<in>set [0..<MAX_AIRPLAY_VIDEO]. i < length (airplay_video raop)" using len by simp
  from prune_short_playlists_total [OF wf b] obtain raop1 cnt where
    pr: "prune_short_playlists [0..<MAX_AIRPLAY_VIDEO] raop 0 = Inr (raop1, cnt)" by blast
  note pa = prune_all_slots [OF len pr]
  from pa pruned_slot_spec [OF wf] have slots1: "airplay_video raop1 = pruned_registry (airplay_video raop)"
    by simp
  from pa have cnt: "cnt = int (occupied raop1)" by simp
  have "occupied raop1 \<le> occupied raop"
    using occupied_pruned_le [of "airplay_video raop"] by (simp add: occupied_def slots1)
  with inv have occ1: "occupied raop1 < MAX_AIRPLAY_VIDEO" by simp
  from slots1 len have len1: "length (airplay_video raop1) = MAX_AIRPLAY_VIDEO"
    by (simp add: pruned_registry_def)
  define r where "r = find_empty_slot [0..<MAX_AIRPLAY_VIDEO] raop1"
  have r0: "0 \<le> r"
  proof (rule ccontr)
    assume "\<not> 0 \<le> r"
    with find_empty_slot_upt [of 0 MAX_AIRPLAY_VIDEO raop1 r]
    have full: "\<forall>i<MAX_AIRPLAY_VIDEO. airplay_video raop1 ! i \<noteq> None" by (auto simp: r_def)
    have "filter (\<lambda>x. x \<noteq> None) (airplay_video raop1) = airplay_video raop1"
      using full len1 by (auto simp: filter_id_conv in_set_conv_nth)
    with len1 occ1 show False by (simp add: occupied_def)
  qed
  with find_empty_slot_upt [of 0 MAX_AIRPLAY_VIDEO raop1 r] obtain j where
    j: "r = int j" "j < MAX_AIRPLAY_VIDEO" by (auto simp: r_def)
  let ?av0 = "airplay_video_init (raop_port raop1) (raop_lang raop1)"
  let ?raop2 = "set_slot (raop1\<lparr>current_video := r\<rparr>) (nat r) ?av0"
  have cur: "hls_get_current_video ?raop2 = Inr (Some ?av0)"
    using j len1 by (simp add: hls_get_current_video_def set_slot_def)
  from pr cnt occ1 r0 cur sid uuid show ?thesis
    by (simp add: play_insert_new_def Let_def r_def [symmetric] set_apple_session_id_def
        set_playback_uuid_def)
qed

text \<open>
  C5. A POST /play whose playback UUID is not stored, on a table of 10 slots with fewer than
  10 sessions, always gets through the insertion: it first empties every slot whose session
  lasts less than 90 seconds, then puts the new session into the first slot that is empty
  after that, \<open>vid\<close>, and makes it current; when this fills the table, slot
  \<open>(vid + 1) mod 10\<close> is emptied, which is never \<open>vid\<close>. The table then has fewer than
  10 sessions again, and the rest of the handler changes no slot but \<open>vid\<close>, which keeps
  the session of the new UUID.
\<close>

theorem play_new_session_registry:
  assumes len: "length (airplay_video raop) = MAX_AIRPLAY_VIDEO"
    and inv: "occupied raop < MAX_AIRPLAY_VIDEO"
    and wf: "stores_nonempty raop"
    and sid: "header_X_Apple_Session_ID request = Some sid" "length sid = 36"
    and bin: "request_datalen request > 0"
             "strstr (header_string request) ''x-apple-binary-plist'' \<noteq> None"
    and uuid: "plist_dict_get_item (request_plist request) ''uuid'' = Some (PLIST_STRING uuid)"
              "length uuid = 36"
    and nf: "get_playlist_by_uuid raop uuid = Inr (- 1)"
  shows "\<exists>raop1 raop2 vid.
           prune_short_playlists [0..<MAX_AIRPLAY_VIDEO] raop 0 = Inr (raop1, int (occupied raop1)) \<and>
           airplay_video raop1 = pruned_registry (airplay_video raop) \<and>
           vid < MAX_AIRPLAY_VIDEO \<and> airplay_video raop1 ! vid = None \<and>
           (\<forall>k<vid. airplay_video raop1 ! k \<noteq> None) \<and>
           play_insert_new raop sid uuid = Inr (raop2, vid) \<and>
           airplay_video raop2 =
             (if occupied raop1 + 1 = MAX_AIRPLAY_VIDEO
              then ((airplay_video raop1)[vid := Some (new_session raop sid uuid)])
                     [(vid + 1) mod MAX_AIRPLAY_VIDEO := None]
              else (airplay_video raop1)[vid := Some (new_session raop sid uuid)]) \<and>
           (vid + 1) mod MAX_AIRPLAY_VIDEO \<noteq> vid \<and>
           airplay_video raop2 ! vid = Some (new_session raop sid uuid) \<and>
           current_video raop2 = int vid \<and>
           length (airplay_video raop2) = MAX_AIRPLAY_VIDEO \<and>
           occupied raop2 < MAX_AIRPLAY_VIDEO \<and>
           http_handler_play raop request response =
             play_start_fetch raop2 vid (new_session raop sid uuid) request response sid \<and>
           (\<forall>raop' response' evs.
              http_handler_play raop request response = Inr (raop', response', evs) \<longrightarrow>
              length (airplay_video raop') = MAX_AIRPLAY_VIDEO \<and>
              occupied raop' < MAX_AIRPLAY_VIDEO \<and>
              current_video raop' = int vid \<and>
              (\<exists>av'. airplay_video raop' ! vid = Some av' \<and> playback_uuid av' = Some uuid) \<and>
              (\<forall>k<MAX_AIRPLAY_VIDEO. k \<noteq> vid \<longrightarrow>
                 airplay_video raop' ! k = airplay_video raop2 ! k))"
proof -
  from play_insert_new_total [OF len inv wf sid(2) uuid(2)] obtain raop2 vid where
    ins: "play_insert_new raop sid uuid = Inr (raop2, vid)" by blast
  from play_insert_new_spec [OF len ins] obtain raop1 where
    pr: "prune_short_playlists [0..<MAX_AIRPLAY_VIDEO] raop 0 = Inr (raop1, int (occupied raop1))"
    and slots1': "airplay_video raop1 = map pruned_slot (airplay_video raop)"
    and vid: "vid < MAX_AIRPLAY_VIDEO" "airplay_video raop1 ! vid = None"
             "\<forall>i<vid. airplay_video raop1 ! i \<noteq> None"
    and slots2: "airplay_video raop2 =
             (if occupied raop1 + 1 = MAX_AIRPLAY_VIDEO
              then ((airplay_video raop1)[vid := Some (new_session raop sid uuid)])
                     [(vid + 1) mod MAX_AIRPLAY_VIDEO := None]
              else (airplay_video raop1)[vid := Some (new_session raop sid uuid)])"
    and nd: "(vid + 1) mod MAX_AIRPLAY_VIDEO \<noteq> vid"
    and at2: "airplay_video raop2 ! vid = Some (new_session raop sid uuid)"
    and cur2: "current_video raop2 = int vid"
    and len2: "length (airplay_video raop2) = MAX_AIRPLAY_VIDEO"
    and occ2: "occupied raop2 < MAX_AIRPLAY_VIDEO"
    by blast
  from slots1' pruned_slot_spec [OF wf]
  have slots1: "airplay_video raop1 = pruned_registry (airplay_video raop)" by simp
  have handler: "http_handler_play raop request response =
             play_start_fetch raop2 vid (new_session raop sid uuid) request response sid"
    using sid(1) bin uuid(1) nf ins at2
    by (simp add: http_handler_play_def plist_get_string_val_def)
  have after: "\<forall>raop' response' evs.
              http_handler_play raop request response = Inr (raop', response', evs) \<longrightarrow>
              length (airplay_video raop') = MAX_AIRPLAY_VIDEO \<and>
              occupied raop' < MAX_AIRPLAY_VIDEO \<and>
              current_video raop' = int vid \<and>
              (\<exists>av'. airplay_video raop' ! vid = Some av' \<and> playback_uuid av' = Some uuid) \<and>
              (\<forall>k<MAX_AIRPLAY_VIDEO. k \<noteq> vid \<longrightarrow>
                 airplay_video raop' ! k = airplay_video raop2 ! k)"
  proof (intro allI impI)
    fix raop' response' evs
    assume "http_handler_play raop request response = Inr (raop', response', evs)"
    with handler have fetch:
      "play_start_fetch raop2 vid (new_session raop sid uuid) request response sid =
         Inr (raop', response', evs)" by simp
    from play_start_fetch_result [OF fetch] obtain av' where
      r: "raop' = raop2 \<or> raop' = set_slot raop2 vid av'"
      and u: "playback_uuid av' = playback_uuid (new_session raop sid uuid)" by blast
    have nu: "playback_uuid (new_session raop sid uuid) = Some uuid" by (simp add: new_session_def)
    define av2 where "av2 = (if raop' = raop2 then new_session raop sid uuid else av')"
    have same2: "(airplay_video raop2)[vid := Some (new_session raop sid uuid)] = airplay_video raop2"
      using at2 by (metis list_update_id)
    have slots': "airplay_video raop' = (airplay_video raop2)[vid := Some av2]"
    proof (cases "raop' = raop2")
      case True
      then show ?thesis using same2 by (simp add: av2_def)
    next
      case False
      with r show ?thesis by (auto simp: av2_def set_slot_def)
    qed
    have cur': "current_video raop' = int vid"
      using r cur2 by (auto simp: set_slot_def)
    have u2: "playback_uuid av2 = Some uuid" using u nu by (simp add: av2_def)
    have len': "length (airplay_video raop') = MAX_AIRPLAY_VIDEO" using slots' len2 by simp
    have occ': "occupied raop' < MAX_AIRPLAY_VIDEO"
    proof -
      have "length (filter (\<lambda>x. x \<noteq> None) ((airplay_video raop2)[vid := Some av2])) +
              (if airplay_video raop2 ! vid \<noteq> None then 1 else 0) =
            length (filter (\<lambda>x. x \<noteq> None) (airplay_video raop2)) + (if Some av2 \<noteq> None then 1 else 0)"
        using len2 vid(1) by (intro length_filter_update) simp
      with at2 have "occupied raop' = occupied raop2" by (simp add: occupied_def slots')
      with occ2 show ?thesis by simp
    qed
    have at': "airplay_video raop' ! vid = Some av2" using slots' len2 vid(1) by simp
    have others: "\<forall>k<MAX_AIRPLAY_VIDEO. k \<noteq> vid \<longrightarrow> airplay_video raop' ! k = airplay_video raop2 ! k"
      using slots' by (simp add: nth_list_update)
    from len' occ' cur' at' u2 others
    show "length (airplay_video raop') = MAX_AIRPLAY_VIDEO \<and>
              occupied raop' < MAX_AIRPLAY_VIDEO \<and>
              current_video raop' = int vid \<and>
              (\<exists>av'. airplay_video raop' ! vid = Some av' \<and> playback_uuid av' = Some uuid) \<and>
              (\<forall>k<MAX_AIRPLAY_VIDEO. k \<noteq> vid \<longrightarrow>
                 airplay_video raop' ! k = airplay_video raop2 ! k)" by blast
  qed
  from pr slots1 vid ins slots2 nd at2 cur2 len2 occ2 handler after show ?thesis by blast
qed

lemma advertisement_play_eval:
  "http_handler_play advertisement_registry (play_request other_uuid ''http://client:7000/y/master.m3u8'') ok_response =
     Inr (advertisement_registry
            \<lparr> airplay_video :=
                 (airplay_video advertisement_registry)
                   [1 := Some ((airplay_video_init 7100 None)
                      \<lparr> apple_session_id := Some example_sid,
                        playback_uuid := Some other_uuid,
                        uri_prefix := Some ''http://client:7000/y'',
                        playback_location := Some ''http://localhost:7100/master.m3u8'',
                        FCUP_RequestID := 1,
                        start_position_seconds := 12.5 \<rparr>)] \<rparr>,
          ok_response,
          [Fcup_request ''http://client:7000/y/master.m3u8'' example_sid 1])"
  by (simp add: handler_defs decimal.simps upt10 example_defs advertisement_registry_def Let_def)

lemma advertisement_registry_pruned:
  "pruned_registry (airplay_video advertisement_registry) =
     Some (long_session (CHR ''C'')) # None #
       map (\<lambda>c. Some (long_session c)) ''DEFGHIJ'' @ [None]"
  "pruned_registry (airplay_video nine_session_registry) = airplay_video nine_session_registry"
  by (simp_all add: pruned_registry_def advertisement_def stored_duration_def
      advertisement_registry_def nine_session_registry_def empty_registry_def long_session_def
      fetching_session_def airplay_video_init_def)

text \<open>
  Two instances. In the first table the session of slot 1 is an advertisement: its slot is
  emptied and taken by the new session, although slot 9 was empty before. The second table
  holds nine long sessions: the new session goes to slot 9 and slot 0 is emptied.
\<close>

theorem play_new_session_registry_witness:
  "length (airplay_video advertisement_registry) = MAX_AIRPLAY_VIDEO \<and>
   occupied advertisement_registry < MAX_AIRPLAY_VIDEO \<and>
   stores_nonempty advertisement_registry \<and>
   get_playlist_by_uuid advertisement_registry other_uuid = Inr (- 1) \<and>
   airplay_video advertisement_registry ! 1 = Some fetching_session \<and>
   airplay_video advertisement_registry ! 9 = None \<and>
   (\<exists>raop2. play_insert_new advertisement_registry example_sid other_uuid = Inr (raop2, 1) \<and>
            airplay_video raop2 =
              Some (long_session (CHR ''C'')) #
              Some (new_session advertisement_registry example_sid other_uuid) #
              map (\<lambda>c. Some (long_session c)) ''DEFGHIJ'' @ [None]) \<and>
   (\<exists>raop' evs.
      http_handler_play advertisement_registry
        (play_request other_uuid ''http://client:7000/y/master.m3u8'') ok_response =
        Inr (raop', ok_response, evs) \<and>
      occupied raop' < MAX_AIRPLAY_VIDEO \<and> current_video raop' = 1) \<and>
   length (airplay_video nine_session_registry) = MAX_AIRPLAY_VIDEO \<and>
   occupied nine_session_registry < MAX_AIRPLAY_VIDEO \<and>
   stores_nonempty nine_session_registry \<and>
   get_playlist_by_uuid nine_session_registry other_uuid = Inr (- 1) \<and>
   (\<exists>raop2. play_insert_new nine_session_registry example_sid other_uuid = Inr (raop2, 9) \<and>
            airplay_video raop2 =
              None # map (\<lambda>c. Some (long_session c)) ''DEFGHIJK'' @
              [Some (new_session nine_session_registry example_sid other_uuid)])"
proof -
  let ?rq = "play_request other_uuid ''http://client:7000/y/master.m3u8''"
  have sid: "header_X_Apple_Session_ID ?rq = Some example_sid" "length example_sid = 36"
    by (simp_all add: play_request_def example_sid_def)
  have bin: "request_datalen ?rq > 0" "strstr (header_string ?rq) ''x-apple-binary-plist'' \<noteq> None"
    by (simp_all add: play_request_def)
  have uuid: "plist_dict_get_item (request_plist ?rq) ''uuid'' = Some (PLIST_STRING other_uuid)"
    "length other_uuid = 36"
    by (simp_all add: play_request_def plist_dict_get_item_def other_uuid_def)
  have len: "length (airplay_video advertisement_registry) = MAX_AIRPLAY_VIDEO"
    by (simp add: advertisement_registry_def empty_registry_def MAX_AIRPLAY_VIDEO_def)
  have inv: "occupied advertisement_registry < MAX_AIRPLAY_VIDEO"
    by (simp add: occupied_def advertisement_registry_def empty_registry_def MAX_AIRPLAY_VIDEO_def)
  have wf: "stores_nonempty advertisement_registry"
    by (simp add: stores_nonempty_def advertisement_registry_def example_defs airplay_video_init_def)
  have nf: "get_playlist_by_uuid advertisement_registry other_uuid = Inr (- 1)"
    by (simp add: handler_defs upt10 example_defs advertisement_registry_def)
  have s1: "airplay_video advertisement_registry ! 1 = Some fetching_session"
    and s9: "airplay_video advertisement_registry ! 9 = None"
    by (simp_all add: advertisement_registry_def empty_registry_def)
  from play_new_session_registry [OF len inv wf sid bin uuid nf, of ok_response]
  obtain raop1 raop2 vid where
    slots1: "airplay_video raop1 = pruned_registry (airplay_video advertisement_registry)"
    and vid: "airplay_video raop1 ! vid = None" "\<forall>k<vid. airplay_video raop1 ! k \<noteq> None"
    and ins: "play_insert_new advertisement_registry example_sid other_uuid = Inr (raop2, vid)"
    and slots2: "airplay_video raop2 =
             (if occupied raop1 + 1 = MAX_AIRPLAY_VIDEO
              then ((airplay_video raop1)[vid := Some (new_session advertisement_registry example_sid other_uuid)])
                     [(vid + 1) mod MAX_AIRPLAY_VIDEO := None]
              else (airplay_video raop1)[vid := Some (new_session advertisement_registry example_sid other_uuid)])"
    and after: "\<forall>raop' response' evs.
              http_handler_play advertisement_registry ?rq ok_response = Inr (raop', response', evs) \<longrightarrow>
              occupied raop' < MAX_AIRPLAY_VIDEO \<and> current_video raop' = int vid"
    by blast
  have v1: "vid = 1"
  proof -
    have "airplay_video raop1 ! 0 \<noteq> None" "airplay_video raop1 ! 1 = None"
      by (simp_all add: slots1 advertisement_registry_pruned)
    with vid show ?thesis by (metis less_one linorder_neqE_nat)
  qed
  have o1: "occupied raop1 = 8"
    by (simp add: occupied_def slots1 advertisement_registry_pruned)
  have a: "\<exists>raop2. play_insert_new advertisement_registry example_sid other_uuid = Inr (raop2, 1) \<and>
            airplay_video raop2 =
              Some (long_session (CHR ''C'')) #
              Some (new_session advertisement_registry example_sid other_uuid) #
              map (\<lambda>c. Some (long_session c)) ''DEFGHIJ'' @ [None]"
    using ins slots2 v1 o1
    by (simp add: slots1 advertisement_registry_pruned MAX_AIRPLAY_VIDEO_def)
  have b: "\<exists>raop' evs.
      http_handler_play advertisement_registry ?rq ok_response = Inr (raop', ok_response, evs) \<and>
      occupied raop' < MAX_AIRPLAY_VIDEO \<and> current_video raop' = 1"
    using after v1 advertisement_play_eval by simp
  have len9: "length (airplay_video nine_session_registry) = MAX_AIRPLAY_VIDEO"
    by (simp add: example_defs MAX_AIRPLAY_VIDEO_def)
  have inv9: "occupied nine_session_registry < MAX_AIRPLAY_VIDEO"
    by (simp add: occupied_def nine_session_registry_def empty_registry_def MAX_AIRPLAY_VIDEO_def)
  have wf9: "stores_nonempty nine_session_registry"
    by (simp add: stores_nonempty_def example_defs airplay_video_init_def)
  have nf9: "get_playlist_by_uuid nine_session_registry other_uuid = Inr (- 1)"
    by (simp add: handler_defs upt10 example_defs)
  from play_new_session_registry [OF len9 inv9 wf9 sid bin uuid nf9, of ok_response]
  obtain raop1 raop2 vid where
    slots1: "airplay_video raop1 = pruned_registry (airplay_video nine_session_registry)"
    and vid: "vid < MAX_AIRPLAY_VIDEO" "airplay_video raop1 ! vid = None"
    and ins: "play_insert_new nine_session_registry example_sid other_uuid = Inr (raop2, vid)"
    and slots2: "airplay_video raop2 =
             (if occupied raop1 + 1 = MAX_AIRPLAY_VIDEO
              then ((airplay_video raop1)[vid := Some (new_session nine_session_registry example_sid other_uuid)])
                     [(vid + 1) mod MAX_AIRPLAY_VIDEO := None]
              else (airplay_video raop1)[vid := Some (new_session nine_session_registry example_sid other_uuid)])"
    by blast
  have e9: "airplay_video raop1 = map (\<lambda>c. Some (long_session c)) ''CDEFGHIJK'' @ [None]"
  proof -
    have "airplay_video raop1 = airplay_video nine_session_registry"
      by (simp only: slots1 advertisement_registry_pruned(2))
    then show ?thesis by (simp add: nine_session_registry_def empty_registry_def)
  qed
  have v9: "vid = 9"
  proof (rule ccontr)
    assume "vid \<noteq> 9"
    with vid(1) have "vid < 9" by (simp add: MAX_AIRPLAY_VIDEO_def)
    then have "vid \<in> {0, 1, 2, 3, 4, 5, 6, 7, 8}" by auto
    with e9 have "airplay_video raop1 ! vid \<noteq> None" by auto
    with vid(2) show False by simp
  qed
  have o9: "occupied raop1 = 9"
    by (simp add: occupied_def e9)
  have c: "\<exists>raop2. play_insert_new nine_session_registry example_sid other_uuid = Inr (raop2, 9) \<and>
            airplay_video raop2 =
              None # map (\<lambda>c. Some (long_session c)) ''DEFGHIJK'' @
              [Some (new_session nine_session_registry example_sid other_uuid)]"
    using ins slots2 v9 o9
    by (simp add: e9 MAX_AIRPLAY_VIDEO_def)
  from len inv wf nf s1 s9 a b len9 inv9 wf9 nf9 c show ?thesis by blast
qed

lemma select_master_playlist_language_counter:
  assumes "select_master_playlist_language av pl = Inr (pl1, av1)"
  shows "FCUP_RequestID av1 = FCUP_RequestID av \<and> playback_uuid av1 = playback_uuid av"
  using assms
  by (auto simp: select_master_playlist_language_def set_language_name_def set_language_code_def
      Let_def split: sum.splits option.splits if_splits)

lemma action_master_playlist_counter:
  assumes "action_master_playlist av pl = Inr av'"
  shows "FCUP_RequestID av' = FCUP_RequestID av \<and> playback_uuid av' = playback_uuid av"
proof -
  from assms obtain pl1 av1 where sel: "select_master_playlist_language av pl = Inr (pl1, av1)"
    by (cases "select_master_playlist_language av pl") (auto simp: action_master_playlist_def Let_def)
  note keep = select_master_playlist_language_counter [OF sel]
  from assms sel have
    "\<exists>new_master uri_list n av2.
       create_media_data_store (store_master_playlist av1 new_master) uri_list n = Inr av2 \<and>
       av' = set_next_media_uri_id av2 0"
    by (auto simp: action_master_playlist_def Let_def split: sum.splits option.splits) blast
  then obtain new_master uri_list n av2 where
    c: "create_media_data_store (store_master_playlist av1 new_master) uri_list n = Inr av2"
    and a: "FCUP_RequestID av' = FCUP_RequestID av2" "playback_uuid av' = playback_uuid av2"
    by (auto simp: set_next_media_uri_id_def)
  from c have "FCUP_RequestID av2 = FCUP_RequestID av1" "playback_uuid av2 = playback_uuid av1"
    by (auto simp: create_media_data_store_def store_master_playlist_def split: if_splits)
  with a keep show ?thesis by simp
qed

lemma store_media_playlist_counter:
  assumes "store_media_playlist av pl cnt dur endl n = Inr (ret, av')"
  shows "FCUP_RequestID av' = FCUP_RequestID av \<and> playback_uuid av' = playback_uuid av"
  using assms
  by (auto simp: store_media_playlist_def split: if_splits option.splits sum.splits)

lemma action_media_playlist_counter:
  assumes "action_media_playlist strtof av pl = Inr av'"
  shows "FCUP_RequestID av' = FCUP_RequestID av \<and> playback_uuid av' = playback_uuid av"
  using assms store_media_playlist_counter
  by (auto simp: action_media_playlist_def Let_def split: prod.splits sum.splits)

lemma action_next_request_counter:
  assumes "action_next_request av sid = Inr (av', evs)"
  shows "playback_uuid av' = playback_uuid av \<and>
         ((request_ids evs = [] \<and> FCUP_RequestID av' = FCUP_RequestID av) \<or>
          (request_ids evs = [FCUP_RequestID av + 1] \<and> FCUP_RequestID av' = FCUP_RequestID av + 1))"
  using assms
  by (auto simp: action_next_request_def Let_def get_next_FCUP_RequestID_def
      set_next_media_uri_id_def split: if_splits sum.splits option.splits)

lemma action_error_step:
  "action_error raop response = Inr (raop', response', evs) \<Longrightarrow> raop' = raop \<and> evs = []"
  by (simp add: action_error_def)

lemma action_playlist_insert_step:
  "action_playlist_insert raop params response = Inr (raop', response', evs) \<Longrightarrow>
   raop' = raop \<and> evs = []"
  by (auto simp: action_playlist_insert_def action_error_def Let_def
      split: if_splits option.splits sum.splits)

lemma action_playlist_remove_step:
  "action_playlist_remove raop cur av params response position = Inr (raop', response', evs) \<Longrightarrow>
   (raop' = raop \<and> evs = []) \<or>
   (raop' = set_slot (raop\<lparr>current_video := - 1\<rparr>) cur (set_resume_position_seconds av position) \<and>
    evs = [On_video_playlist_remove])"
  by (auto simp: action_playlist_remove_def action_error_def Let_def
      split: if_splits option.splits sum.splits)

lemma action_unhandled_url_response_step:
  assumes "action_unhandled_url_response strtof raop cur av sid params response =
             Inr (raop', response', evs)"
  shows "(raop' = raop \<and> evs = []) \<or>
         (\<exists>av2. raop' = set_slot raop cur av2 \<and> playback_uuid av2 = playback_uuid av \<and>
            ((request_ids evs = [] \<and> FCUP_RequestID av2 = FCUP_RequestID av) \<or>
             (request_ids evs = [FCUP_RequestID av + 1] \<and>
              FCUP_RequestID av2 = FCUP_RequestID av + 1)))"
proof (cases "raop' = raop \<and> evs = []")
  case True
  then show ?thesis by simp
next
  case False
  with assms have "\<exists>pl av1 av2.
      (action_master_playlist av pl = Inr av1 \<or> action_media_playlist strtof av pl = Inr av1) \<and>
      action_next_request av1 sid = Inr (av2, evs) \<and> raop' = set_slot raop cur av2"
    unfolding action_unhandled_url_response_def Let_def
    by (auto simp: action_error_def split: if_splits option.splits sum.splits)
  then obtain pl av1 av2 where
    a: "action_master_playlist av pl = Inr av1 \<or> action_media_playlist strtof av pl = Inr av1"
    and b: "action_next_request av1 sid = Inr (av2, evs)" and c: "raop' = set_slot raop cur av2"
    by blast
  from a have "FCUP_RequestID av1 = FCUP_RequestID av \<and> playback_uuid av1 = playback_uuid av"
    using action_master_playlist_counter action_media_playlist_counter by blast
  with action_next_request_counter [OF b] c show ?thesis by auto
qed

lemma http_handler_action_step:
  assumes run: "http_handler_action strtof raop request response position =
                  Inr (raop', response', evs)"
  shows "\<exists>cur av av'.
           current_video raop = int cur \<and> cur < length (airplay_video raop) \<and>
           airplay_video raop ! cur = Some av \<and>
           airplay_video raop' = (airplay_video raop)[cur := Some av'] \<and>
           (current_video raop' = int cur \<or> current_video raop' = - 1) \<and>
           playback_uuid av' = playback_uuid av \<and>
           ((request_ids evs = [] \<and> FCUP_RequestID av' = FCUP_RequestID av) \<or>
            (request_ids evs = [FCUP_RequestID av + 1] \<and>
             FCUP_RequestID av' = FCUP_RequestID av + 1))"
proof -
  from run obtain av where cv: "hls_get_current_video raop = Inr (Some av)"
    by (auto simp: http_handler_action_def split: sum.splits option.splits)
  define cur where "cur = nat (current_video raop)"
  from cv have cur: "current_video raop = int cur" "cur < length (airplay_video raop)"
      "airplay_video raop ! cur = Some av"
    by (auto simp: hls_get_current_video_def cur_def split: if_splits option.splits)
  have same: "(airplay_video raop)[cur := Some av] = airplay_video raop"
    using cur(3) by (metis list_update_id)
  from run cv have outcome:
    "(raop' = raop \<and> evs = []) \<or>
     (raop' = set_slot (raop\<lparr>current_video := - 1\<rparr>) cur (set_resume_position_seconds av position) \<and>
      evs = [On_video_playlist_remove]) \<or>
     (\<exists>av2. raop' = set_slot raop cur av2 \<and> playback_uuid av2 = playback_uuid av \<and>
        ((request_ids evs = [] \<and> FCUP_RequestID av2 = FCUP_RequestID av) \<or>
         (request_ids evs = [FCUP_RequestID av + 1] \<and>
          FCUP_RequestID av2 = FCUP_RequestID av + 1)))"
    unfolding http_handler_action_def Let_def cur_def [symmetric]
    by (auto split: option.splits if_splits
        dest: action_error_step action_playlist_insert_step
          dest!: action_playlist_remove_step action_unhandled_url_response_step)
  then consider
      (unchanged) "raop' = raop" "evs = []"
    | (removed) "raop' = set_slot (raop\<lparr>current_video := - 1\<rparr>) cur
                          (set_resume_position_seconds av position)"
                "evs = [On_video_playlist_remove]"
    | (fetched) av2 where "raop' = set_slot raop cur av2" "playback_uuid av2 = playback_uuid av"
        "(request_ids evs = [] \<and> FCUP_RequestID av2 = FCUP_RequestID av) \<or>
         (request_ids evs = [FCUP_RequestID av + 1] \<and>
          FCUP_RequestID av2 = FCUP_RequestID av + 1)"
    by blast
  then show ?thesis
  proof cases
    case unchanged
    with cur same show ?thesis
      by (intro exI [of _ cur] exI [of _ av]) simp
  next
    case removed
    with cur show ?thesis
      by (intro exI [of _ cur] exI [of _ av]
            exI [of _ "set_resume_position_seconds av position"])
         (simp add: set_slot_def set_resume_position_seconds_def)
  next
    case (fetched av2)
    with cur show ?thesis
      by (intro exI [of _ cur] exI [of _ av] exI [of _ av2]) (simp add: set_slot_def)
  qed
qed

lemma request_ids_append: "request_ids (xs @ ys) = request_ids xs @ request_ids ys"
  by (induction xs rule: request_ids.induct) simp_all

lemma map_upt_shift:
  "map (\<lambda>k. c + 1 + int k) [0..<Suc n] = (c + 1) # map (\<lambda>k. c + 1 + 1 + int k) [0..<n]"
  by (simp add: upt_rec [of 0 "Suc n"] map_Suc_upt [symmetric] del: upt_Suc)

lemma run_actions_ids:
  assumes "run_actions strtof raop calls = Inr (raop', evs)"
    and "vid < length (airplay_video raop)" and "airplay_video raop ! vid = Some av"
    and "current_video raop = int vid \<or> current_video raop = - 1"
  shows "\<exists>av' n. airplay_video raop' ! vid = Some av' \<and> playback_uuid av' = playback_uuid av \<and>
           FCUP_RequestID av' = FCUP_RequestID av + int n \<and>
           request_ids evs = map (\<lambda>k. FCUP_RequestID av + 1 + int k) [0..<n]"
  using assms
proof (induction calls arbitrary: raop av evs)
  case Nil
  then show ?case by (intro exI [of _ av] exI [of _ 0]) simp
next
  case (Cons call rest)
  obtain request response position where call: "call = (request, response, position)"
    by (cases call) auto
  from Cons.prems(1) call obtain raop1 response1 evs1 evs2 where
    step: "http_handler_action strtof raop request response position = Inr (raop1, response1, evs1)"
    and rest: "run_actions strtof raop1 rest = Inr (raop', evs2)" and evs: "evs = evs1 @ evs2"
    by (auto split: sum.splits)
  from http_handler_action_step [OF step] obtain cur av0 av1 where
    c: "current_video raop = int cur" "airplay_video raop ! cur = Some av0"
       "airplay_video raop1 = (airplay_video raop)[cur := Some av1]"
       "current_video raop1 = int cur \<or> current_video raop1 = - 1"
       "playback_uuid av1 = playback_uuid av0"
       "(request_ids evs1 = [] \<and> FCUP_RequestID av1 = FCUP_RequestID av0) \<or>
        (request_ids evs1 = [FCUP_RequestID av0 + 1] \<and>
         FCUP_RequestID av1 = FCUP_RequestID av0 + 1)"
    by blast
  from c(1) Cons.prems(4) have cv: "cur = vid" by auto
  with c(2) Cons.prems(3) have a0: "av0 = av" by simp
  have l1: "vid < length (airplay_video raop1)" using c(3) Cons.prems(2) by simp
  have s1: "airplay_video raop1 ! vid = Some av1" using c(3) cv Cons.prems(2) by simp
  have c1: "current_video raop1 = int vid \<or> current_video raop1 = - 1" using c(4) cv by simp
  from Cons.IH [OF rest l1 s1 c1] obtain av' n where
    ih: "airplay_video raop' ! vid = Some av'" "playback_uuid av' = playback_uuid av1"
        "FCUP_RequestID av' = FCUP_RequestID av1 + int n"
        "request_ids evs2 = map (\<lambda>k. FCUP_RequestID av1 + 1 + int k) [0..<n]"
    by blast
  from c(6) show ?case
  proof
    assume "request_ids evs1 = [] \<and> FCUP_RequestID av1 = FCUP_RequestID av0"
    with ih c(5) a0 evs show ?thesis
      by (intro exI [of _ av'] exI [of _ n]) (simp add: request_ids_append)
  next
    assume "request_ids evs1 = [FCUP_RequestID av0 + 1] \<and>
         FCUP_RequestID av1 = FCUP_RequestID av0 + 1"
    with ih c(5) a0 evs show ?thesis
      by (intro exI [of _ av'] exI [of _ "Suc n"])
         (simp add: request_ids_append map_upt_shift del: upt_Suc)
  qed
qed

lemma play_start_fetch_counter:
  assumes run: "play_start_fetch raop vid av request response sid = Inr (raop', response', evs)"
    and slot: "airplay_video raop ! vid = Some av"
  shows "\<exists>av'. airplay_video raop' = (airplay_video raop)[vid := Some av'] \<and>
           current_video raop' = current_video raop \<and>
           playback_uuid av' = playback_uuid av \<and>
           ((request_ids evs = [] \<and> FCUP_RequestID av' = FCUP_RequestID av) \<or>
            (request_ids evs = [FCUP_RequestID av + 1] \<and>
             FCUP_RequestID av' = FCUP_RequestID av + 1))"
proof -
  have same: "(airplay_video raop)[vid := Some av] = airplay_video raop"
    using slot by (metis list_update_id)
  have unchanged: ?thesis if "raop' = raop" "evs = [Conn_reset 2]"
    using that same by (intro exI [of _ av]) simp
  show ?thesis
  proof (cases "plist_dict_get_item (request_plist request) ''Content-Location''")
    case None
    with run show ?thesis
      by (intro unchanged) (auto simp: play_start_fetch_def play_error_def)
  next
    case (Some cl)
    note cl = this
    show ?thesis
    proof (cases "plist_dict_get_item (request_plist request) ''clientProcName''")
      case None
      with run cl show ?thesis
        by (intro unchanged) (auto simp: play_start_fetch_def play_error_def)
    next
      case (Some cpn)
      note cpn = this
      from run cl cpn obtain name where name: "plist_get_string_val cpn = Some name"
        by (cases "plist_get_string_val cpn") (auto simp: play_start_fetch_def)
      from run cl cpn name obtain location where loc: "plist_get_string_val cl = Some location"
        by (cases "plist_get_string_val cl") (auto simp: play_start_fetch_def Let_def)
      define av1 where "av1 = set_start_position_seconds av
          (case plist_dict_get_item (request_plist request) ''Start-Position-Seconds'' of
             None \<Rightarrow> 0 | Some node \<Rightarrow> plist_get_real_val node 0)"
      have u1: "playback_uuid av1 = playback_uuid av" "FCUP_RequestID av1 = FCUP_RequestID av"
        by (simp_all add: av1_def set_start_position_seconds_def)
      show ?thesis
      proof (cases "strstr location ''/master.m3u8''")
        case None
        with run cl cpn name loc have "raop' = set_slot raop vid av1" "evs = [Conn_reset 2]"
          by (auto simp: play_start_fetch_def Let_def play_error_def av1_def)
        with u1 show ?thesis by (intro exI [of _ av1]) (simp add: set_slot_def)
      next
        case (Some k)
        from run cl cpn name loc Some
        have "\<exists>av4. raop' = set_slot (set_slot raop vid av1) vid av4 \<and>
                playback_uuid av4 = playback_uuid av1 \<and>
                FCUP_RequestID av4 = FCUP_RequestID av1 + 1 \<and>
                evs = [Fcup_request location sid (FCUP_RequestID av1 + 1)]"
          by (auto simp: play_start_fetch_def Let_def av1_def [symmetric]
              set_playback_location_def set_uri_prefix_def set_next_media_uri_id_def
              get_next_FCUP_RequestID_def split: if_splits)
        then obtain av4 where "raop' = set_slot (set_slot raop vid av1) vid av4"
            "playback_uuid av4 = playback_uuid av1"
            "FCUP_RequestID av4 = FCUP_RequestID av1 + 1"
            "evs = [Fcup_request location sid (FCUP_RequestID av1 + 1)]" by blast
        with u1 show ?thesis by (intro exI [of _ av4]) (simp add: set_slot_def)
      qed
    qed
  qed
qed

lemma sorted_wrt_ids: "sorted_wrt (<) (map int [1..<Suc n])"
  by (simp add: sorted_wrt_map del: upt_Suc)

lemma http_handler_play_counter:
  assumes len: "length (airplay_video raop) = MAX_AIRPLAY_VIDEO"
    and run: "http_handler_play raop request response = Inr (raop', response', evs)"
  shows "request_ids evs = [] \<or>
         (request_ids evs = [1] \<and>
          (\<exists>cur av'. current_video raop' = int cur \<and> airplay_video raop' ! cur = Some av' \<and>
             FCUP_RequestID av' = 1))"
proof (cases "header_X_Apple_Session_ID request")
  case None
  with run show ?thesis by (auto simp: http_handler_play_def play_error_def)
next
  case (Some sid)
  note sid = this
  show ?thesis
  proof (cases "request_datalen request > 0 \<and>
                 strstr (header_string request) ''x-apple-binary-plist'' \<noteq> None")
    case False
    with run sid show ?thesis by (auto simp: http_handler_play_def play_error_def)
  next
    case True
    note bin = this
    show ?thesis
    proof (cases "plist_dict_get_item (request_plist request) ''uuid''")
      case None
      with run sid bin show ?thesis by (auto simp: http_handler_play_def play_error_def)
    next
      case (Some node)
      note node = this
      from run sid bin node obtain uuid where uuid: "plist_get_string_val node = Some uuid"
        by (cases "plist_get_string_val node") (auto simp: http_handler_play_def)
      from run sid bin node uuid obtain r where r: "get_playlist_by_uuid raop uuid = Inr r"
        by (cases "get_playlist_by_uuid raop uuid") (auto simp: http_handler_play_def)
      show ?thesis
      proof (cases "r \<ge> 0")
        case True
        with run sid bin node uuid r
        have "play_existing raop (nat r) sid response = Inr (raop', response', evs)"
          by (auto simp: http_handler_play_def)
        then show ?thesis
          by (auto simp: play_existing_def Let_def split: sum.splits option.splits)
      next
        case False
        with run sid bin node uuid r obtain raop0 vid where
          ins: "play_insert_new raop sid uuid = Inr (raop0, vid)"
          by (cases "play_insert_new raop sid uuid") (auto simp: http_handler_play_def)
        from play_insert_new_spec [OF len ins] have
          v: "airplay_video raop0 ! vid = Some (new_session raop sid uuid)"
             "current_video raop0 = int vid" "length (airplay_video raop0) = MAX_AIRPLAY_VIDEO"
             "vid < MAX_AIRPLAY_VIDEO"
          by auto
        from run sid bin node uuid r False ins v(1)
        have "play_start_fetch raop0 vid (new_session raop sid uuid) request response sid =
                Inr (raop', response', evs)"
          by (auto simp: http_handler_play_def)
        from play_start_fetch_counter [OF this v(1)] obtain av1 where
          p: "airplay_video raop' = (airplay_video raop0)[vid := Some av1]"
             "current_video raop' = current_video raop0"
             "(request_ids evs = [] \<and>
               FCUP_RequestID av1 = FCUP_RequestID (new_session raop sid uuid)) \<or>
              (request_ids evs = [FCUP_RequestID (new_session raop sid uuid) + 1] \<and>
               FCUP_RequestID av1 = FCUP_RequestID (new_session raop sid uuid) + 1)"
          by blast
        have "FCUP_RequestID (new_session raop sid uuid) = 0"
          by (simp add: new_session_def airplay_video_init_def)
        moreover have "airplay_video raop' ! vid = Some av1" using p(1) v(3,4) by simp
        moreover have "current_video raop' = int vid" using p(2) v(2) by simp
        ultimately show ?thesis using p(3) by auto
      qed
    qed
  qed
qed

text \<open>
  C7. A new session starts with request ID 0, and \<^verbatim>\<open>get_next_FCUP_RequestID\<close> increments
  the counter and returns the incremented value. Both handlers that issue FCUP requests use
  it at the request: a run of \<^verbatim>\<open>http_handler_action\<close> issues no request and leaves the
  counter of the current session as it is, or issues one request with the counter plus one
  and leaves that value in the counter. So for a POST /play of a new playback UUID followed
  by any sequence of POST /action requests, the request IDs issued are 1, 2, ..., \<open>n\<close> in
  this order, strictly increasing, \<open>n\<close> being the counter of the session at the end.
  Every POST /play issues no request, or the one with ID 1, which is then the counter of
  the current session.
\<close>

theorem fcup_request_ids_strictly_increasing:
  assumes len: "length (airplay_video raop) = MAX_AIRPLAY_VIDEO"
    and sid: "header_X_Apple_Session_ID request = Some sid"
    and bin: "request_datalen request > 0"
             "strstr (header_string request) ''x-apple-binary-plist'' \<noteq> None"
    and uuid: "plist_dict_get_item (request_plist request) ''uuid'' = Some (PLIST_STRING uuid)"
    and nf: "get_playlist_by_uuid raop uuid = Inr (- 1)"
    and play: "http_handler_play raop request response = Inr (raop1, response1, evs0)"
    and acts: "run_actions strtof raop1 calls = Inr (raop2, evs)"
  shows "FCUP_RequestID (airplay_video_init http_port lng) = 0 \<and>
         (\<forall>av i av'. get_next_FCUP_RequestID av = Inr (i, av') \<longrightarrow>
              i = FCUP_RequestID av + 1 \<and> av' = av\<lparr>FCUP_RequestID := i\<rparr>) \<and>
         (\<forall>f r rq rs pos r' rs' es.
              http_handler_action f r rq rs pos = Inr (r', rs', es) \<longrightarrow>
              (\<exists>cur av av'. current_video r = int cur \<and> airplay_video r ! cur = Some av \<and>
                 airplay_video r' ! cur = Some av' \<and>
                 ((request_ids es = [] \<and> FCUP_RequestID av' = FCUP_RequestID av) \<or>
                  (request_ids es = [FCUP_RequestID av + 1] \<and>
                   FCUP_RequestID av' = FCUP_RequestID av + 1)))) \<and>
         (\<forall>r rq rs r' rs' es.
              length (airplay_video r) = MAX_AIRPLAY_VIDEO \<and>
              http_handler_play r rq rs = Inr (r', rs', es) \<longrightarrow>
              request_ids es = [] \<or>
              (request_ids es = [1] \<and>
               (\<exists>cur av'. current_video r' = int cur \<and> airplay_video r' ! cur = Some av' \<and>
                  FCUP_RequestID av' = 1))) \<and>
         (\<exists>vid av1 av2 n0 n.
              current_video raop1 = int vid \<and>
              airplay_video raop1 ! vid = Some av1 \<and> playback_uuid av1 = Some uuid \<and>
              request_ids evs0 = map int [1..<Suc n0] \<and> n0 \<le> 1 \<and> FCUP_RequestID av1 = int n0 \<and>
              airplay_video raop2 ! vid = Some av2 \<and> playback_uuid av2 = Some uuid \<and>
              request_ids (evs0 @ evs) = map int [1..<Suc n] \<and> FCUP_RequestID av2 = int n \<and>
              sorted_wrt (<) (request_ids (evs0 @ evs)))"
proof -
  have z: "FCUP_RequestID (airplay_video_init http_port lng) = 0"
    by (simp add: airplay_video_init_def)
  have step: "\<forall>av i av'. get_next_FCUP_RequestID av = Inr (i, av') \<longrightarrow>
              i = FCUP_RequestID av + 1 \<and> av' = av\<lparr>FCUP_RequestID := i\<rparr>"
    by (auto simp: get_next_FCUP_RequestID_def split: if_splits)
  have action: "\<forall>f r rq rs pos r' rs' es.
              http_handler_action f r rq rs pos = Inr (r', rs', es) \<longrightarrow>
              (\<exists>cur av av'. current_video r = int cur \<and> airplay_video r ! cur = Some av \<and>
                 airplay_video r' ! cur = Some av' \<and>
                 ((request_ids es = [] \<and> FCUP_RequestID av' = FCUP_RequestID av) \<or>
                  (request_ids es = [FCUP_RequestID av + 1] \<and>
                   FCUP_RequestID av' = FCUP_RequestID av + 1)))"
  proof (intro allI impI)
    fix f r rq rs pos r' rs' es
    assume "http_handler_action f r rq rs pos = Inr (r', rs', es)"
    from http_handler_action_step [OF this] obtain cur av av' where
      "current_video r = int cur" "cur < length (airplay_video r)"
      "airplay_video r ! cur = Some av" "airplay_video r' = (airplay_video r)[cur := Some av']"
      "(request_ids es = [] \<and> FCUP_RequestID av' = FCUP_RequestID av) \<or>
       (request_ids es = [FCUP_RequestID av + 1] \<and> FCUP_RequestID av' = FCUP_RequestID av + 1)"
      by blast
    then show "\<exists>cur av av'. current_video r = int cur \<and> airplay_video r ! cur = Some av \<and>
                 airplay_video r' ! cur = Some av' \<and>
                 ((request_ids es = [] \<and> FCUP_RequestID av' = FCUP_RequestID av) \<or>
                  (request_ids es = [FCUP_RequestID av + 1] \<and>
                   FCUP_RequestID av' = FCUP_RequestID av + 1))"
      by (intro exI [of _ cur] exI [of _ av] exI [of _ av']) simp
  qed
  from http_handler_play_new_path [OF play sid bin uuid nf len] obtain raop0 vid where
    ins: "play_insert_new raop sid uuid = Inr (raop0, vid)" and
    fetch: "play_start_fetch raop0 vid (new_session raop sid uuid) request response sid =
              Inr (raop1, response1, evs0)" by blast
  from play_insert_new_spec [OF len ins] have
    v: "vid < MAX_AIRPLAY_VIDEO" "airplay_video raop0 ! vid = Some (new_session raop sid uuid)"
       "current_video raop0 = int vid" "length (airplay_video raop0) = MAX_AIRPLAY_VIDEO"
    by auto
  have new: "FCUP_RequestID (new_session raop sid uuid) = 0"
    "playback_uuid (new_session raop sid uuid) = Some uuid"
    by (simp_all add: new_session_def airplay_video_init_def)
  from play_start_fetch_counter [OF fetch v(2)] new obtain av1 where
    p: "airplay_video raop1 = (airplay_video raop0)[vid := Some av1]"
       "current_video raop1 = current_video raop0" "playback_uuid av1 = Some uuid"
       "(request_ids evs0 = [] \<and> FCUP_RequestID av1 = 0) \<or>
        (request_ids evs0 = [1] \<and> FCUP_RequestID av1 = 1)"
    by auto
  from p(1) v have s1: "airplay_video raop1 ! vid = Some av1"
    and l1: "vid < length (airplay_video raop1)" by simp_all
  from p(2) v(3) have c1: "current_video raop1 = int vid" by simp
  from p(4) obtain n0 where n0: "n0 \<le> 1" "request_ids evs0 = map int [1..<Suc n0]"
      "FCUP_RequestID av1 = int n0"
  proof
    assume "request_ids evs0 = [] \<and> FCUP_RequestID av1 = 0"
    then show ?thesis by (intro that [of 0]) simp_all
  next
    assume "request_ids evs0 = [1] \<and> FCUP_RequestID av1 = 1"
    then show ?thesis by (intro that [of 1]) simp_all
  qed
  from run_actions_ids [OF acts l1 s1] c1 obtain av2 m where
    r: "airplay_video raop2 ! vid = Some av2" "playback_uuid av2 = playback_uuid av1"
       "FCUP_RequestID av2 = FCUP_RequestID av1 + int m"
       "request_ids evs = map (\<lambda>k. FCUP_RequestID av1 + 1 + int k) [0..<m]"
    by blast
  have "request_ids evs = map int [Suc n0..<Suc (n0 + m)]"
  proof -
    have "map (\<lambda>k. int n0 + 1 + int k) [0..<m] = map int (map (\<lambda>k. n0 + 1 + k) [0..<m])"
      by simp
    also have "map (\<lambda>k. n0 + 1 + k) [0..<m] = [Suc n0..<Suc (n0 + m)]"
      using map_add_upt [of "Suc n0" m] by (simp add: add.commute)
    finally show ?thesis using r(4) n0(3) by simp
  qed
  moreover have "[1..<Suc n0 + m] = [1..<Suc n0] @ [Suc n0..<Suc n0 + m]"
    by (rule upt_add_eq_append) simp
  ultimately have ids: "request_ids (evs0 @ evs) = map int [1..<Suc (n0 + m)]"
    using n0(2) by (simp add: request_ids_append del: upt_Suc)
  have cnt: "FCUP_RequestID av2 = int (n0 + m)" using r(3) n0(3) by simp
  have srt: "sorted_wrt (<) (request_ids (evs0 @ evs))"
    using ids sorted_wrt_ids [of "n0 + m"] by simp
  have trace: "\<exists>vid av1 av2 n0 n.
              current_video raop1 = int vid \<and>
              airplay_video raop1 ! vid = Some av1 \<and> playback_uuid av1 = Some uuid \<and>
              request_ids evs0 = map int [1..<Suc n0] \<and> n0 \<le> 1 \<and> FCUP_RequestID av1 = int n0 \<and>
              airplay_video raop2 ! vid = Some av2 \<and> playback_uuid av2 = Some uuid \<and>
              request_ids (evs0 @ evs) = map int [1..<Suc n] \<and> FCUP_RequestID av2 = int n \<and>
              sorted_wrt (<) (request_ids (evs0 @ evs))"
    using c1 s1 p(3) n0 r(1,2) ids cnt srt
    by (intro exI [of _ vid] exI [of _ av1] exI [of _ av2] exI [of _ n0] exI [of _ "n0 + m"]) simp
  have plays: "\<forall>r rq rs r' rs' es.
              length (airplay_video r) = MAX_AIRPLAY_VIDEO \<and>
              http_handler_play r rq rs = Inr (r', rs', es) \<longrightarrow>
              request_ids es = [] \<or>
              (request_ids es = [1] \<and>
               (\<exists>cur av'. current_video r' = int cur \<and> airplay_video r' ! cur = Some av' \<and>
                  FCUP_RequestID av' = 1))"
    using http_handler_play_counter by blast
  from z step action plays trace show ?thesis by blast
qed

lemma playlist_responses_eval:
  "map_sum id snd (run_actions strtof_decimal master_requested_registry playlist_responses) =
     Inr [Fcup_request ''http://client:7000/x/v/index.m3u8'' example_sid 2,
          Fcup_request ''http://client:7000/x/w/index.m3u8'' example_sid 3]"
  by (simp add: playlist_responses_def master_requested_registry_def action_request_def
      two_media_master_def plain_playlist_def empty_registry_def ok_response_def example_sid_def
      example_uuid_def http_handler_action_def action_unhandled_url_response_def
      action_master_playlist_def action_media_playlist_def action_next_request_def
      action_error_def PLIST_IS_STRING_def PLIST_IS_DICT_def PLIST_IS_DATA_def
      plist_get_data_val_def get_apple_session_id_def get_uri_prefix_def
      get_next_media_uri_id_def get_num_media_uri_def store_master_playlist_def
      get_media_uri_by_num_def analyze_media_playlist_def analyze_loop.simps
      create_media_uri_table_def uri_table_loop.simps strtof_decimal_def isdigit_def
      digit_val_def select_master_playlist_language_def master_playlist_process_language_def
      count_language_entries.simps adjust_master_playlist_def count_occurrences.simps
      master_replace_loop.simps memcpy_from_def strstr_at_def create_media_data_store_def
      store_media_playlist_def parse_media_playlist_def parse_media_loop.simps
      parse_header_step_def new_media_item_def strtol_def isspace_def to_int32_def
      handler_defs decimal.simps Let_def)

text \<open>
  An instance: the POST /play of a new video on the empty table, then the client's responses
  with the master playlist and with the first of its two media playlists. The requests
  issued carry the IDs 1, 2 and 3.
\<close>

theorem fcup_request_ids_strictly_increasing_witness:
  "length (airplay_video empty_registry) = MAX_AIRPLAY_VIDEO \<and>
   get_playlist_by_uuid empty_registry example_uuid = Inr (- 1) \<and>
   http_handler_play empty_registry
     (play_request example_uuid ''http://client:7000/x/master.m3u8'') ok_response =
     Inr (master_requested_registry, ok_response,
          [Fcup_request ''http://client:7000/x/master.m3u8'' example_sid 1]) \<and>
   (\<exists>raop2 av2.
      run_actions strtof_decimal master_requested_registry playlist_responses =
        Inr (raop2, [Fcup_request ''http://client:7000/x/v/index.m3u8'' example_sid 2,
                     Fcup_request ''http://client:7000/x/w/index.m3u8'' example_sid 3]) \<and>
      airplay_video raop2 ! 0 = Some av2 \<and> playback_uuid av2 = Some example_uuid \<and>
      FCUP_RequestID av2 = 3)"
proof -
  let ?rq = "play_request example_uuid ''http://client:7000/x/master.m3u8''"
  let ?evs = "[Fcup_request ''http://client:7000/x/v/index.m3u8'' example_sid 2,
               Fcup_request ''http://client:7000/x/w/index.m3u8'' example_sid 3]"
  have len: "length (airplay_video empty_registry) = MAX_AIRPLAY_VIDEO"
    by (simp add: empty_registry_def MAX_AIRPLAY_VIDEO_def)
  have sid: "header_X_Apple_Session_ID ?rq = Some example_sid" by (simp add: play_request_def)
  have bin: "request_datalen ?rq > 0" "strstr (header_string ?rq) ''x-apple-binary-plist'' \<noteq> None"
    by (simp_all add: play_request_def)
  have uuid: "plist_dict_get_item (request_plist ?rq) ''uuid'' = Some (PLIST_STRING example_uuid)"
    by (simp add: play_request_def plist_dict_get_item_def)
  have nf: "get_playlist_by_uuid empty_registry example_uuid = Inr (- 1)"
    by (simp add: handler_defs upt10 empty_registry_def)
  have play: "http_handler_play empty_registry ?rq ok_response =
     Inr (master_requested_registry, ok_response,
          [Fcup_request ''http://client:7000/x/master.m3u8'' example_sid 1])"
    using fresh_play_eval by (simp add: master_requested_registry_def)
  from playlist_responses_eval obtain raop2 where
    acts: "run_actions strtof_decimal master_requested_registry playlist_responses =
             Inr (raop2, ?evs)"
    by (cases "run_actions strtof_decimal master_requested_registry playlist_responses") auto
  from fcup_request_ids_strictly_increasing [OF len sid bin uuid nf play acts,
      THEN conjunct2, THEN conjunct2, THEN conjunct2, THEN conjunct2]
  obtain vid av2 n where
    cv: "current_video master_requested_registry = int vid"
    and s2: "airplay_video raop2 ! vid = Some av2" "playback_uuid av2 = Some example_uuid"
    and ids: "request_ids ([Fcup_request ''http://client:7000/x/master.m3u8'' example_sid 1] @ ?evs) =
       map int [1..<Suc n]"
    and cnt: "FCUP_RequestID av2 = int n"
    by blast
  from cv have v0: "vid = 0" by (simp add: master_requested_registry_def)
  have "length (request_ids ([Fcup_request ''http://client:7000/x/master.m3u8'' example_sid 1] @ ?evs)) =
        length (map int [1..<Suc n])"
    by (rule arg_cong [OF ids])
  then have n3: "n = 3" by (simp del: upt_Suc)
  from s2 cnt v0 n3 have "airplay_video raop2 ! 0 = Some av2 \<and> playback_uuid av2 = Some example_uuid \<and>
      FCUP_RequestID av2 = 3" by simp
  with len nf play acts show ?thesis by blast
qed

text \<open>
  Outside the hypothesis on the stores: when a session of the table has a store allocated
  with no item, \<^verbatim>\<open>get_duration\<close> reads the duration of an item that is not there, and
  the POST /play of a new playback UUID ends at this read.
\<close>

lemma prune_short_playlists_empty_store:
  assumes "distinct is" and "\<forall>i\<in>set is. i < length (airplay_video raop)"
    and "\<exists>i\<in>set is. \<exists>av. airplay_video raop ! i = Some av \<and> media_data_store av = Some []"
  shows "prune_short_playlists is raop cnt = Inl OutOfBounds"
  using assms
proof (induction "is" arbitrary: raop cnt)
  case Nil
  then show ?case by simp
next
  case (Cons i rest)
  from Cons.prems have dr: "distinct rest" and ni: "i \<notin> set rest"
    and rl: "\<forall>k\<in>set rest. k < length (airplay_video raop)" by auto
  from Cons.prems(3) obtain k av where
    bad: "k \<in> set (i # rest)" "airplay_video raop ! k = Some av" "media_data_store av = Some []"
    by blast
  show ?case
  proof (cases "airplay_video raop ! i")
    case None
    with bad have "k \<in> set rest" by auto
    with bad have "\<exists>i\<in>set rest. \<exists>av. airplay_video raop ! i = Some av \<and> media_data_store av = Some []"
      by blast
    from Cons.IH [OF dr rl this] None show ?thesis by simp
  next
    case (Some av0)
    show ?thesis
    proof (cases "media_data_store av0 = Some []")
      case True
      with Some show ?thesis by (simp add: get_duration_def)
    next
      case False
      with bad Some have kr: "k \<in> set rest" by auto
      with ni have ki: "k \<noteq> i" by auto
      from get_duration_total [OF False] obtain d where d: "get_duration (Some av0) = Inr d" ..
      let ?r = "raop_destroy_airplay_video raop i"
      have rl': "\<forall>k\<in>set rest. k < length (airplay_video ?r)"
        using rl by (simp add: raop_destroy_airplay_video_def)
      have b1: "\<exists>i\<in>set rest. \<exists>av. airplay_video raop ! i = Some av \<and> media_data_store av = Some []"
        using kr bad by blast
      have b2: "\<exists>i\<in>set rest. \<exists>av. airplay_video ?r ! i = Some av \<and> media_data_store av = Some []"
        using kr bad ki by (auto simp: raop_destroy_airplay_video_def intro!: bexI [of _ k])
      from Cons.IH [OF dr rl b1, of "cnt + 1"] Cons.IH [OF dr rl' b2, of cnt] Some d
      show ?thesis by simp
    qed
  qed
qed

lemma http_handler_play_empty_store:
  assumes len: "length (airplay_video raop) = MAX_AIRPLAY_VIDEO"
    and wf: "\<not> stores_nonempty raop"
    and sid: "header_X_Apple_Session_ID request = Some sid"
    and bin: "request_datalen request > 0"
             "strstr (header_string request) ''x-apple-binary-plist'' \<noteq> None"
    and uuid: "plist_dict_get_item (request_plist request) ''uuid'' = Some (PLIST_STRING uuid)"
    and nf: "get_playlist_by_uuid raop uuid = Inr (- 1)"
  shows "http_handler_play raop request response = Inl OutOfBounds"
proof -
  from wf obtain av where "Some av \<in> set (airplay_video raop)" "media_data_store av = Some []"
    by (auto simp: stores_nonempty_def list_all_iff split: option.splits)
  then obtain k where "k < length (airplay_video raop)" "airplay_video raop ! k = Some av"
    by (auto simp: in_set_conv_nth)
  with len \<open>media_data_store av = Some []\<close>
  have "\<exists>i\<in>set [0..<MAX_AIRPLAY_VIDEO]. \<exists>av. airplay_video raop ! i = Some av \<and>
          media_data_store av = Some []" by auto
  moreover have "\<forall>i\<in>set [0..<MAX_AIRPLAY_VIDEO]. i < length (airplay_video raop)"
    using len by simp
  ultimately have "prune_short_playlists [0..<MAX_AIRPLAY_VIDEO] raop 0 = Inl OutOfBounds"
    by (intro prune_short_playlists_empty_store) simp_all
  with sid bin uuid nf show ?thesis
    by (simp add: http_handler_play_def plist_get_string_val_def play_insert_new_def)
qed

end
